(* ===== verification/Veo_Prelude.thy ===== *)
theory Veo_Prelude
  imports "HOL-Library.Word"
begin

text \<open>
  Shared vocabulary of the development: machine types, the ways a C++ call can end, byte
  strings with the operations of \<^verbatim>\<open>std::string\<close> the program uses, little-endian images of
  integers, and flat memories.  The lemmas here are declared into the simplifier or into the
  collections \<open>byte_simps\<close> and \<open>mem_simps\<close>, from which the component proofs draw.
\<close>

unbundle bit_operations_syntax

named_theorems byte_simps \<open>byte strings: slices, replacement, little-endian images\<close>
named_theorems mem_simps \<open>reading and writing flat memories\<close>
named_theorems state_simps \<open>how an operation acts on the fields of a component's state\<close>

section \<open>Machine types\<close>

type_synonym u8 = "8 word"
type_synonym u16 = "16 word"
type_synonym u32 = "32 word"
type_synonym u64 = "64 word"
type_synonym byte = u8
type_synonym bytes = "byte list"

text \<open>A flat byte-addressed memory (the address space of the VH process, or of a VE process).\<close>
type_synonym memory = "u64 \<Rightarrow> byte"

text \<open>The range of the 32-bit C++ type \<^verbatim>\<open>int\<close>.\<close>

definition INT_MAX :: int where "INT_MAX = 2147483647"
definition INT_MIN :: int where "INT_MIN = - 2147483648"

definition in_int_range :: "int \<Rightarrow> bool" where
  "in_int_range i \<longleftrightarrow> INT_MIN \<le> i \<and> i \<le> INT_MAX"

section \<open>How a C++ call ends\<close>

text \<open>
  Besides returning a value a call can raise an exception, stop the process (a failed
  \<^verbatim>\<open>VEO_ASSERT\<close> calls \<^verbatim>\<open>abort()\<close>), end its thread (\<^verbatim>\<open>pthread_exit()\<close>), or do something the
  language gives no meaning to (a null or wild pointer, an uninitialised variable, a signed
  overflow).  \<open>VEOException\<close> carries its message and the saved errno.
\<close>

datatype fault =
    VEOException string int
  | StdException string
  | Abort
  | ThreadExit
  | UndefinedBehaviour

type_synonym 'a result = "fault + 'a"

text \<open>Sequencing of fallible computations, and of computations that also change a state.\<close>

definition bindR :: "'a result \<Rightarrow> ('a \<Rightarrow> 'b result) \<Rightarrow> 'b result" where
  "bindR r f = (case r of Inl e \<Rightarrow> Inl e | Inr x \<Rightarrow> f x)"

lemma bindR_simps [simp]:
  "bindR (Inl e) f = Inl e"
  "bindR (Inr x) f = f x"
  by (simp_all add: bindR_def)

lemma bindR_eq_Inr [simp]: "bindR r f = Inr y \<longleftrightarrow> (\<exists>x. r = Inr x \<and> f x = Inr y)"
  by (cases r) auto

text \<open>
  A computation on a state \<open>'s\<close> gives \<open>None\<close> when it does not return (a loop that never ends
  or a thread that waits for ever), and otherwise its result together with the state it
  leaves behind.  A fault keeps the state reached so far: a caught exception does not undo
  what was done before it.
\<close>

type_synonym ('s, 'a) prog = "'s \<Rightarrow> ('a result \<times> 's) option"

definition returnP :: "'a \<Rightarrow> ('s, 'a) prog" where
  "returnP x s = Some (Inr x, s)"

definition throwP :: "fault \<Rightarrow> ('s, 'a) prog" where
  "throwP e s = Some (Inl e, s)"

definition bindP :: "('s, 'a) prog \<Rightarrow> ('a \<Rightarrow> ('s, 'b) prog) \<Rightarrow> ('s, 'b) prog" where
  "bindP m f s =
     (case m s of
        None \<Rightarrow> None
      | Some (Inl e, t) \<Rightarrow> Some (Inl e, t)
      | Some (Inr x, t) \<Rightarrow> f x t)"

definition getP :: "('s \<Rightarrow> 'a) \<Rightarrow> ('s, 'a) prog" where
  "getP f s = Some (Inr (f s), s)"

definition modifyP :: "('s \<Rightarrow> 's) \<Rightarrow> ('s, unit) prog" where
  "modifyP f s = Some (Inr (), f s)"

text \<open>A state transformer that returns a value and cannot fail (a call of the environment).\<close>

definition liftP :: "('s \<Rightarrow> 'a \<times> 's) \<Rightarrow> ('s, 'a) prog" where
  "liftP f s = (case f s of (x, t) \<Rightarrow> Some (Inr x, t))"

text \<open>A fallible computation that does not touch the state.\<close>

definition resultP :: "'a result \<Rightarrow> ('s, 'a) prog" where
  "resultP r s = Some (r, s)"

definition assertP :: "bool \<Rightarrow> ('s, unit) prog" where
  "assertP b = (if b then returnP () else throwP Abort)"

lemma bindP_simps [simp]:
  "m s = None \<Longrightarrow> bindP m f s = None"
  "m s = Some (Inl e, t) \<Longrightarrow> bindP m f s = Some (Inl e, t)"
  "m s = Some (Inr x, t) \<Longrightarrow> bindP m f s = f x t"
  by (simp_all add: bindP_def)

lemma prog_simps [simp]:
  "returnP x s = Some (Inr x, s)"
  "throwP e s = Some (Inl e, s)"
  "getP g s = Some (Inr (g s), s)"
  "modifyP h s = Some (Inr (), h s)"
  "liftP k s = Some (Inr (fst (k s)), snd (k s))"
  "resultP r s = Some (r, s)"
  by (simp_all add: returnP_def throwP_def getP_def modifyP_def liftP_def resultP_def
      split: prod.split)

lemma bindP_chain [simp]:
  "bindP (returnP x) f s = f x s"
  "bindP (throwP e) f s = Some (Inl e, s)"
  "bindP (getP g) f s = f (g s) s"
  "bindP (modifyP h) k' s = k' () (h s)"
  "bindP (liftP k) f s = f (fst (k s)) (snd (k s))"
  by (simp_all add: bindP_def)

lemma bindP_resultP [simp]:
  "bindP (resultP (Inr x)) f s = f x s"
  "bindP (resultP (Inl e)) f s = Some (Inl e, s)"
  by (simp_all add: bindP_def)

lemma assertP_simps [simp]:
  "assertP True = returnP ()"
  "assertP False = throwP Abort"
  by (simp_all add: assertP_def)

lemma bindP_eq_Inr:
  "bindP m f s = Some (Inr y, u) \<longleftrightarrow>
     (\<exists>x t. m s = Some (Inr x, t) \<and> f x t = Some (Inr y, u))"
  by (auto simp: bindP_def split: option.splits sum.splits)

lemma bindP_eq_SomeE:
  assumes "bindP m f s = Some (r, u)"
  obtains (stop) e where "m s = Some (Inl e, u)" "r = Inl e"
  | (ok) x t where "m s = Some (Inr x, t)" "f x t = Some (r, u)"
  using assms by (auto simp: bindP_def split: option.splits sum.splits)

lemma bindP_same: "m s = m' s \<Longrightarrow> bindP m f s = bindP m' f s"
  by (simp add: bindP_def)

lemma bindP_assoc: "bindP (bindP m f) g = bindP m (\<lambda>x. bindP (f x) g)"
  by (rule ext) (auto simp: bindP_def split: option.split sum.split prod.split)

section \<open>Byte strings\<close>

definition slice :: "nat \<Rightarrow> nat \<Rightarrow> 'a list \<Rightarrow> 'a list" where
  "slice off n xs = take n (drop off xs)"

text \<open>
  \<^verbatim>\<open>str.replace(pos, n, s)\<close>: the (at most) \<open>n\<close> characters from position \<open>pos\<close> are replaced by
  \<open>s\<close>.  The C++ function raises \<^verbatim>\<open>std::out_of_range\<close> exactly when \<open>pos > size()\<close>.
\<close>

definition str_replace :: "'a list \<Rightarrow> nat \<Rightarrow> nat \<Rightarrow> 'a list \<Rightarrow> 'a list" where
  "str_replace str pos n s = take pos str @ s @ drop (pos + n) str"

text \<open>\<^verbatim>\<open>str.resize(n)\<close> for \<open>n \<ge> size()\<close>: NUL characters are appended.\<close>

definition str_extend :: "bytes \<Rightarrow> nat \<Rightarrow> bytes" where
  "str_extend str n = str @ replicate (n - length str) 0"

lemma length_slice [simp]: "off + n \<le> length xs \<Longrightarrow> length (slice off n xs) = n"
  by (simp add: slice_def)

lemma slice_append_left [byte_simps]: "off + n \<le> length xs \<Longrightarrow> slice off n (xs @ ys) = slice off n xs"
  by (simp add: slice_def)

lemma slice_append_right [byte_simps]:
  "length xs \<le> off \<Longrightarrow> slice off n (xs @ ys) = slice (off - length xs) n ys"
  by (simp add: slice_def)

lemma slice_0_all [byte_simps]: "n = length xs \<Longrightarrow> slice 0 n xs = xs"
  by (simp add: slice_def)

lemma slice_0_append [byte_simps]: "n = length xs \<Longrightarrow> slice 0 n (xs @ ys) = xs"
  by (simp add: slice_def)

lemma slice_eq_nth_equality:
  "off + n \<le> length xs \<Longrightarrow> length ys = n \<Longrightarrow>
     slice off n xs = ys \<longleftrightarrow> (\<forall>i < n. xs ! (off + i) = ys ! i)"
  by (auto simp: slice_def list_eq_iff_nth_eq)

lemma length_str_replace [simp]:
  "pos + n \<le> length str \<Longrightarrow> length s = n \<Longrightarrow> length (str_replace str pos n s) = length str"
  by (simp add: str_replace_def)

lemma slice_str_replace_same [byte_simps]:
  "pos \<le> length str \<Longrightarrow> length s = k \<Longrightarrow> slice pos k (str_replace str pos n s) = s"
  by (simp add: slice_def str_replace_def)

lemma slice_str_replace_before [byte_simps]:
  assumes "off + k \<le> pos" "pos \<le> length str"
  shows "slice off k (str_replace str pos n s) = slice off k str"
proof -
  have "slice off k (str_replace str pos n s) = take k (drop off (take pos str))"
    using assms by (simp add: slice_def str_replace_def)
  also have "\<dots> = take k (drop off str)"
    using assms by (simp add: drop_take min_def)
  finally show ?thesis by (simp add: slice_def)
qed

lemma slice_str_replace_after [byte_simps]:
  assumes "pos + n \<le> off" "pos + n \<le> length str" "length s = n"
  shows "slice off k (str_replace str pos n s) = slice off k str"
  using assms by (simp add: slice_def str_replace_def add.commute)

lemma slice_slice_append:
  "slice off (m + n) xs = slice off m xs @ slice (off + m) n xs"
  by (simp add: slice_def take_add add.commute)

section \<open>Little-endian images of integers\<close>

text \<open>The bytes of an integer variable in memory, least significant byte first.\<close>

definition word_image :: "'a::len word \<Rightarrow> bytes" where
  "word_image w = map (\<lambda>i. ucast (drop_bit (8 * i) w)) [0..<LENGTH('a) div 8]"

text \<open>The 64-bit integer with the given little-endian bytes.\<close>

fun le_word :: "bytes \<Rightarrow> u64" where
  "le_word [] = 0"
| "le_word (b # bs) = ucast b OR push_bit 8 (le_word bs)"

lemma length_word_image [simp]: "length (word_image (w :: 'a::len word)) = LENGTH('a) div 8"
  by (simp add: word_image_def)

lemma bit_le_word:
  "bit (le_word bs) n \<longleftrightarrow> n < 64 \<and> n div 8 < length bs \<and> bit (bs ! (n div 8)) (n mod 8)"
proof (induction bs arbitrary: n)
  case Nil
  then show ?case by simp
next
  case (Cons b bs)
  show ?case
  proof (cases "n < 8")
    case True
    then show ?thesis
      by (simp add: bit_or_iff bit_ucast_iff bit_push_bit_iff)
  next
    case False
    then have n: "n div 8 = Suc ((n - 8) div 8)" "n mod 8 = (n - 8) mod 8"
      by (simp_all add: le_div_geq le_mod_geq)
    have "\<not> bit b n"
      using False by (auto dest: bit_imp_le_length)
    with False show ?thesis
      unfolding n by (auto simp: bit_or_iff bit_ucast_iff bit_push_bit_iff Cons.IH)
  qed
qed

lemma bit_word_image:
  fixes w :: "'a::len word"
  assumes "i < LENGTH('a) div 8"
  shows "bit (word_image w ! i) k \<longleftrightarrow> k < 8 \<and> bit w (8 * i + k)"
  using assms by (simp add: word_image_def bit_ucast_iff bit_drop_bit_eq)

lemma le_word_append_zeros [byte_simps]: "le_word (bs @ replicate k 0) = le_word bs"
proof (rule bit_word_eqI)
  fix n :: nat
  show "bit (le_word (bs @ replicate k 0)) n \<longleftrightarrow> bit (le_word bs) n"
    by (auto simp: bit_le_word nth_append)
qed

lemma le_word_word_image [byte_simps]:
  fixes w :: "'a::len word"
  assumes "LENGTH('a) mod 8 = 0" "LENGTH('a) \<le> 64"
  shows "le_word (word_image w) = ucast w"
proof (rule bit_word_eqI)
  fix n :: nat assume "n < LENGTH(64)"
  have "n div 8 < LENGTH('a) div 8 \<longleftrightarrow> n < LENGTH('a)"
    using assms(1) by (simp add: div_less_iff_less_mult mod_0_imp_dvd)
  then show "bit (le_word (word_image w)) n \<longleftrightarrow> bit (ucast w :: u64) n"
    using \<open>n < LENGTH(64)\<close>
    by (auto simp: bit_le_word bit_word_image bit_ucast_iff dest: bit_imp_le_length)
qed

lemma le_word_padded_image [byte_simps]:
  fixes w :: "'a::len word"
  assumes "LENGTH('a) mod 8 = 0" "LENGTH('a) \<le> 64"
  shows "le_word (word_image w @ replicate k 0) = ucast w"
  using assms by (simp add: byte_simps)

section \<open>Flat memories\<close>

lemma unat_u64_less: "unat (w :: u64) < 2 ^ 64"
proof -
  have "unat w < 2 ^ LENGTH(64)" by (rule unsigned_less)
  then show ?thesis by simp
qed

lemma unat_of_nat64: "i < 2 ^ 64 \<Longrightarrow> unat (of_nat i :: u64) = i"
  by (simp add: unat_of_nat)

text \<open>Widening to 64 bits keeps the number.\<close>

lemma sint_scast_u64: "LENGTH('a) \<le> 64 \<Longrightarrow> sint (scast (x :: 'a::len word) :: u64) = sint x"
  by (rule sint_up_scast) (simp add: is_up)

lemma uint_ucast_u64: "LENGTH('a) \<le> 64 \<Longrightarrow> uint (ucast (x :: 'a::len word) :: u64) = uint x"
  by (rule uint_up_ucast) (simp add: is_up)

definition mem_read :: "memory \<Rightarrow> u64 \<Rightarrow> nat \<Rightarrow> bytes" where
  "mem_read m p n = map (\<lambda>i. m (p + of_nat i)) [0..<n]"

definition mem_write :: "memory \<Rightarrow> u64 \<Rightarrow> bytes \<Rightarrow> memory" where
  "mem_write m p bs = (\<lambda>a. if unat (a - p) < length bs then bs ! unat (a - p) else m a)"

lemma length_mem_read [simp]: "length (mem_read m p n) = n"
  by (simp add: mem_read_def)

lemma nth_mem_read [simp]: "i < n \<Longrightarrow> mem_read m p n ! i = m (p + of_nat i)"
  by (simp add: mem_read_def)

lemma mem_write_Nil [simp]: "mem_write m p [] = m"
  by (simp add: mem_write_def)

lemma mem_write_outside [mem_simps]: "length bs \<le> unat (a - p) \<Longrightarrow> mem_write m p bs a = m a"
  by (simp add: mem_write_def)

lemma mem_read_write_same [mem_simps]:
  assumes "length bs = n" "n \<le> 2 ^ 64"
  shows "mem_read (mem_write m p bs) p n = bs"
proof (rule nth_equalityI)
  fix i assume "i < length (mem_read (mem_write m p bs) p n)"
  then have "i < n" by simp
  then have "unat (of_nat i :: u64) = i"
    using assms(2) by (intro unat_of_nat64) simp
  with \<open>i < n\<close> show "mem_read (mem_write m p bs) p n ! i = bs ! i"
    using assms(1) by (simp add: mem_write_def)
qed (simp add: assms)

lemma mem_write_read_same [mem_simps]: "mem_write m p (mem_read m p n) = m"
  by (rule ext) (simp add: mem_write_def)

lemma slice_mem_read [mem_simps]:
  "off + k \<le> n \<Longrightarrow> slice off k (mem_read m p n) = mem_read m (p + of_nat off) k"
  by (rule nth_equalityI) (simp_all add: slice_def add.assoc)

text \<open>Two byte ranges of a 64-bit address space that have no address in common.\<close>

definition disjoint_ranges :: "u64 \<Rightarrow> nat \<Rightarrow> u64 \<Rightarrow> nat \<Rightarrow> bool" where
  "disjoint_ranges p m q n \<longleftrightarrow> (\<forall>i < m. n \<le> unat (p + of_nat i - q))"

lemma mem_read_write_disjoint [mem_simps]:
  "disjoint_ranges p n q (length bs) \<Longrightarrow> mem_read (mem_write m q bs) p n = mem_read m p n"
  by (rule nth_equalityI) (simp_all add: disjoint_ranges_def mem_write_outside)

lemma disjoint_below:
  fixes p q :: u64
  assumes "unat p + n \<le> unat q" and "unat q + m \<le> 2 ^ 64"
  shows "disjoint_ranges p n q m"
  unfolding disjoint_ranges_def
proof (intro allI impI)
  fix i assume "i < n"
  have "unat (of_nat i :: u64) = i" using \<open>i < n\<close> assms by (intro unat_of_nat64) simp
  then have "unat (p + of_nat i) = unat p + i" using \<open>i < n\<close> assms by (simp add: unat_word_ariths)
  then have "unat (p + of_nat i - q) = 2 ^ 64 + (unat p + i) - unat q"
    using \<open>i < n\<close> assms by (simp add: unat_sub_if')
  then show "m \<le> unat (p + of_nat i - q)" using assms by simp
qed

end
