(* ===== verification/Ve_Offload.thy ===== *)
theory Ve_Offload
  imports Veo_Prelude
begin

text \<open>
  The public constants and enumerations of \<^verbatim>\<open>include/ve_offload.h\<close> and the system call numbers
  of \<^verbatim>\<open>include/veo_private_defs.h\<close>, shared by every component.  Enumerations whose values the
  program only compares are datatypes; the command states, which travel through plain
  \<^verbatim>\<open>int\<close> variables and are returned to C callers, are integers.
\<close>

definition VEO_API_VERSION :: int where "VEO_API_VERSION = 8"
definition VEO_SYMNAME_LEN_MAX :: nat where "VEO_SYMNAME_LEN_MAX = 255"

text \<open>\<^verbatim>\<open>(~0UL)\<close>\<close>
definition VEO_REQUEST_ID_INVALID :: u64 where "VEO_REQUEST_ID_INVALID = - 1"

datatype veo_context_state =
    VEO_STATE_UNKNOWN
  | VEO_STATE_RUNNING
  | VEO_STATE_SYSCALL
  | VEO_STATE_BLOCKED
  | VEO_STATE_EXIT

text \<open>The value a C caller of \<^verbatim>\<open>veo_get_context_state()\<close> sees.\<close>

fun context_state_int :: "veo_context_state \<Rightarrow> int" where
  "context_state_int VEO_STATE_UNKNOWN = 0"
| "context_state_int VEO_STATE_RUNNING = 1"
| "context_state_int VEO_STATE_SYSCALL = 2"
| "context_state_int VEO_STATE_BLOCKED = 3"
| "context_state_int VEO_STATE_EXIT = 4"

definition VEO_COMMAND_OK :: int where "VEO_COMMAND_OK = 0"
definition VEO_COMMAND_EXCEPTION :: int where "VEO_COMMAND_EXCEPTION = 1"
definition VEO_COMMAND_ERROR :: int where "VEO_COMMAND_ERROR = 2"
definition VEO_COMMAND_UNFINISHED :: int where "VEO_COMMAND_UNFINISHED = 3"

lemmas command_state_defs =
  VEO_COMMAND_OK_def VEO_COMMAND_EXCEPTION_def VEO_COMMAND_ERROR_def VEO_COMMAND_UNFINISHED_def

datatype veo_args_intent = VEO_INTENT_IN | VEO_INTENT_INOUT | VEO_INTENT_OUT

datatype veo_queue_state = VEO_QUEUE_READY | VEO_QUEUE_CLOSED

text \<open>\<^verbatim>\<open>include/veo_private_defs.h\<close>\<close>

definition NR_ve_sysve :: int where "NR_ve_sysve = 316"
definition VE_SYSVE_VEO_BLOCK :: u64 where "VE_SYSVE_VEO_BLOCK = 0x14"

text \<open>The values of the errno constants of the C library (Linux) that the program uses.\<close>

definition EINTR :: int where "EINTR = 4"
definition EINVAL :: int where "EINVAL = 22"
definition ENAMETOOLONG :: int where "ENAMETOOLONG = 36"
definition ENOSYS :: int where "ENOSYS = 38"

lemma VEO_REQUEST_ID_INVALID_succ [simp]: "VEO_REQUEST_ID_INVALID + 1 = 0"
  by (simp add: VEO_REQUEST_ID_INVALID_def)

lemma zero_ne_REQUEST_ID_INVALID [simp]: "0 \<noteq> VEO_REQUEST_ID_INVALID"
  by (simp add: VEO_REQUEST_ID_INVALID_def)

end
