(* ===== verification/CallArgs.thy ===== *)
theory CallArgs
  imports Ve_Offload
begin

text \<open>
  The arguments of a VEO function (\<^verbatim>\<open>src/libveo/CallArgs.hpp\<close>, \<^verbatim>\<open>src/libveo/CallArgs.cpp\<close>):
  the argument classes, the class \<^verbatim>\<open>CallArgs\<close> and the layout of the stack image that is
  transferred to the VE before a call and read back after it.

  An image starts with the register save area (\<open>PARAM_AREA_OFFSET\<close> bytes), then one 8-byte
  slot per argument, then the data of the arguments passed by reference, each padded to a
  multiple of 8 bytes.  Only the slots of the arguments beyond the eighth are filled.
\<close>

section \<open>Constants and the argument classes\<close>

definition NUM_ARGS_ON_REGISTER :: nat where "NUM_ARGS_ON_REGISTER = 8"
definition PARAM_AREA_OFFSET :: nat where "PARAM_AREA_OFFSET = 176"

lemmas layout_consts = NUM_ARGS_ON_REGISTER_def PARAM_AREA_OFFSET_def

text \<open>
  The classes derived from \<^verbatim>\<open>ArgBase\<close>: one \<^verbatim>\<open>ArgType<T>\<close> per instantiated integer type,
  the specialisations for \<^verbatim>\<open>double\<close> and \<^verbatim>\<open>float\<close> (held as IEEE bit patterns), and
  \<^verbatim>\<open>ArgOnStack\<close> with its members \<^verbatim>\<open>buff_\<close>, \<^verbatim>\<open>len_\<close>, \<^verbatim>\<open>in_\<close>, \<^verbatim>\<open>out_\<close> and \<^verbatim>\<open>vemva_\<close>; the
  constructor leaves \<^verbatim>\<open>vemva_\<close> uninitialised, which is \<open>None\<close> here.
\<close>

datatype arg_base =
    ArgI64 u64 | ArgU64 u64
  | ArgI32 u32 | ArgU32 u32
  | ArgI16 u16 | ArgU16 u16
  | ArgI8 u8 | ArgU8 u8
  | ArgDouble u64
  | ArgFloat u32
  | ArgOnStack (arg_buff: u64) (arg_len: u64) (arg_in: bool) (arg_out: bool) (arg_vemva: "u64 option")

text \<open>\<^verbatim>\<open>set_value<T>\<close>: the image of \<open>T\<close> at \<open>offset\<close>, padded with NUL to 8 bytes.\<close>

definition set_value :: "bytes \<Rightarrow> nat \<Rightarrow> bytes \<Rightarrow> bytes" where
  "set_value str offset img =
     (let sz = length img;
          str1 = (if length str < offset then str_extend str offset else str);
          str2 = str_replace str1 offset sz img
      in if sz mod 8 > 0
         then (let padsize = 8 - sz mod 8
               in str_replace str2 (offset + sz) padsize (replicate padsize 0))
         else str2)"

text \<open>The 64-bit view of the union of a \<^verbatim>\<open>float\<close>: \<open>f_[2] = {0.0, f}\<close>.\<close>

definition float_union :: "u32 \<Rightarrow> u64" where
  "float_union f = push_bit 32 (ucast f)"

text \<open>
  \<^verbatim>\<open>getRegVal\<close>: \<^verbatim>\<open>static_cast<int64_t>\<close> sign-extends the signed types and zero-extends the
  unsigned ones.  Reading an uninitialised \<^verbatim>\<open>vemva_\<close> has no meaning.
\<close>

fun arg_getRegVal :: "arg_base \<Rightarrow> u64 result" where
  "arg_getRegVal (ArgI64 v) = Inr v"
| "arg_getRegVal (ArgU64 v) = Inr v"
| "arg_getRegVal (ArgI32 v) = Inr (scast v)"
| "arg_getRegVal (ArgU32 v) = Inr (ucast v)"
| "arg_getRegVal (ArgI16 v) = Inr (scast v)"
| "arg_getRegVal (ArgU16 v) = Inr (ucast v)"
| "arg_getRegVal (ArgI8 v) = Inr (scast v)"
| "arg_getRegVal (ArgU8 v) = Inr (ucast v)"
| "arg_getRegVal (ArgDouble d) = Inr d"
| "arg_getRegVal (ArgFloat f) = Inr (float_union f)"
| "arg_getRegVal (ArgOnStack b l i out v) =
     (case v of None \<Rightarrow> Inl UndefinedBehaviour | Some a \<Rightarrow> Inr a)"

text \<open>The bytes a scalar argument passes to \<open>set_value\<close>.\<close>

fun scalar_image :: "arg_base \<Rightarrow> bytes" where
  "scalar_image (ArgI64 v) = word_image v"
| "scalar_image (ArgU64 v) = word_image v"
| "scalar_image (ArgI32 v) = word_image v"
| "scalar_image (ArgU32 v) = word_image v"
| "scalar_image (ArgI16 v) = word_image v"
| "scalar_image (ArgU16 v) = word_image v"
| "scalar_image (ArgI8 v) = word_image v"
| "scalar_image (ArgU8 v) = word_image v"
| "scalar_image (ArgDouble d) = word_image d"
| "scalar_image (ArgFloat f) = word_image (float_union f)"
| "scalar_image (ArgOnStack b l i out v) = []"

text \<open>\<^verbatim>\<open>sizeOnStack\<close>, in \<^verbatim>\<open>size_t\<close> arithmetic.\<close>

fun sizeOnStack :: "arg_base \<Rightarrow> u64" where
  "sizeOnStack (ArgOnStack b l i out v) =
     (if l mod 8 > 0 then l + (8 - l mod 8) else l)"
| "sizeOnStack _ = 0"

text \<open>
  \<^verbatim>\<open>setStackImage(sp, stack, n, in, out)\<close> of each class: the object (\<^verbatim>\<open>vemva_\<close> is set), the
  stack image and the two flags after the call.  \<open>vh\<close> is the memory of the VH process, from
  which \<^verbatim>\<open>stack.append(buff_, len_)\<close> reads.
\<close>

definition scalar_setStackImage ::
  "arg_base \<Rightarrow> bytes \<Rightarrow> nat \<Rightarrow> arg_base \<times> bytes \<times> bool \<times> bool" where
  "scalar_setStackImage a stack n =
     (if n < NUM_ARGS_ON_REGISTER then (a, stack, False, False)
      else (a, set_value stack (PARAM_AREA_OFFSET + n * 8) (scalar_image a), True, False))"

definition onstack_setStackImage ::
  "memory \<Rightarrow> u64 \<Rightarrow> u64 \<Rightarrow> bool \<Rightarrow> bool \<Rightarrow> u64 \<Rightarrow> bytes \<Rightarrow> nat
     \<Rightarrow> arg_base \<times> bytes \<times> bool \<times> bool" where
  "onstack_setStackImage vh b l i out sp stack n =
     (let oldlen = length stack;
          vemva = sp + of_nat oldlen;
          stack1 = (if i then stack @ mem_read vh b (unat l) else stack @ replicate (unat l) 0);
          stack2 = (if l mod 8 > 0 then stack1 @ replicate (unat (8 - l mod 8)) 0 else stack1);
          stack3 = (if n \<ge> NUM_ARGS_ON_REGISTER
                    then set_value stack2 (PARAM_AREA_OFFSET + 8 * n) (word_image vemva)
                    else stack2)
      in (ArgOnStack b l i out (Some vemva), stack3, i, out))"

fun setStackImage ::
  "memory \<Rightarrow> arg_base \<Rightarrow> u64 \<Rightarrow> bytes \<Rightarrow> nat \<Rightarrow> arg_base \<times> bytes \<times> bool \<times> bool" where
  "setStackImage vh (ArgOnStack b l i out v) sp stack n =
     onstack_setStackImage vh b l i out sp stack n"
| "setStackImage vh a sp stack n = scalar_setStackImage a stack n"

text \<open>
  \<^verbatim>\<open>copyoutFromStackImage(sp, img)\<close>: \<^verbatim>\<open>memcpy\<close> from the image to the VH buffer.  Reading
  outside the image, or through an uninitialised \<^verbatim>\<open>vemva_\<close>, has no meaning.
\<close>

fun copyoutFromStackImage :: "arg_base \<Rightarrow> u64 \<Rightarrow> bytes \<Rightarrow> memory \<Rightarrow> memory result" where
  "copyoutFromStackImage (ArgOnStack b l i out v) sp img vh =
     (if \<not> out then Inr vh
      else case v of
        None \<Rightarrow> Inl UndefinedBehaviour
      | Some a \<Rightarrow>
          (if unat (a - sp) + unat l \<le> length img
           then Inr (mem_write vh b (slice (unat (a - sp)) (unat l) img))
           else Inl UndefinedBehaviour))"
| "copyoutFromStackImage _ sp img vh = Inr vh"

section \<open>The class CallArgs\<close>

text \<open>
  A slot of \<^verbatim>\<open>arguments\<close> is \<open>None\<close> when it holds the null pointer, which \<^verbatim>\<open>resize\<close> leaves in the
  slots no one has set.  \<^verbatim>\<open>stack_buf\<close> is \<open>None\<close> before the first \<^verbatim>\<open>setup\<close>.
\<close>

record call_args =
  arguments :: "arg_base option list"
  stack_top :: u64
  stack_size :: u64
  stack_buf :: "bytes option"
  copied_in :: bool
  copied_out :: bool

text \<open>
  The constructors.  They initialise \<^verbatim>\<open>arguments\<close> and \<^verbatim>\<open>stack_buf\<close> only: the other members keep
  what the raw storage \<open>raw\<close> holds.
\<close>

definition new_CallArgs :: "call_args \<Rightarrow> call_args" where
  "new_CallArgs raw = raw\<lparr>arguments := [], stack_buf := None\<rparr>"

definition push_arg :: "call_args \<Rightarrow> u64 \<Rightarrow> call_args" where
  "push_arg ca val = ca\<lparr>arguments := arguments ca @ [Some (ArgI64 val)]\<rparr>"

definition new_CallArgs_list :: "call_args \<Rightarrow> u64 list \<Rightarrow> call_args" where
  "new_CallArgs_list raw args = foldl push_arg (new_CallArgs raw) args"

definition clear :: "call_args \<Rightarrow> call_args" where
  "clear ca = ca\<lparr>arguments := []\<rparr>"

definition numArgs :: "call_args \<Rightarrow> nat" where
  "numArgs ca = length (arguments ca)"

text \<open>
  The extension and assignment that \<^verbatim>\<open>set_\<close> and \<^verbatim>\<open>setOnStack\<close> share.  \<open>argnum\<close> is an \<^verbatim>\<open>int\<close>:
  \<^verbatim>\<open>argnum + 1\<close> overflows for \<open>INT_MAX\<close>; compared with \<^verbatim>\<open>size()\<close> it is converted to
  \<^verbatim>\<open>size_t\<close>, so a negative value is a huge size which \<^verbatim>\<open>resize\<close> refuses with
  \<^verbatim>\<open>std::length_error\<close>; \<open>argnum = -1\<close> needs no extension and writes before the vector.
\<close>

definition store_arg :: "call_args \<Rightarrow> int \<Rightarrow> arg_base \<Rightarrow> call_args result" where
  "store_arg ca argnum a =
     (if argnum = INT_MAX then Inl UndefinedBehaviour
      else if argnum + 1 < 0 then Inl (StdException ''length_error'')
      else if argnum < 0 then Inl UndefinedBehaviour
      else let n = nat argnum;
               args = (if length (arguments ca) < n + 1
                       then arguments ca @ replicate (n + 1 - length (arguments ca)) None
                       else arguments ca)
           in Inr (ca\<lparr>arguments := args[n := Some a]\<rparr>))"

definition set_arg :: "call_args \<Rightarrow> int \<Rightarrow> arg_base \<Rightarrow> call_args result" where
  "set_arg ca argnum a = store_arg ca argnum a"

definition setOnStack ::
  "call_args \<Rightarrow> veo_args_intent \<Rightarrow> int \<Rightarrow> u64 \<Rightarrow> u64 \<Rightarrow> call_args result" where
  "setOnStack ca inout argnum buff len =
     (let copiedin = (inout = VEO_INTENT_IN \<or> inout = VEO_INTENT_INOUT);
          copiedout = (inout = VEO_INTENT_OUT \<or> inout = VEO_INTENT_INOUT)
      in store_arg ca argnum (ArgOnStack buff len copiedin copiedout None))"

text \<open>\<^verbatim>\<open>getRegVal(sp)\<close>: the loop stops after \<open>NUM_ARGS_ON_REGISTER\<close> arguments.\<close>

fun regvals_loop :: "arg_base option list \<Rightarrow> nat \<Rightarrow> u64 list \<Rightarrow> u64 list result" where
  "regvals_loop [] count rv = Inr rv"
| "regvals_loop (None # as) count rv = Inl UndefinedBehaviour"
| "regvals_loop (Some a # as) count rv =
     bindR (arg_getRegVal a)
       (\<lambda>v. if Suc count \<ge> NUM_ARGS_ON_REGISTER then Inr (rv @ [v])
            else regvals_loop as (Suc count) (rv @ [v]))"

definition getRegVal :: "call_args \<Rightarrow> u64 list result" where
  "getRegVal ca = regvals_loop (arguments ca) 0 []"

text \<open>
  \<^verbatim>\<open>std::accumulate(begin, end, 0, f)\<close>: the initial value is an \<^verbatim>\<open>int\<close>, so the running total
  is one too.  It is sign-extended to the \<^verbatim>\<open>size_t\<close> parameter of the lambda, and the
  \<^verbatim>\<open>size_t\<close> sum is narrowed back.
\<close>

fun accumulate_sizes :: "u32 \<Rightarrow> arg_base option list \<Rightarrow> u32 result" where
  "accumulate_sizes s [] = Inr s"
| "accumulate_sizes s (None # as) = Inl UndefinedBehaviour"
| "accumulate_sizes s (Some a # as) = accumulate_sizes (ucast (scast s + sizeOnStack a :: u64)) as"

text \<open>The loop of \<^verbatim>\<open>getStackImage\<close> over the arguments, from argument number \<open>n\<close>.\<close>

fun image_loop ::
  "memory \<Rightarrow> u64 \<Rightarrow> arg_base option list \<Rightarrow> nat \<Rightarrow> bytes \<Rightarrow> bool \<Rightarrow> bool
     \<Rightarrow> (arg_base option list \<times> bytes \<times> bool \<times> bool) result" where
  "image_loop vh sp [] n stack ci co = Inr ([], stack, ci, co)"
| "image_loop vh sp (None # as) n stack ci co = Inl UndefinedBehaviour"
| "image_loop vh sp (Some a # as) n stack ci co =
     (case setStackImage vh a sp stack n of (a', stack', i, out) \<Rightarrow>
        bindR (image_loop vh sp as (Suc n) stack' (ci \<or> i) (co \<or> out))
          (\<lambda>(as', stack'', ci', co'). Inr (Some a' # as', stack'', ci', co')))"

text \<open>
  \<^verbatim>\<open>getStackImage(sp)\<close>: the object, the shifted stack pointer and the image.  The size is an
  \<^verbatim>\<open>int\<close> expression whose overflow has no meaning.
\<close>

definition getStackImage :: "memory \<Rightarrow> call_args \<Rightarrow> u64 \<Rightarrow> (call_args \<times> u64 \<times> bytes) result" where
  "getStackImage vh ca sp =
     bindR (accumulate_sizes 0 (arguments ca))
       (\<lambda>acc.
          let params = int PARAM_AREA_OFFSET + 8 * int (numArgs ca);
              size = params + sint acc
          in if \<not> in_int_range params \<or> \<not> in_int_range size then Inl UndefinedBehaviour
             else let sz = (word_of_int size :: u64);
                      sp' = sp - sz;
                      stack = replicate (PARAM_AREA_OFFSET + 8 * numArgs ca) 0
                  in bindR (image_loop vh sp' (arguments ca) 0 stack False False)
                       (\<lambda>(as', img, ci, co).
                          Inr (ca\<lparr>arguments := as', stack_top := sp', stack_size := sz,
                                  copied_in := ci, copied_out := co\<rparr>, sp', img)))"

definition setup_args :: "memory \<Rightarrow> call_args \<Rightarrow> u64 \<Rightarrow> (call_args \<times> u64) result" where
  "setup_args vh ca sp =
     bindR (getStackImage vh ca sp)
       (\<lambda>(ca', sp', img).
          if stack_size ca' \<noteq> of_nat (length img) then Inl Abort
          else Inr (ca'\<lparr>stack_buf := Some img\<rparr>, sp'))"

text \<open>
  \<^verbatim>\<open>copyin(xfer)\<close> and \<^verbatim>\<open>copyout(xfer)\<close>.  The transfer function acts on a state \<open>'s\<close>; \<open>copyin\<close>
  drops its return code, and so does \<open>copyout\<close>, which then copies each output argument from
  whatever the transfer left in the buffer.
\<close>

definition copyin ::
  "(u64 \<Rightarrow> bytes \<Rightarrow> 's \<Rightarrow> int \<times> 's) \<Rightarrow> call_args \<Rightarrow> 's \<Rightarrow> 's" where
  "copyin xfer ca s =
     (if copied_in ca
      then snd (xfer (stack_top ca) (case stack_buf ca of None \<Rightarrow> [] | Some b \<Rightarrow> b) s)
      else s)"

fun copyout_loop :: "u64 \<Rightarrow> bytes \<Rightarrow> arg_base option list \<Rightarrow> memory \<Rightarrow> memory result" where
  "copyout_loop sp img [] vh = Inr vh"
| "copyout_loop sp img (None # as) vh = Inl UndefinedBehaviour"
| "copyout_loop sp img (Some a # as) vh =
     bindR (copyoutFromStackImage a sp img vh) (copyout_loop sp img as)"

definition copyout ::
  "(u64 \<Rightarrow> nat \<Rightarrow> 's \<Rightarrow> (int \<times> bytes) \<times> 's) \<Rightarrow> call_args \<Rightarrow> memory \<Rightarrow> 's
     \<Rightarrow> (call_args \<times> memory) result \<times> 's" where
  "copyout xfer ca vh s =
     (if copied_out ca
      then (case xfer (stack_top ca) (unat (stack_size ca)) s of
              ((rv, bs), s') \<Rightarrow>
                let old = (case stack_buf ca of None \<Rightarrow> [] | Some b \<Rightarrow> b);
                    buf = bs @ drop (length bs) old
                in (bindR (copyout_loop (stack_top ca) buf (arguments ca) vh)
                      (\<lambda>vh'. Inr (ca\<lparr>stack_buf := Some buf\<rparr>, vh')), s'))
      else (Inr (ca, vh), s))"

end
