(* ===== verification/Command.thy ===== *)
theory Command
  imports Ve_Offload "HOL-Library.Multiset"
begin

text \<open>
  Commands and the queue pair through which the threads of the VH program and the pseudo
  thread of a context communicate (\<^verbatim>\<open>src/libveo/Command.hpp\<close>, \<^verbatim>\<open>src/libveo/Command.cpp\<close>,
  \<^verbatim>\<open>src/libveo/CommandImpl.hpp\<close>).

  Every operation of a queue runs under the queue's mutex and is one function here.  An
  operation that waits on the condition variable gives \<open>None\<close> in the states where it keeps
  waiting.
\<close>

section \<open>Commands\<close>

text \<open>
  \<^verbatim>\<open>Command\<close> with the function object of \<^verbatim>\<open>CommandImpl\<close>, kept as a value of type \<open>'h\<close> that says
  which handler it is and what it captured.  \<^verbatim>\<open>retval\<close> and \<^verbatim>\<open>status\<close> are not initialised by the
  constructor: \<open>None\<close> until \<^verbatim>\<open>setResult\<close>.
\<close>

record 'h command =
  cmd_id :: u64
  cmd_retval :: "u64 option"
  cmd_status :: "int option"
  cmd_handler :: 'h

definition new_Command :: "u64 \<Rightarrow> 'h \<Rightarrow> 'h command" where
  "new_Command i h = \<lparr>cmd_id = i, cmd_retval = None, cmd_status = None, cmd_handler = h\<rparr>"

definition setResult :: "'h command \<Rightarrow> u64 \<Rightarrow> int \<Rightarrow> 'h command" where
  "setResult c r s = c\<lparr>cmd_retval := Some r, cmd_status := Some s\<rparr>"

text \<open>\<^verbatim>\<open>getRetval()\<close> and \<^verbatim>\<open>getStatus()\<close>.\<close>

definition getRetval :: "'h command \<Rightarrow> u64 result" where
  "getRetval c = (case cmd_retval c of None \<Rightarrow> Inl UndefinedBehaviour | Some r \<Rightarrow> Inr r)"

definition getStatus :: "'h command \<Rightarrow> int result" where
  "getStatus c = (case cmd_status c of None \<Rightarrow> Inl UndefinedBehaviour | Some s \<Rightarrow> Inr s)"

section \<open>BlockingQueue\<close>

record 'h blocking_queue =
  bq_queue :: "'h command list"
  bq_state :: veo_queue_state

definition new_BlockingQueue :: "'h blocking_queue" where
  "new_BlockingQueue = \<lparr>bq_queue = [], bq_state = VEO_QUEUE_READY\<rparr>"

definition bq_push :: "'h blocking_queue \<Rightarrow> 'h command \<Rightarrow> 'h blocking_queue" where
  "bq_push q c = q\<lparr>bq_queue := bq_queue q @ [c]\<rparr>"

definition popNoWait :: "'h blocking_queue \<Rightarrow> 'h command option \<times> 'h blocking_queue" where
  "popNoWait q =
     (case bq_queue q of [] \<Rightarrow> (None, q) | c # cs \<Rightarrow> (Some c, q\<lparr>bq_queue := cs\<rparr>))"

text \<open>\<^verbatim>\<open>pop()\<close>: the loop waits while the queue is empty.\<close>

definition bq_pop :: "'h blocking_queue \<Rightarrow> ('h command \<times> 'h blocking_queue) option" where
  "bq_pop q =
     (case bq_queue q of [] \<Rightarrow> None | c # cs \<Rightarrow> Some (c, q\<lparr>bq_queue := cs\<rparr>))"

text \<open>The iterator loop of \<^verbatim>\<open>tryFindNoLock\<close>.\<close>

fun find_loop :: "u64 \<Rightarrow> 'h command list \<Rightarrow> ('h command \<times> 'h command list) option" where
  "find_loop m [] = None"
| "find_loop m (c # cs) =
     (if cmd_id c = m then Some (c, cs)
      else map_option (\<lambda>(r, rest). (r, c # rest)) (find_loop m cs))"

definition tryFindNoLock ::
  "'h blocking_queue \<Rightarrow> u64 \<Rightarrow> 'h command option \<times> 'h blocking_queue" where
  "tryFindNoLock q m =
     (case find_loop m (bq_queue q) of
        None \<Rightarrow> (None, q)
      | Some (c, rest) \<Rightarrow> (Some c, q\<lparr>bq_queue := rest\<rparr>))"

definition tryFind :: "'h blocking_queue \<Rightarrow> u64 \<Rightarrow> 'h command option \<times> 'h blocking_queue" where
  "tryFind q m = tryFindNoLock q m"

text \<open>\<^verbatim>\<open>wait(msgid)\<close>: the loop waits while no command with the ID is in the queue.\<close>

definition bq_wait :: "'h blocking_queue \<Rightarrow> u64 \<Rightarrow> ('h command \<times> 'h blocking_queue) option" where
  "bq_wait q m =
     (case tryFindNoLock q m of (None, q') \<Rightarrow> None | (Some c, q') \<Rightarrow> Some (c, q'))"

definition setStatus :: "'h blocking_queue \<Rightarrow> veo_queue_state \<Rightarrow> 'h blocking_queue" where
  "setStatus q s = q\<lparr>bq_state := s\<rparr>"

section \<open>CommQueue\<close>

record 'h comm_queue =
  request :: "'h blocking_queue"
  completion :: "'h blocking_queue"

definition new_CommQueue :: "'h comm_queue" where
  "new_CommQueue = \<lparr>request = new_BlockingQueue, completion = new_BlockingQueue\<rparr>"

definition pushRequest :: "'h comm_queue \<Rightarrow> 'h command \<Rightarrow> int \<times> 'h comm_queue" where
  "pushRequest q req =
     (if bq_state (request q) = VEO_QUEUE_READY
      then (0, q\<lparr>request := bq_push (request q) req\<rparr>)
      else (1, q))"

definition popRequest :: "'h comm_queue \<Rightarrow> ('h command \<times> 'h comm_queue) option" where
  "popRequest q =
     (case bq_pop (request q) of None \<Rightarrow> None | Some (c, r) \<Rightarrow> Some (c, q\<lparr>request := r\<rparr>))"

definition pushCompletion :: "'h comm_queue \<Rightarrow> 'h command \<Rightarrow> 'h comm_queue" where
  "pushCompletion q req = q\<lparr>completion := bq_push (completion q) req\<rparr>"

definition peekCompletion ::
  "'h comm_queue \<Rightarrow> u64 \<Rightarrow> 'h command option \<times> 'h comm_queue" where
  "peekCompletion q m =
     (case tryFind (completion q) m of (r, c) \<Rightarrow> (r, q\<lparr>completion := c\<rparr>))"

definition waitCompletion ::
  "'h comm_queue \<Rightarrow> u64 \<Rightarrow> ('h command \<times> 'h comm_queue) option" where
  "waitCompletion q m =
     (case bq_wait (completion q) m of
        None \<Rightarrow> None
      | Some (r, c) \<Rightarrow> Some (r, q\<lparr>completion := c\<rparr>))"

function setCompletion :: "'h comm_queue \<Rightarrow> 'h comm_queue" where
  "setCompletion q =
     (case popNoWait (request q) of
        (None, r) \<Rightarrow> q\<lparr>request := r\<rparr>
      | (Some c, r) \<Rightarrow>
          setCompletion
            (q\<lparr>request := r,
               completion := bq_push (completion q) (setResult c 0 VEO_COMMAND_UNFINISHED)\<rparr>))"
  by pat_completeness auto
termination
  by (relation "measure (\<lambda>q. length (bq_queue (request q)))")
    (auto simp: popNoWait_def split: list.splits)

declare setCompletion.simps [simp del]

definition setRequestStatus :: "'h comm_queue \<Rightarrow> veo_queue_state \<Rightarrow> 'h comm_queue" where
  "setRequestStatus q s = q\<lparr>request := setStatus (request q) s\<rparr>"

section \<open>The contract of a queue searched by key\<close>

locale keyed_queue =
  fixes push :: "'q \<Rightarrow> 'c \<Rightarrow> 'q"
    and pop_first :: "'q \<Rightarrow> 'c option \<times> 'q"
    and find_key :: "'q \<Rightarrow> 'k \<Rightarrow> 'c option \<times> 'q"
    and contents :: "'q \<Rightarrow> 'c list"
    and key :: "'c \<Rightarrow> 'k"
  assumes contents_push: "contents (push q c) = contents q @ [c]"
    and pop_first_empty: "contents q = [] \<Longrightarrow> pop_first q = (None, q)"
    and pop_first_Cons: "contents q = c # cs \<Longrightarrow> \<exists>q'. pop_first q = (Some c, q') \<and> contents q' = cs"
    and find_key_absent: "k \<notin> key ` set (contents q) \<Longrightarrow> find_key q k = (None, q)"
    and find_key_first:
      "contents q = xs @ c # ys \<Longrightarrow> key c = k \<Longrightarrow> k \<notin> key ` set xs
         \<Longrightarrow> \<exists>q'. find_key q k = (Some c, q') \<and> contents q' = xs @ ys"
begin

lemma find_key_cases:
  obtains (absent) "k \<notin> key ` set (contents q)" "find_key q k = (None, q)"
  | (present) xs c ys q' where "contents q = xs @ c # ys" "key c = k" "k \<notin> key ` set xs"
      "find_key q k = (Some c, q')" "contents q' = xs @ ys"
proof (cases "k \<in> key ` set (contents q)")
  case True
  then obtain xs c ys where *: "contents q = xs @ c # ys" "key c = k" "\<forall>x \<in> set xs. key x \<noteq> k"
    using split_list_first_prop [of "contents q" "\<lambda>c. key c = k"] by auto
  moreover then have absent: "k \<notin> key ` set xs" by auto
  ultimately obtain q' where "find_key q k = (Some c, q')" "contents q' = xs @ ys"
    using find_key_first by blast
  with * absent present show thesis by blast
next
  case False
  then show thesis using find_key_absent absent by blast
qed

lemma find_key_None_iff: "fst (find_key q k) = None \<longleftrightarrow> k \<notin> key ` set (contents q)"
  by (cases rule: find_key_cases [of k q]) auto

lemma find_key_SomeD:
  assumes "find_key q k = (Some c, q')"
  shows "key c = k" "mset (contents q) = add_mset c (mset (contents q'))"
  using assms by (cases rule: find_key_cases [of k q]; simp)+

text \<open>With distinct keys, an element found is gone, and all others are still there, in order.\<close>

lemma find_key_removes:
  assumes "distinct (map key (contents q))" and "find_key q k = (Some c, q')"
  shows "contents q' = filter (\<lambda>x. key x \<noteq> k) (contents q)"
proof (cases rule: find_key_cases [of k q])
  case (present xs c' ys q'')
  with assms have "k \<notin> key ` set ys" by auto
  with present(3) have "filter (\<lambda>x. key x \<noteq> k) xs = xs" "filter (\<lambda>x. key x \<noteq> k) ys = ys"
    by (auto simp: filter_id_conv)
  with present assms(2) show ?thesis by simp
qed (use assms(2) in simp)

lemma find_key_push_fresh:
  assumes "key c \<notin> key ` set (contents q)"
  shows "fst (find_key (push q c) (key c)) = Some c"
proof -
  have "contents (push q c) = contents q @ c # []" by (simp add: contents_push)
  from find_key_first [OF this refl assms] show ?thesis by auto
qed

end

lemma find_loop_absent: "k \<notin> cmd_id ` set cs \<Longrightarrow> find_loop k cs = None"
  by (induction cs) auto

lemma find_loop_first:
  "k \<notin> cmd_id ` set xs \<Longrightarrow> cmd_id c = k \<Longrightarrow> find_loop k (xs @ c # ys) = Some (c, xs @ ys)"
  by (induction xs) auto

interpretation bq: keyed_queue bq_push popNoWait tryFindNoLock bq_queue cmd_id
  by unfold_locales
    (auto simp: bq_push_def popNoWait_def tryFindNoLock_def find_loop_absent find_loop_first)

section \<open>How the operations act on the fields\<close>

lemma bq_fields [state_simps]:
  "bq_queue (bq_push q c) = bq_queue q @ [c]"
  "bq_state (bq_push q c) = bq_state q"
  "bq_queue (setStatus q s) = bq_queue q"
  "bq_state (setStatus q s) = s"
  "bq_queue new_BlockingQueue = []"
  "bq_state new_BlockingQueue = VEO_QUEUE_READY"
  by (simp_all add: bq_push_def setStatus_def new_BlockingQueue_def)

lemma command_fields [state_simps]:
  "cmd_id (new_Command i h) = i"
  "cmd_handler (new_Command i h) = h"
  "cmd_id (setResult c r s) = cmd_id c"
  "cmd_retval (setResult c r s) = Some r"
  "cmd_status (setResult c r s) = Some s"
  "cmd_handler (setResult c r s) = cmd_handler c"
  by (simp_all add: new_Command_def setResult_def)

lemma comm_queue_fields [state_simps]:
  "request (pushCompletion q c) = request q"
  "completion (pushCompletion q c) = bq_push (completion q) c"
  "request (setRequestStatus q s) = setStatus (request q) s"
  "completion (setRequestStatus q s) = completion q"
  "request new_CommQueue = new_BlockingQueue"
  "completion new_CommQueue = new_BlockingQueue"
  by (simp_all add: pushCompletion_def setRequestStatus_def new_CommQueue_def)

lemma tryFindNoLock_state:
  "tryFindNoLock q k = (r, q') \<Longrightarrow> bq_state q' = bq_state q"
  by (auto simp: tryFindNoLock_def split: option.splits)

lemma popRequest_eq:
  "popRequest q =
     (case bq_queue (request q) of
        [] \<Rightarrow> None
      | c # cs \<Rightarrow> Some (c, q\<lparr>request := (request q)\<lparr>bq_queue := cs\<rparr>\<rparr>))"
  by (simp add: popRequest_def bq_pop_def split: list.split)

lemma setCompletion_eq:
  "setCompletion q =
     q\<lparr>request := (request q)\<lparr>bq_queue := []\<rparr>,
       completion := (completion q)\<lparr>bq_queue := bq_queue (completion q)
         @ map (\<lambda>c. setResult c 0 VEO_COMMAND_UNFINISHED) (bq_queue (request q))\<rparr>\<rparr>"
proof (induction q rule: setCompletion.induct)
  case (1 q)
  show ?case
  proof (cases "bq_queue (request q)")
    case Nil
    then show ?thesis by (simp add: setCompletion.simps [of q] popNoWait_def)
  next
    case (Cons c cs)
    then have pop: "popNoWait (request q) = (Some c, (request q)\<lparr>bq_queue := cs\<rparr>)"
      by (simp add: popNoWait_def)
    from "1.IH" [OF pop [symmetric] refl] Cons show ?thesis
      by (simp add: setCompletion.simps [of q] pop bq_push_def)
  qed
qed

section \<open>Properties of the queue pair\<close>

text \<open>Taking \<open>n\<close> requests one after the other.\<close>

fun pop_requests :: "nat \<Rightarrow> 'h comm_queue \<Rightarrow> ('h command list \<times> 'h comm_queue) option" where
  "pop_requests 0 q = Some ([], q)"
| "pop_requests (Suc n) q =
     (case popRequest q of
        None \<Rightarrow> None
      | Some (c, q') \<Rightarrow> map_option (\<lambda>(cs, q''). (c # cs, q'')) (pop_requests n q'))"

definition push_requests :: "'h comm_queue \<Rightarrow> 'h command list \<Rightarrow> 'h comm_queue" where
  "push_requests q cs = foldl (\<lambda>q c. snd (pushRequest q c)) q cs"

lemma push_requests_ready:
  "bq_state (request q) = VEO_QUEUE_READY \<Longrightarrow>
     push_requests q cs = q\<lparr>request := (request q)\<lparr>bq_queue := bq_queue (request q) @ cs\<rparr>\<rparr>"
proof (induction cs arbitrary: q)
  case Nil
  then show ?case by (simp add: push_requests_def)
next
  case (Cons c cs)
  have "push_requests q (c # cs) = push_requests (q\<lparr>request := bq_push (request q) c\<rparr>) cs"
    using Cons.prems by (simp add: push_requests_def pushRequest_def)
  also have "\<dots> = q\<lparr>request := (request q)\<lparr>bq_queue := bq_queue (request q) @ c # cs\<rparr>\<rparr>"
    using Cons.prems by (subst Cons.IH) (simp_all add: bq_push_def)
  finally show ?case .
qed

lemma pop_requests_front:
  "bq_queue (request q) = cs @ ds \<Longrightarrow>
     pop_requests (length cs) q = Some (cs, q\<lparr>request := (request q)\<lparr>bq_queue := ds\<rparr>\<rparr>)"
  by (induction cs arbitrary: q) (simp_all add: popRequest_eq)

text \<open>
  Requests reach the pseudo thread in the order in which they were pushed, each exactly
  once, behind those already waiting; afterwards the queue pair is what it was.
\<close>

theorem requests_fifo:
  assumes "bq_state (request q) = VEO_QUEUE_READY" and "bq_queue (request q) = ds"
  shows "pop_requests (length ds + length cs) (push_requests q cs)
     = Some (ds @ cs, q\<lparr>request := (request q)\<lparr>bq_queue := []\<rparr>\<rparr>)"
  using pop_requests_front [of "push_requests q cs" "ds @ cs" "[]"] assms
  by (simp add: push_requests_ready)

text \<open>
  A closed request queue accepts nothing: \<^verbatim>\<open>pushRequest\<close> reports one and changes nothing,
  and the requests already queued stay readable.
\<close>

theorem closed_queue_refuses:
  "pushRequest (setRequestStatus q VEO_QUEUE_CLOSED) c = (1, setRequestStatus q VEO_QUEUE_CLOSED)
   \<and> bq_queue (request (setRequestStatus q VEO_QUEUE_CLOSED)) = bq_queue (request q)"
  by (simp add: pushRequest_def state_simps)

text \<open>
  \<^verbatim>\<open>waitCompletion\<close> returns exactly when a command with the ID is in the completion queue;
  it returns a command with that ID, takes it out and, the IDs being distinct, leaves all
  the others in their order, so that no result is delivered twice or lost.
\<close>

theorem waitCompletion_delivers_once:
  assumes "distinct (map cmd_id (bq_queue (completion q)))"
  shows "(waitCompletion q m = None \<longleftrightarrow> m \<notin> cmd_id ` set (bq_queue (completion q)))
     \<and> (\<forall>c q'. waitCompletion q m = Some (c, q') \<longrightarrow>
          c \<in> set (bq_queue (completion q)) \<and> cmd_id c = m
          \<and> bq_queue (completion q') = filter (\<lambda>x. cmd_id x \<noteq> m) (bq_queue (completion q))
          \<and> request q' = request q \<and> waitCompletion q' m = None)"
proof (cases "tryFindNoLock (completion q) m")
  case (Pair r c')
  show ?thesis
  proof (cases r)
    case None
    then show ?thesis
      using Pair bq.find_key_None_iff [of "completion q" m]
      by (simp add: waitCompletion_def bq_wait_def)
  next
    case (Some c)
    have found: "tryFindNoLock (completion q) m = (Some c, c')" using Pair Some by simp
    have rest: "bq_queue c' = filter (\<lambda>x. cmd_id x \<noteq> m) (bq_queue (completion q))"
      by (rule bq.find_key_removes [OF assms found])
    then have "tryFindNoLock c' m = (None, c')"
      by (intro bq.find_key_absent) auto
    moreover have "c \<in># mset (bq_queue (completion q))"
      using bq.find_key_SomeD(2) [OF found] by simp
    ultimately show ?thesis
      using found rest bq.find_key_SomeD(1) [OF found]
      by (auto simp: waitCompletion_def bq_wait_def)
  qed
qed

text \<open>
  \<^verbatim>\<open>setCompletion\<close> ends, empties the request queue, and moves its commands in order behind
  the finished ones, each marked unfinished with return value zero.
\<close>

theorem setCompletion_moves_all:
  "bq_queue (request (setCompletion q)) = []
   \<and> bq_queue (completion (setCompletion q)) = bq_queue (completion q)
        @ map (\<lambda>c. setResult c 0 VEO_COMMAND_UNFINISHED) (bq_queue (request q))
   \<and> bq_state (request (setCompletion q)) = bq_state (request q)
   \<and> map cmd_id (bq_queue (completion (setCompletion q)))
        = map cmd_id (bq_queue (completion q) @ bq_queue (request q))"
  by (simp add: setCompletion_eq state_simps comp_def)

end
