(* ===== verification/ThreadContext.thy ===== *)
theory ThreadContext
  imports CallArgs Command
begin

text \<open>
  The VEO thread context (\<^verbatim>\<open>src/libveo/ThreadContext.hpp\<close>, \<^verbatim>\<open>src/libveo/ThreadContext.cpp\<close>,
  \<^verbatim>\<open>src/libveo/AsyncTransfer.cpp\<close>): the system call filters, the exception handlers, calls of
  VE functions, the event loop of the pseudo thread and the requests of the VH threads.

  The libraries below the program (libved, libvepseudo, the operating system) are not part of
  the sources.  They are the parameter \<open>E\<close> of the definitions, a record of functions on a
  state \<open>'os\<close> of their own, together with the constants of their headers.  Logging and the
  signal masks around the waiting calls are left out: they change no state of the program.
\<close>

section \<open>The environment\<close>

text \<open>The system calls that the sources name; their numbers come from \<^verbatim>\<open>ve_syscall_no.h\<close>.\<close>

datatype ve_syscall =
    NR_ve_rt_sigaction | NR_ve_rt_sigreturn | NR_ve_fork | NR_ve_vfork | NR_ve_execve
  | NR_ve_exit | NR_ve_wait4 | NR_ve_rt_sigpending | NR_ve_rt_sigtimedwait
  | NR_ve_rt_sigsuspend | NR_ve_sigaltstack | NR_ve_exit_group | NR_ve_signalfd
  | NR_ve_signalfd4 | NR_ve_clone

text \<open>
  A VE OS handle is a number.  \<open>vedl_wait_exception\<close> gives the return code, errno and the EXS
  value; \<open>ve_recv_data\<close> the return code and the bytes it stored from the start of the
  destination buffer; \<open>ve__do_clone\<close> the return code and the handle with which the child
  thread entered \<^verbatim>\<open>start_child_thread\<close>, if it did; \<open>vh_function\<close> is the effect of calling a
  function of the VH program at an address; \<open>new_pointer\<close> is operator new, giving the address
  and what the storage of the member \<^verbatim>\<open>ve_sp\<close> happens to hold; \<open>sem_init\<close> gives the return code
  and errno.
\<close>

record 'os veos =
  nr :: "ve_syscall \<Rightarrow> int"
  EXS_MONC :: u64
  EXS_MONT :: u64
  EXS_RDBG :: u64
  UNCORRECTABLE_ERROR :: u64
  CORRECTABLE_ERROR :: u64
  vedl_wait_exception :: "nat \<Rightarrow> 'os \<Rightarrow> (int \<times> int \<times> u64) \<times> 'os"
  vedl_get_syscall_num :: "nat \<Rightarrow> 'os \<Rightarrow> int"
  vedl_get_syscall_args :: "nat \<Rightarrow> 'os \<Rightarrow> nat \<Rightarrow> u64"
  ve_syscall_handler :: "nat \<Rightarrow> int \<Rightarrow> 'os \<Rightarrow> 'os"
  block_syscall_req_ve_os :: "nat \<Rightarrow> 'os \<Rightarrow> 'os"
  un_block_and_retval_req :: "nat \<Rightarrow> int \<Rightarrow> u64 \<Rightarrow> 'os \<Rightarrow> 'os"
  ve_set_user_reg :: "nat \<Rightarrow> nat \<Rightarrow> u64 \<Rightarrow> 'os \<Rightarrow> 'os"
  ve_send_data :: "nat \<Rightarrow> u64 \<Rightarrow> bytes \<Rightarrow> 'os \<Rightarrow> int \<times> 'os"
  ve_recv_data :: "nat \<Rightarrow> u64 \<Rightarrow> nat \<Rightarrow> 'os \<Rightarrow> (int \<times> bytes) \<times> 'os"
  process_thread_cleanup :: "nat \<Rightarrow> int \<Rightarrow> 'os \<Rightarrow> 'os"
  ve__do_clone :: "int \<Rightarrow> nat \<Rightarrow> 'os \<Rightarrow> (int \<times> nat option) \<times> 'os"
  sem_init :: "'os \<Rightarrow> (int \<times> int) \<times> 'os"
  vh_function :: "u64 \<Rightarrow> u64 \<Rightarrow> memory \<times> 'os \<Rightarrow> u64 \<times> memory \<times> 'os"
  new_pointer :: "'os \<Rightarrow> (u64 \<times> u64) \<times> 'os"
  errno :: "'os \<Rightarrow> int"

text \<open>Scalar registers: \<open>SR00 + i\<close> is register \<open>i\<close>.\<close>

definition SR00 :: nat where "SR00 = 0"
definition SR11 :: nat where "SR11 = 11"
definition SR12 :: nat where "SR12 = 12"

section \<open>The state\<close>

text \<open>
  The function objects of the commands: which lambda (or bound member function) it is and
  what it captured.  Arguments are captured by reference, hence an index of the heap of
  \<^verbatim>\<open>CallArgs\<close> objects; data pointers are addresses of the VH process.
\<close>

datatype closure =
    CallFunction u64 nat
  | CallVH u64 u64
  | ReadMem u64 u64 u64
  | WriteMem u64 u64 u64
  | OpenContext u64 nat
  | CloseContext u64
  | ExitProc u64 nat
  | DummyReply

text \<open>\<^verbatim>\<open>class ThreadContext\<close>; \<^verbatim>\<open>pseudo_thread\<close> (written to the log only) and \<^verbatim>\<open>proc\<close> are left out.\<close>

record ctx =
  os_handle :: nat
  comq :: "closure comm_queue"
  ctx_state :: veo_context_state
  is_main_thread :: bool
  seq_no :: u64
  ve_sp :: u64
  rem_reqid :: "u64 set"

text \<open>The constructor; \<open>sp\<close> is what the uninitialised member \<^verbatim>\<open>ve_sp\<close> happens to hold.\<close>

definition new_ThreadContext :: "nat \<Rightarrow> bool \<Rightarrow> u64 \<Rightarrow> ctx" where
  "new_ThreadContext osh is_main sp =
     \<lparr>os_handle = osh, comq = new_CommQueue, ctx_state = VEO_STATE_UNKNOWN,
      is_main_thread = is_main, seq_no = 0, ve_sp = sp, rem_reqid = {}\<rparr>"

definition getState :: "ctx \<Rightarrow> veo_context_state" where
  [simp]: "getState c = ctx_state c"

definition isMainThread :: "ctx \<Rightarrow> bool" where
  [simp]: "isMainThread c = is_main_thread c"

text \<open>
  What the operations of one context act on: the context itself, the memory of the VH
  process, the \<^verbatim>\<open>CallArgs\<close> objects and the other contexts by address, and the environment.
\<close>

record 'os tstate =
  tc :: ctx
  vh_mem :: memory
  args_heap :: "nat \<Rightarrow> call_args option"
  ctx_heap :: "u64 \<Rightarrow> ctx option"
  os :: 'os

definition set_state :: "veo_context_state \<Rightarrow> ('os tstate, unit) prog" where
  "set_state st = modifyP (\<lambda>s. s\<lparr>tc := (tc s)\<lparr>ctx_state := st\<rparr>\<rparr>)"

definition os_do :: "(nat \<Rightarrow> 'os \<Rightarrow> 'os) \<Rightarrow> ('os tstate, unit) prog" where
  "os_do f = modifyP (\<lambda>s. s\<lparr>os := f (os_handle (tc s)) (os s)\<rparr>)"

definition os_call :: "(nat \<Rightarrow> 'os \<Rightarrow> 'a \<times> 'os) \<Rightarrow> ('os tstate, 'a) prog" where
  "os_call f = liftP (\<lambda>s. (fst (f (os_handle (tc s)) (os s)),
                           s\<lparr>os := snd (f (os_handle (tc s)) (os s))\<rparr>))"

section \<open>System call filters\<close>

text \<open>\<^verbatim>\<open>enum ExceptionHandlerStatus\<close>\<close>

definition VEO_HANDLER_STATUS_EXCEPTION :: int where "VEO_HANDLER_STATUS_EXCEPTION = - 1"
definition VEO_HANDLER_STATUS_TERMINATED :: int where "VEO_HANDLER_STATUS_TERMINATED = 0"
definition VEO_HANDLER_STATUS_BLOCK_REQUESTED :: int where
  "VEO_HANDLER_STATUS_BLOCK_REQUESTED = 1"

lemmas handler_status_defs =
  VEO_HANDLER_STATUS_EXCEPTION_def VEO_HANDLER_STATUS_TERMINATED_def
  VEO_HANDLER_STATUS_BLOCK_REQUESTED_def

definition default_filtered_syscalls :: "ve_syscall list" where
  "default_filtered_syscalls =
     [NR_ve_rt_sigaction, NR_ve_rt_sigreturn, NR_ve_fork, NR_ve_vfork, NR_ve_execve,
      NR_ve_exit, NR_ve_wait4, NR_ve_rt_sigpending, NR_ve_rt_sigtimedwait,
      NR_ve_rt_sigsuspend, NR_ve_sigaltstack, NR_ve_exit_group, NR_ve_signalfd,
      NR_ve_signalfd4]"

definition is_veo_block :: "'os veos \<Rightarrow> nat \<Rightarrow> int \<Rightarrow> 'os \<Rightarrow> bool" where
  "is_veo_block E h sysnum w =
     (if sysnum \<noteq> NR_ve_sysve then False
      else vedl_get_syscall_args E h w 0 = VE_SYSVE_VEO_BLOCK)"

text \<open>A filter gives whether the call is filtered and the break flag.\<close>

type_synonym 'os sysfilter = "int \<Rightarrow> ('os tstate, bool \<times> int) prog"

definition defaultFilter :: "'os veos \<Rightarrow> 'os sysfilter" where
  "defaultFilter E sysnum s =
     (if sysnum \<in> set (map (nr E) default_filtered_syscalls)
      then bindP (os_do (\<lambda>h. un_block_and_retval_req E h sysnum (word_of_int (- ENOSYS))))
             (\<lambda>_. returnP (True, 0)) s
      else if is_veo_block E (os_handle (tc s)) sysnum (os s)
      then bindP (os_do (block_syscall_req_ve_os E))
             (\<lambda>_. bindP (set_state VEO_STATE_BLOCKED)
             (\<lambda>_. returnP (True, VEO_HANDLER_STATUS_BLOCK_REQUESTED))) s
      else returnP (False, 0) s)"

definition hookCloneFilter :: "'os veos \<Rightarrow> 'os sysfilter" where
  "hookCloneFilter E sysnum =
     (if sysnum = nr E NR_ve_clone then returnP (True, nr E NR_ve_clone)
      else defaultFilter E sysnum)"

definition exitFilter :: "'os veos \<Rightarrow> 'os sysfilter" where
  "exitFilter E sysnum =
     (if sysnum = nr E NR_ve_exit_group then returnP (True, nr E NR_ve_exit_group)
      else defaultFilter E sysnum)"

section \<open>Exception handling\<close>

definition VEO_EXCEPTION_MASK :: u64 where "VEO_EXCEPTION_MASK = NOT 0xff"

text \<open>The loop at the head of \<^verbatim>\<open>handleSingleException\<close>: it ends with an EXS value that shows an exception.\<close>

partial_function (option) wait_exception ::
  "'os veos \<Rightarrow> nat \<Rightarrow> 'os \<Rightarrow> (u64 result \<times> 'os) option" where
  "wait_exception E h w =
     (case vedl_wait_exception E h w of ((ret, err, exs), w') \<Rightarrow>
        if ret \<noteq> 0
        then (if ret = - 1 \<and> err = EINTR then wait_exception E h w'
              else Some (Inl (VEOException ''vedl_wait_exception failed'' err), w'))
        else if exs AND VEO_EXCEPTION_MASK = 0 then wait_exception E h w'
        else Some (Inr exs, w'))"

definition wait_exceptionP :: "'os veos \<Rightarrow> ('os tstate, u64) prog" where
  "wait_exceptionP E s =
     (case wait_exception E (os_handle (tc s)) (os s) of
        None \<Rightarrow> None
      | Some (r, w) \<Rightarrow> Some (r, s\<lparr>os := w\<rparr>))"

text \<open>The handling of a system call: the filter, and the call itself if it is not filtered.\<close>

definition handle_syscall :: "'os veos \<Rightarrow> 'os sysfilter option \<Rightarrow> ('os tstate, int) prog" where
  "handle_syscall E filt =
     bindP (getP (\<lambda>s. vedl_get_syscall_num E (os_handle (tc s)) (os s)))
       (\<lambda>sysnum. bindP (case filt of None \<Rightarrow> returnP (False, 0) | Some f \<Rightarrow> f sysnum)
       (\<lambda>(filtered, break_flag).
          if filtered then returnP break_flag
          else bindP (set_state VEO_STATE_SYSCALL)
                 (\<lambda>_. bindP (os_do (\<lambda>h. ve_syscall_handler E h sysnum))
                 (\<lambda>_. bindP (set_state VEO_STATE_RUNNING)
                 (\<lambda>_. returnP break_flag)))))"

definition is_error_exs :: "'os veos \<Rightarrow> u64 \<Rightarrow> bool" where
  "is_error_exs E exs \<longleftrightarrow>
     exs AND EXS_MONT E \<noteq> 0 \<or> exs AND UNCORRECTABLE_ERROR E \<noteq> 0
     \<or> (exs AND CORRECTABLE_ERROR E \<noteq> 0 \<and> \<not> (exs AND (EXS_MONC E OR EXS_RDBG E) \<noteq> 0))"

definition handleSingleException ::
  "'os veos \<Rightarrow> 'os sysfilter option \<Rightarrow> ('os tstate, int \<times> u64) prog" where
  "handleSingleException E filt =
     bindP (wait_exceptionP E)
       (\<lambda>exs. bindP (if exs AND EXS_MONC E \<noteq> 0 then handle_syscall E filt else returnP 0)
       (\<lambda>break_flag.
          if is_error_exs E exs
          then bindP (os_do (block_syscall_req_ve_os E))
                 (\<lambda>_. returnP (VEO_HANDLER_STATUS_EXCEPTION, exs))
          else if break_flag \<noteq> 0 then returnP (break_flag, exs)
          else returnP (0, exs)))"

text \<open>
  \<^verbatim>\<open>exceptionHandler(exc, filter)\<close>: the status and the value of the output parameter \<^verbatim>\<open>exc\<close>, which
  keeps its old value when the loop body does not run.
\<close>

partial_function (option) exceptionHandler ::
  "'os veos \<Rightarrow> 'os sysfilter \<Rightarrow> u64 \<Rightarrow> 'os tstate \<Rightarrow> ((int \<times> u64) result \<times> 'os tstate) option" where
  "exceptionHandler E filt exc s =
     (if ctx_state (tc s) = VEO_STATE_RUNNING
      then Option.bind (handleSingleException E (Some filt) s)
             (\<lambda>(r, s').
                case r of
                  Inl e \<Rightarrow> Some (Inl e, s')
                | Inr (rv, exc') \<Rightarrow>
                    if rv \<noteq> 0 then Some (Inr (rv, exc'), s')
                    else exceptionHandler E filt exc' s')
      else Some (Inr (VEO_HANDLER_STATUS_TERMINATED, exc), s))"

definition defaultExceptionHandler :: "'os veos \<Rightarrow> u64 \<Rightarrow> ('os tstate, int \<times> u64) prog" where
  "defaultExceptionHandler E exc = exceptionHandler E (defaultFilter E) exc"

definition is_clone_request :: "'os veos \<Rightarrow> int \<Rightarrow> bool" where
  "is_clone_request E rv_handler \<longleftrightarrow> rv_handler = nr E NR_ve_clone"

definition is_exit_request :: "'os veos \<Rightarrow> int \<Rightarrow> bool" where
  "is_exit_request E rv_handler \<longleftrightarrow> rv_handler = nr E NR_ve_exit_group"

section \<open>Calling a VE function\<close>

definition unBlock :: "'os veos \<Rightarrow> u64 \<Rightarrow> ('os tstate, unit) prog" where
  "unBlock E sr0 =
     bindP (os_do (\<lambda>h. un_block_and_retval_req E h NR_ve_sysve sr0))
       (\<lambda>_. set_state VEO_STATE_RUNNING)"

text \<open>\<^verbatim>\<open>args.setup(this->ve_sp)\<close>: both the argument object and the stack pointer change.\<close>

definition setup_call :: "nat \<Rightarrow> ('os tstate, call_args) prog" where
  "setup_call ref s =
     (case args_heap s ref of
        None \<Rightarrow> throwP UndefinedBehaviour s
      | Some ca \<Rightarrow>
          (case setup_args (vh_mem s) ca (ve_sp (tc s)) of
             Inl e \<Rightarrow> throwP e s
           | Inr (ca', sp') \<Rightarrow>
               returnP ca' (s\<lparr>args_heap := (args_heap s)(ref \<mapsto> ca'),
                              tc := (tc s)\<lparr>ve_sp := sp'\<rparr>\<rparr>)))"

fun set_registers :: "'os veos \<Rightarrow> nat \<Rightarrow> u64 list \<Rightarrow> ('os tstate, unit) prog" where
  "set_registers E i [] = returnP ()"
| "set_registers E i (v # vs) =
     bindP (os_do (\<lambda>h. ve_set_user_reg E h (SR00 + i) v)) (\<lambda>_. set_registers E (Suc i) vs)"

definition doCall :: "'os veos \<Rightarrow> u64 \<Rightarrow> nat \<Rightarrow> ('os tstate, unit) prog" where
  "doCall E addr ref =
     bindP (os_do (\<lambda>h. ve_set_user_reg E h SR12 addr))
       (\<lambda>_. bindP (setup_call ref)
       (\<lambda>ca. bindP (resultP (CallArgs.getRegVal ca))
       (\<lambda>regs. bindP (assertP (length regs \<le> NUM_ARGS_ON_REGISTER))
       (\<lambda>_. bindP (set_registers E 0 regs)
       (\<lambda>_. bindP (os_do (\<lambda>h. copyin (ve_send_data E h) ca))
       (\<lambda>_. bindP (getP (\<lambda>s. ve_sp (tc s)))
       (\<lambda>sp. bindP (os_do (\<lambda>h. ve_set_user_reg E h SR11 sp))
       (\<lambda>_. unBlock E (if length regs > 0 then regs ! 0 else 0)))))))))"

definition collectReturnValue :: "'os veos \<Rightarrow> ('os tstate, u64) prog" where
  "collectReturnValue E =
     bindP (getP (\<lambda>s. vedl_get_syscall_args E (os_handle (tc s)) (os s)))
       (\<lambda>args. bindP (assertP (args 0 = VE_SYSVE_VEO_BLOCK))
       (\<lambda>_. bindP (modifyP (\<lambda>s. s\<lparr>tc := (tc s)\<lparr>ve_sp := args 5\<rparr>\<rparr>))
       (\<lambda>_. returnP (args 1))))"

text \<open>\<^verbatim>\<open>args.copyout(readmem)\<close>\<close>

definition copyout_call :: "'os veos \<Rightarrow> nat \<Rightarrow> ('os tstate, unit) prog" where
  "copyout_call E ref s =
     (case args_heap s ref of
        None \<Rightarrow> throwP UndefinedBehaviour s
      | Some ca \<Rightarrow>
          (case copyout (ve_recv_data E (os_handle (tc s))) ca (vh_mem s) (os s) of
             (Inl e, w) \<Rightarrow> throwP e (s\<lparr>os := w\<rparr>)
           | (Inr (ca', vh'), w) \<Rightarrow>
               returnP () (s\<lparr>args_heap := (args_heap s)(ref \<mapsto> ca'), vh_mem := vh', os := w\<rparr>)))"

definition executeVE :: "'os veos \<Rightarrow> ('os tstate, bool \<times> int \<times> u64) prog" where
  "executeVE E =
     bindP (defaultExceptionHandler E 0)
       (\<lambda>(status, exs). returnP (VEO_HANDLER_STATUS_BLOCK_REQUESTED = status, status, exs))"

section \<open>Memory transfer\<close>

definition readMem :: "'os veos \<Rightarrow> u64 \<Rightarrow> u64 \<Rightarrow> u64 \<Rightarrow> ('os tstate, int) prog" where
  "readMem E dst src sz =
     bindP (os_call (\<lambda>h. ve_recv_data E h src (unat sz)))
       (\<lambda>(rv, bs). bindP (modifyP (\<lambda>s. s\<lparr>vh_mem := mem_write (vh_mem s) dst bs\<rparr>))
       (\<lambda>_. returnP rv))"

definition writeMem :: "'os veos \<Rightarrow> u64 \<Rightarrow> u64 \<Rightarrow> u64 \<Rightarrow> ('os tstate, int) prog" where
  "writeMem E dst src sz =
     bindP (getP (\<lambda>s. mem_read (vh_mem s) src (unat sz)))
       (\<lambda>bs. os_call (\<lambda>h. ve_send_data E h dst bs))"

section \<open>Creating a context on the VE\<close>

text \<open>What \<^verbatim>\<open>startEventLoop\<close> does on the child thread before it posts the semaphore.\<close>

definition thread_started :: "nat \<Rightarrow> ctx \<Rightarrow> ctx" where
  "thread_started newhdl c = c\<lparr>os_handle := newhdl, ctx_state := VEO_STATE_RUNNING\<rparr>"

text \<open>
  \<^verbatim>\<open>handleCloneRequest()\<close> of the new context \<open>c\<close>.  The parent waits for the semaphore, for ever
  if the child never enters its start function.
\<close>

definition handleCloneRequest ::
  "'os veos \<Rightarrow> ctx \<Rightarrow> 'os \<Rightarrow> ((int \<times> ctx) result \<times> 'os) option" where
  "handleCloneRequest E c w =
     (case sem_init E w of ((rc, err), w1) \<Rightarrow>
        if rc \<noteq> 0 then Some (Inl (VEOException ''sem_init failed.'' err), w1)
        else case ve__do_clone E (nr E NR_ve_clone) (os_handle c) w1 of ((rv, child), w2) \<Rightarrow>
          if rv < 0 then Some (Inr (rv, c), w2)
          else case child of
                 None \<Rightarrow> None
               | Some h \<Rightarrow> Some (Inr (rv, thread_started h c), w2))"

definition handleCloneRequestP :: "'os veos \<Rightarrow> ctx \<Rightarrow> ('os tstate, int \<times> ctx) prog" where
  "handleCloneRequestP E c s =
     (case handleCloneRequest E c (os s) of
        None \<Rightarrow> None
      | Some (r, w) \<Rightarrow> Some (r, s\<lparr>os := w\<rparr>))"

section \<open>The handlers of the commands\<close>

type_synonym cmd = "closure command"

text \<open>
  Each handler gives its return code and the command with the result it set.  The lambda of
  \<^verbatim>\<open>callAsync\<close>:
\<close>

definition run_call :: "'os veos \<Rightarrow> u64 \<Rightarrow> nat \<Rightarrow> cmd \<Rightarrow> ('os tstate, int \<times> cmd) prog" where
  "run_call E addr ref cmd =
     bindP (doCall E addr ref)
       (\<lambda>_. bindP (executeVE E)
       (\<lambda>(successful, status, exs).
          if \<not> successful
          then (if status = VEO_HANDLER_STATUS_EXCEPTION
                then returnP (1, setResult cmd exs VEO_COMMAND_EXCEPTION)
                else returnP (1, setResult cmd (word_of_int status) VEO_COMMAND_ERROR))
          else bindP (collectReturnValue E)
                 (\<lambda>rv. bindP (copyout_call E ref)
                 (\<lambda>_. returnP (0, setResult cmd rv VEO_COMMAND_OK)))))"

text \<open>The lambda of \<^verbatim>\<open>callVHAsync\<close>.\<close>

definition run_vh :: "'os veos \<Rightarrow> u64 \<Rightarrow> u64 \<Rightarrow> cmd \<Rightarrow> ('os tstate, int \<times> cmd) prog" where
  "run_vh E func arg cmd s =
     (case vh_function E func arg (vh_mem s, os s) of (rv, vh', w) \<Rightarrow>
        returnP (0, setResult cmd rv VEO_COMMAND_OK) (s\<lparr>vh_mem := vh', os := w\<rparr>))"

text \<open>The lambdas of \<^verbatim>\<open>asyncReadMem\<close> and \<^verbatim>\<open>asyncWriteMem\<close>.\<close>

definition run_transfer :: "('os tstate, int) prog \<Rightarrow> cmd \<Rightarrow> ('os tstate, int \<times> cmd) prog" where
  "run_transfer transfer cmd =
     bindP transfer
       (\<lambda>rv. returnP (rv, setResult cmd (word_of_int rv)
                            (if rv = 0 then VEO_COMMAND_OK else VEO_COMMAND_ERROR)))"

text \<open>
  The lambda of \<^verbatim>\<open>_callOpenContext\<close>.  After an unexpected status it records the exception but
  goes on to create the context all the same.
\<close>

definition run_open :: "'os veos \<Rightarrow> u64 \<Rightarrow> nat \<Rightarrow> cmd \<Rightarrow> ('os tstate, int \<times> cmd) prog" where
  "run_open E addr ref cmd =
     bindP (doCall E addr ref)
       (\<lambda>_. bindP (exceptionHandler E (hookCloneFilter E) 0)
       (\<lambda>(req, exc).
          let cmd1 = (if \<not> is_clone_request E req
                      then setResult cmd exc VEO_COMMAND_EXCEPTION else cmd)
          in bindP (os_call (\<lambda>h. new_pointer E))
               (\<lambda>(ptr, raw_sp). bindP (getP (\<lambda>s. new_ThreadContext (os_handle (tc s)) False raw_sp))
               (\<lambda>newctx. bindP (handleCloneRequestP E newctx)
               (\<lambda>(tid, newctx'). bindP (unBlock E (word_of_int tid))
               (\<lambda>_. bindP (defaultExceptionHandler E exc)
               (\<lambda>(status, exc').
                  if status \<noteq> VEO_HANDLER_STATUS_BLOCK_REQUESTED
                  then bindP (getP (\<lambda>s. errno E (os s)))
                         (\<lambda>err. throwP (VEOException ''Unexpected exception occured'' err))
                  else if tid < 0
                  then returnP (0, setResult cmd1 (word_of_int tid) VEO_COMMAND_OK)
                  else bindP (modifyP (\<lambda>s. s\<lparr>ctx_heap := (ctx_heap s)(ptr \<mapsto> newctx')\<rparr>))
                         (\<lambda>_. returnP (0, setResult cmd1 ptr VEO_COMMAND_OK)))))))))"

text \<open>\<^verbatim>\<open>_closeCommandHandler(id)\<close>: it posts the reply itself and ends the thread.\<close>

definition run_close :: "'os veos \<Rightarrow> u64 \<Rightarrow> ('os tstate, int \<times> cmd) prog" where
  "run_close E i =
     bindP (os_do (\<lambda>h. process_thread_cleanup E h (- 1)))
       (\<lambda>_. bindP (set_state VEO_STATE_EXIT)
       (\<lambda>_. bindP (modifyP (\<lambda>s. s\<lparr>tc := (tc s)\<lparr>comq :=
               pushCompletion (comq (tc s)) (setResult (new_Command i DummyReply) 0 0)\<rparr>\<rparr>))
       (\<lambda>_. throwP ThreadExit)))"

text \<open>
  The lambda of \<^verbatim>\<open>ProcHandle::exitProc\<close>.  \<^verbatim>\<open>successful\<close> is the handler status, tested as a
  boolean; in the branch for zero the uninitialised variable \<^verbatim>\<open>status\<close> is read.
\<close>

definition run_exit :: "'os veos \<Rightarrow> u64 \<Rightarrow> nat \<Rightarrow> cmd \<Rightarrow> ('os tstate, int \<times> cmd) prog" where
  "run_exit E addr ref cmd =
     bindP (doCall E addr ref)
       (\<lambda>_. bindP (exceptionHandler E (exitFilter E) 0)
       (\<lambda>(successful, exs).
          if successful = 0 then throwP UndefinedBehaviour
          else bindP (copyout_call E ref)
                 (\<lambda>_. returnP (0, setResult cmd 0 VEO_COMMAND_OK))))"

text \<open>\<^verbatim>\<open>CommandImpl::operator()\<close>\<close>

fun run_command :: "'os veos \<Rightarrow> closure \<Rightarrow> cmd \<Rightarrow> ('os tstate, int \<times> cmd) prog" where
  "run_command E (CallFunction addr ref) cmd = run_call E addr ref cmd"
| "run_command E (CallVH func arg) cmd = run_vh E func arg cmd"
| "run_command E (ReadMem dst src sz) cmd = run_transfer (readMem E dst src sz) cmd"
| "run_command E (WriteMem dst src sz) cmd = run_transfer (writeMem E dst src sz) cmd"
| "run_command E (OpenContext addr ref) cmd = run_open E addr ref cmd"
| "run_command E (CloseContext i) cmd = run_close E i"
| "run_command E (ExitProc addr ref) cmd = run_exit E addr ref cmd"
| "run_command E DummyReply cmd = returnP (0, cmd)"

end
