(* ===== verification/Example_Machine.thy ===== *)
theory Example_Machine
  imports ThreadContext
begin

text \<open>
  A small concrete environment, used to evaluate the model on concrete inputs: a VE process
  with registers and memory whose hardware events are a script.  When the script is used up,
  waiting for an exception fails.
\<close>

record machine =
  m_reg :: "nat \<Rightarrow> u64"
  m_mem :: memory
  m_events :: "(int \<times> int \<times> u64) list"
  m_sysnum :: int
  m_sysargs :: "nat \<Rightarrow> u64"
  m_clone :: int

fun linux_nr :: "ve_syscall \<Rightarrow> int" where
  "linux_nr NR_ve_rt_sigaction = 13"
| "linux_nr NR_ve_rt_sigreturn = 15"
| "linux_nr NR_ve_clone = 56"
| "linux_nr NR_ve_fork = 57"
| "linux_nr NR_ve_vfork = 58"
| "linux_nr NR_ve_execve = 59"
| "linux_nr NR_ve_exit = 60"
| "linux_nr NR_ve_wait4 = 61"
| "linux_nr NR_ve_rt_sigpending = 127"
| "linux_nr NR_ve_rt_sigtimedwait = 128"
| "linux_nr NR_ve_rt_sigsuspend = 130"
| "linux_nr NR_ve_sigaltstack = 131"
| "linux_nr NR_ve_exit_group = 231"
| "linux_nr NR_ve_signalfd = 282"
| "linux_nr NR_ve_signalfd4 = 289"

definition machine_veos :: "machine veos" where
  "machine_veos =
     \<lparr>nr = linux_nr, EXS_MONC = 0x1000, EXS_MONT = 0x2000, EXS_RDBG = 0x4000,
      UNCORRECTABLE_ERROR = 0x8000, CORRECTABLE_ERROR = 0x10000,
      vedl_wait_exception = (\<lambda>h w. case m_events w of
          [] \<Rightarrow> ((- 1, 5, 0), w) | e # es \<Rightarrow> (e, w\<lparr>m_events := es\<rparr>)),
      vedl_get_syscall_num = (\<lambda>h w. m_sysnum w),
      vedl_get_syscall_args = (\<lambda>h w. m_sysargs w),
      ve_syscall_handler = (\<lambda>h n w. w),
      block_syscall_req_ve_os = (\<lambda>h w. w),
      un_block_and_retval_req = (\<lambda>h n v w. w),
      ve_set_user_reg = (\<lambda>h r v w. w\<lparr>m_reg := (m_reg w)(r := v)\<rparr>),
      ve_send_data = (\<lambda>h a bs w. (0, w\<lparr>m_mem := mem_write (m_mem w) a bs\<rparr>)),
      ve_recv_data = (\<lambda>h a n w. if a = 0 then ((- 1, []), w) else ((0, mem_read (m_mem w) a n), w)),
      process_thread_cleanup = (\<lambda>h c w. w),
      ve__do_clone = (\<lambda>n h w. ((m_clone w, Some 7), w)),
      sem_init = (\<lambda>w. ((0, 0), w)),
      vh_function = (\<lambda>f a (vh, w). (f + a, vh, w)),
      new_pointer = (\<lambda>w. ((0x5000, 0), w)),
      errno = (\<lambda>w. 0)\<rparr>"

lemma machine_veos_sel [simp]:
  "nr machine_veos = linux_nr"
  "EXS_MONC machine_veos = 0x1000"
  "EXS_MONT machine_veos = 0x2000"
  "EXS_RDBG machine_veos = 0x4000"
  "UNCORRECTABLE_ERROR machine_veos = 0x8000"
  "CORRECTABLE_ERROR machine_veos = 0x10000"
  "vedl_wait_exception machine_veos h w =
     (case m_events w of [] \<Rightarrow> ((- 1, 5, 0), w) | e # es \<Rightarrow> (e, w\<lparr>m_events := es\<rparr>))"
  "vedl_get_syscall_num machine_veos h w = m_sysnum w"
  "vedl_get_syscall_args machine_veos h w = m_sysargs w"
  "ve_syscall_handler machine_veos h n w = w"
  "block_syscall_req_ve_os machine_veos h w = w"
  "un_block_and_retval_req machine_veos h n v w = w"
  "ve_set_user_reg machine_veos h r v w = w\<lparr>m_reg := (m_reg w)(r := v)\<rparr>"
  "ve_send_data machine_veos h a bs w = (0, w\<lparr>m_mem := mem_write (m_mem w) a bs\<rparr>)"
  "ve_recv_data machine_veos h a len w =
     (if a = 0 then ((- 1, []), w) else ((0, mem_read (m_mem w) a len), w))"
  "process_thread_cleanup machine_veos h c w = w"
  "ve__do_clone machine_veos k h w = ((m_clone w, Some 7), w)"
  "sem_init machine_veos w = ((0, 0), w)"
  "vh_function machine_veos f a (vh, w) = (f + a, vh, w)"
  "new_pointer machine_veos w = ((0x5000, 0), w)"
  "errno machine_veos w = 0"
  by (simp_all add: machine_veos_def)

text \<open>The same machine with system call numbers that depend on its state.\<close>

definition scripted :: "(nat \<Rightarrow> machine \<Rightarrow> int) \<Rightarrow> machine veos" where
  "scripted g = machine_veos\<lparr>vedl_get_syscall_num := g\<rparr>"

lemma scripted_sel [simp]:
  "nr (scripted g) = linux_nr"
  "EXS_MONC (scripted g) = 0x1000"
  "EXS_MONT (scripted g) = 0x2000"
  "EXS_RDBG (scripted g) = 0x4000"
  "UNCORRECTABLE_ERROR (scripted g) = 0x8000"
  "CORRECTABLE_ERROR (scripted g) = 0x10000"
  "vedl_wait_exception (scripted g) = vedl_wait_exception machine_veos"
  "vedl_get_syscall_num (scripted g) = g"
  "vedl_get_syscall_args (scripted g) = vedl_get_syscall_args machine_veos"
  "block_syscall_req_ve_os (scripted g) = block_syscall_req_ve_os machine_veos"
  "un_block_and_retval_req (scripted g) = un_block_and_retval_req machine_veos"
  "ve_set_user_reg (scripted g) = ve_set_user_reg machine_veos"
  "ve_send_data (scripted g) = ve_send_data machine_veos"
  "ve_recv_data (scripted g) = ve_recv_data machine_veos"
  "process_thread_cleanup (scripted g) = process_thread_cleanup machine_veos"
  "ve__do_clone (scripted g) = ve__do_clone machine_veos"
  "sem_init (scripted g) = sem_init machine_veos"
  "new_pointer (scripted g) = new_pointer machine_veos"
  "errno (scripted g) = errno machine_veos"
  by (simp_all add: scripted_def)

lemma scripted_machine: "scripted (\<lambda>h w. m_sysnum w) = machine_veos"
  by (simp add: scripted_def machine_veos_def)

text \<open>A context waiting for requests, on a machine that will stop at a block request.\<close>

definition block_args :: "nat \<Rightarrow> u64" where
  "block_args i = (if i = 0 then VE_SYSVE_VEO_BLOCK else if i = 1 then 42 else if i = 5 then 0x10000 else 0)"

definition blocking_machine :: machine where
  "blocking_machine =
     \<lparr>m_reg = (\<lambda>_. 0), m_mem = (\<lambda>_. 0),
      m_events = [(- 1, 4, 0), (0, 0, 0), (0, 0, 0x1000)],
      m_sysnum = 316, m_sysargs = block_args, m_clone = 1234\<rparr>"

definition idle_ctx :: ctx where
  "idle_ctx = (new_ThreadContext 3 False 0x10000)\<lparr>ctx_state := VEO_STATE_BLOCKED\<rparr>"

definition raw_args :: call_args where
  "raw_args = \<lparr>arguments = [], stack_top = 0, stack_size = 0, stack_buf = None,
     copied_in = False, copied_out = False\<rparr>"

definition idle_state :: "call_args \<Rightarrow> machine tstate" where
  "idle_state ca =
     \<lparr>tc = idle_ctx, vh_mem = (\<lambda>_. 0), args_heap = [0 \<mapsto> ca], ctx_heap = Map.empty,
      os = blocking_machine\<rparr>"

end
