(* ===== verification/CallArgs_Layout.thy ===== *)
theory CallArgs_Layout
  imports CallArgs
begin

text \<open>
  Correctness of the stack image that \<^verbatim>\<open>CallArgs::setup\<close> builds.  The layout is first studied
  for any routine that writes one argument (locale \<open>image_writer\<close>); the model's own
  \<open>setStackImage\<close> is then shown to be such a routine, and the properties of \<open>setup_args\<close>,
  \<open>getRegVal\<close>, \<open>copyin\<close> and \<open>copyout\<close> follow.
\<close>

section \<open>Writing an image argument by argument\<close>

primrec write_all :: "('a \<Rightarrow> nat \<Rightarrow> bytes \<Rightarrow> bytes) \<Rightarrow> 'a list \<Rightarrow> nat \<Rightarrow> bytes \<Rightarrow> bytes" where
  "write_all w [] n st = st"
| "write_all w (a # as) n st = write_all w as (Suc n) (w a n st)"

lemma write_all_append:
  "write_all w (as @ bs) n st = write_all w bs (n + length as) (write_all w as n st)"
  by (induction as arbitrary: n st) simp_all

text \<open>
  The contract of one write: the image grows by the size of the argument's data, and of the
  old bytes only the argument's own slot may change.
\<close>

locale image_writer =
  fixes put :: "'a \<Rightarrow> nat \<Rightarrow> bytes \<Rightarrow> bytes"
    and size_of :: "'a \<Rightarrow> nat"
    and slot :: "nat \<Rightarrow> nat"
  assumes slot_Suc: "slot (Suc n) = slot n + 8"
    and write_length:
      "slot n + 8 \<le> length st \<Longrightarrow> length (put a n st) = length st + size_of a"
    and write_frame:
      "slot n + 8 \<le> length st \<Longrightarrow> off + k \<le> length st
         \<Longrightarrow> off + k \<le> slot n \<or> slot n + 8 \<le> off
         \<Longrightarrow> slice off k (put a n st) = slice off k st"
begin

lemma slot_add: "slot (n + k) = slot n + 8 * k"
  by (induction k) (simp_all add: slot_Suc)

lemma write_all_length:
  "slot n + 8 * length as \<le> length st
     \<Longrightarrow> length (write_all put as n st) = length st + sum_list (map size_of as)"
proof (induction as arbitrary: n st)
  case Nil
  then show ?case by simp
next
  case (Cons a as)
  have len: "length (put a n st) = length st + size_of a"
    using Cons.prems by (intro write_length) simp
  then have "slot (Suc n) + 8 * length as \<le> length (put a n st)"
    using Cons.prems by (simp add: slot_Suc)
  from Cons.IH [OF this] len show ?case by simp
qed

lemma write_all_frame:
  "slot n + 8 * length as \<le> length st \<Longrightarrow> off + k \<le> length st
     \<Longrightarrow> off + k \<le> slot n \<or> slot n + 8 * length as \<le> off
     \<Longrightarrow> slice off k (write_all put as n st) = slice off k st"
proof (induction as arbitrary: n st)
  case Nil
  then show ?case by simp
next
  case (Cons a as)
  have len: "length (put a n st) = length st + size_of a"
    using Cons.prems by (intro write_length) simp
  have "slice off k (write_all put as (Suc n) (put a n st)) = slice off k (put a n st)"
    using Cons.prems len by (intro Cons.IH) (auto simp: slot_Suc)
  also have "\<dots> = slice off k st"
    using Cons.prems by (intro write_frame) auto
  finally show ?case by simp
qed

text \<open>
  What the write of argument \<open>i\<close> left in its slot, or in the data it appended, is still there
  in the finished image.
\<close>

lemma write_all_split:
  assumes "slot n + 8 * length as \<le> length st" and "i < length as"
  defines "st1 \<equiv> write_all put (take i as) n st"
  shows "write_all put as n st = write_all put (drop (Suc i) as) (Suc (n + i)) (put (as ! i) (n + i) st1)"
    and "length st1 = length st + sum_list (map size_of (take i as))"
    and "length (put (as ! i) (n + i) st1) = length st1 + size_of (as ! i)"
    and "slot (Suc (n + i)) + 8 * length (drop (Suc i) as) \<le> length (put (as ! i) (n + i) st1)"
proof -
  have "as = take i as @ as ! i # drop (Suc i) as"
    using assms(2) by (rule id_take_nth_drop)
  then have "write_all put as n st
      = write_all put (as ! i # drop (Suc i) as) (n + length (take i as)) (write_all put (take i as) n st)"
    by (metis write_all_append)
  then show "write_all put as n st = write_all put (drop (Suc i) as) (Suc (n + i)) (put (as ! i) (n + i) st1)"
    using assms(2) by (simp add: st1_def)
  show len1: "length st1 = length st + sum_list (map size_of (take i as))"
    unfolding st1_def using assms by (intro write_all_length) auto
  have "slot (n + i) + 8 \<le> length st1"
    using assms(1,2) len1 by (simp add: slot_add)
  then show len2: "length (put (as ! i) (n + i) st1) = length st1 + size_of (as ! i)"
    by (rule write_length)
  show "slot (Suc (n + i)) + 8 * length (drop (Suc i) as) \<le> length (put (as ! i) (n + i) st1)"
    using assms(1,2) len1 len2 by (simp add: slot_Suc slot_add)
qed

lemma write_all_slot:
  assumes "slot n + 8 * length as \<le> length st" and "i < length as"
  shows "slice (slot (n + i)) 8 (write_all put as n st)
     = slice (slot (n + i)) 8 (put (as ! i) (n + i) (write_all put (take i as) n st))"
  unfolding write_all_split(1) [OF assms]
  using write_all_split(4) [OF assms]
  by (intro write_all_frame) (simp_all add: slot_Suc)

lemma write_all_data:
  assumes "slot n + 8 * length as \<le> length st" and "i < length as"
    and "off = length st + sum_list (map size_of (take i as))"
    and "k \<le> size_of (as ! i)"
  shows "slice off k (write_all put as n st)
     = slice off k (put (as ! i) (n + i) (write_all put (take i as) n st))"
proof -
  note split = write_all_split [OF assms(1,2)]
  have "slot (Suc (n + i)) + 8 * length (drop (Suc i) as) \<le> off"
    using assms(1,2,3) by (simp add: slot_Suc slot_add)
  then show ?thesis
    unfolding split(1) using split(2,3,4) assms(3,4)
    by (intro write_all_frame) simp_all
qed

end

section \<open>The model's writer meets the contract\<close>

definition slot_off :: "nat \<Rightarrow> nat" where
  "slot_off n = PARAM_AREA_OFFSET + 8 * n"

text \<open>The bytes an argument's data occupies, without the wrap-around of \<^verbatim>\<open>size_t\<close>.\<close>

fun stack_bytes :: "arg_base \<Rightarrow> nat" where
  "stack_bytes (ArgOnStack b l i out v) =
     unat l + (if unat l mod 8 > 0 then 8 - unat l mod 8 else 0)"
| "stack_bytes _ = 0"

definition write_arg :: "memory \<Rightarrow> u64 \<Rightarrow> arg_base \<Rightarrow> nat \<Rightarrow> bytes \<Rightarrow> bytes" where
  "write_arg vh sp a n st = fst (snd (setStackImage vh a sp st n))"

lemma slot_off_Suc: "slot_off (Suc n) = slot_off n + 8"
  by (simp add: slot_off_def)

text \<open>A value of 1, 2, 4 or 8 bytes fills exactly one 8-byte slot.\<close>

lemma set_value_in_range:
  assumes "off + 8 \<le> length st" and "length im \<in> {1, 2, 4, 8}"
  shows "set_value st off im = str_replace st off 8 (im @ replicate (8 - length im) 0)"
  using assms by (auto simp: set_value_def str_replace_def Let_def add.commute)

lemma length_scalar_image:
  "\<not> is_ArgOnStack a \<Longrightarrow> length (scalar_image a) \<in> {1, 2, 4, 8}"
  by (cases a) simp_all

lemma scalar_write_arg:
  "\<not> is_ArgOnStack a \<Longrightarrow> slot_off n + 8 \<le> length st \<Longrightarrow>
     write_arg vh sp a n st =
       (if n < NUM_ARGS_ON_REGISTER then st
        else str_replace st (slot_off n) 8
               (scalar_image a @ replicate (8 - length (scalar_image a)) 0))"
  using length_scalar_image [of a]
  by (cases a) (simp_all add: write_arg_def scalar_setStackImage_def slot_off_def
      mult.commute set_value_in_range)

text \<open>The data of an argument by reference: the buffer (or zeros) and the padding.\<close>

definition onstack_data :: "memory \<Rightarrow> u64 \<Rightarrow> u64 \<Rightarrow> bool \<Rightarrow> bytes" where
  "onstack_data vh b l i =
     (if i then mem_read vh b (unat l) else replicate (unat l) 0)
       @ replicate (if unat l mod 8 > 0 then 8 - unat l mod 8 else 0) 0"

lemma unat_pad: "l mod 8 > 0 \<Longrightarrow> unat (8 - l mod 8 :: u64) = 8 - unat l mod 8"
  by (simp add: unat_sub word_mod_less_divisor less_imp_le unat_mod)

lemma mod8_pos_iff: "l mod 8 > (0 :: u64) \<longleftrightarrow> unat l mod 8 > 0"
  by (simp add: word_less_nat_alt unat_mod)

lemma length_onstack_data [simp]:
  "length (onstack_data vh b l i) = stack_bytes (ArgOnStack b l i out v)"
  by (simp add: onstack_data_def)

lemma onstack_write_arg:
  assumes "slot_off n + 8 \<le> length st"
  shows "write_arg vh sp (ArgOnStack b l i out v) n st =
     (if n < NUM_ARGS_ON_REGISTER then st @ onstack_data vh b l i
      else str_replace (st @ onstack_data vh b l i) (slot_off n) 8
             (word_image (sp + of_nat (length st))))"
proof -
  have data: "(if l mod 8 > 0
        then (if i then st @ mem_read vh b (unat l) else st @ replicate (unat l) 0)
               @ replicate (unat (8 - l mod 8)) 0
        else (if i then st @ mem_read vh b (unat l) else st @ replicate (unat l) 0))
      = st @ onstack_data vh b l i"
    by (simp add: onstack_data_def unat_pad mod8_pos_iff)
  show ?thesis
    using assms
    by (simp add: write_arg_def onstack_setStackImage_def Let_def data slot_off_def
        set_value_in_range not_less)
qed

lemma write_arg_length:
  assumes "slot_off n + 8 \<le> length st"
  shows "length (write_arg vh sp a n st) = length st + stack_bytes a"
proof (cases a)
  case (ArgOnStack b l i out v)
  then show ?thesis
    using assms length_onstack_data [of vh b l i out v] by (simp add: onstack_write_arg)
qed (use assms length_scalar_image [of a] in \<open>auto simp: scalar_write_arg\<close>)

lemma write_arg_frame:
  assumes "slot_off n + 8 \<le> length st" "off + k \<le> length st"
    and "off + k \<le> slot_off n \<or> slot_off n + 8 \<le> off"
  shows "slice off k (write_arg vh sp a n st) = slice off k st"
proof (cases "is_ArgOnStack a")
  case True
  then obtain b l i out v where "a = ArgOnStack b l i out v" by (cases a) auto
  then show ?thesis
    using assms by (auto simp: onstack_write_arg byte_simps)
next
  case False
  then show ?thesis
    using assms length_scalar_image [of a] by (auto simp: scalar_write_arg byte_simps)
qed

interpretation writer: image_writer "write_arg vh sp" stack_bytes slot_off for vh sp
  by unfold_locales (fact slot_off_Suc write_arg_length write_arg_frame)+

section \<open>The loop of getStackImage as a specification\<close>

text \<open>Where the arguments by reference end up, when the image has \<open>off\<close> bytes so far.\<close>

fun arg_at :: "u64 \<Rightarrow> nat \<Rightarrow> arg_base \<Rightarrow> arg_base" where
  "arg_at sp off (ArgOnStack b l i out v) = ArgOnStack b l i out (Some (sp + of_nat off))"
| "arg_at sp off a = a"

primrec place_all :: "u64 \<Rightarrow> arg_base list \<Rightarrow> nat \<Rightarrow> arg_base list" where
  "place_all sp [] off = []"
| "place_all sp (a # as) off = arg_at sp off a # place_all sp as (off + stack_bytes a)"

fun flag_in :: "nat \<Rightarrow> arg_base \<Rightarrow> bool" where
  "flag_in n (ArgOnStack b l i out v) = i"
| "flag_in n a = (n \<ge> NUM_ARGS_ON_REGISTER)"

fun flag_out :: "arg_base \<Rightarrow> bool" where
  "flag_out (ArgOnStack b l i out v) = out"
| "flag_out a = False"

primrec any_flag_in :: "arg_base list \<Rightarrow> nat \<Rightarrow> bool" where
  "any_flag_in [] n = False"
| "any_flag_in (a # as) n = (flag_in n a \<or> any_flag_in as (Suc n))"

lemma any_flag_in_iff: "any_flag_in as n \<longleftrightarrow> (\<exists>i < length as. flag_in (n + i) (as ! i))"
proof (induction as arbitrary: n)
  case Nil
  then show ?case by simp
next
  case (Cons a as)
  show ?case by (simp add: Cons.IH Ex_less_Suc2)
qed

lemma setStackImage_eq:
  "setStackImage vh a sp st n = (arg_at sp (length st) a, write_arg vh sp a n st, flag_in n a, flag_out a)"
  by (cases a) (simp_all add: write_arg_def scalar_setStackImage_def onstack_setStackImage_def
      Let_def not_less)

lemma image_loop_eq:
  "slot_off n + 8 * length as \<le> length st \<Longrightarrow>
     image_loop vh sp (map Some as) n st ci co =
       Inr (map Some (place_all sp as (length st)), write_all (write_arg vh sp) as n st,
            ci \<or> any_flag_in as n, co \<or> list_ex flag_out as)"
proof (induction as arbitrary: n st ci co)
  case Nil
  then show ?case by simp
next
  case (Cons a as)
  have len: "length (write_arg vh sp a n st) = length st + stack_bytes a"
    using Cons.prems by (intro write_arg_length) simp
  then have "slot_off (Suc n) + 8 * length as \<le> length (write_arg vh sp a n st)"
    using Cons.prems by (simp add: slot_off_Suc)
  from Cons.IH [OF this] len show ?case
    by (simp add: setStackImage_eq disj_assoc)
qed

lemma length_place_all [simp]: "length (place_all sp as off) = length as"
  by (induction as arbitrary: off) simp_all

lemma nth_place_all:
  "i < length as \<Longrightarrow>
     place_all sp as off ! i = arg_at sp (off + sum_list (map stack_bytes (take i as))) (as ! i)"
proof (induction as arbitrary: off i)
  case Nil
  then show ?case by simp
next
  case (Cons a as)
  then show ?case by (cases i) (simp_all add: add.assoc)
qed

lemma stack_bytes_arg_at [simp]: "stack_bytes (arg_at sp off a) = stack_bytes a"
  by (cases a) simp_all

lemma arg_at_idem [simp]: "arg_at sp off (arg_at sp' off' a) = arg_at sp off a"
  by (cases a) simp_all

section \<open>The size computation\<close>

lemma sizeOnStack_of_nat: "sizeOnStack a = of_nat (stack_bytes a)"
proof (cases a)
  case (ArgOnStack b l i out v)
  have "(8 - l mod 8 :: u64) = of_nat (8 - unat l mod 8)" if "l mod 8 > 0"
    by (simp add: unat_pad [OF that, symmetric])
  then show ?thesis
    by (simp add: ArgOnStack mod8_pos_iff)
qed simp_all

lemma ucast_add_scast: "ucast (scast (s :: u32) + x :: u64) = s + (ucast x :: u32)"
proof -
  have "take_bit 32 (take_bit 64 a + take_bit 64 b) = take_bit 32 (a + b)" for a b :: int
    using take_bit_add [of 32 "take_bit 64 a" "take_bit 64 b"] take_bit_add [of 32 a b]
    by (simp add: take_bit_take_bit)
  then have "ucast (scast s + x :: u64) = (ucast (scast s :: u64) :: u32) + ucast x"
    by transfer simp
  moreover have "(ucast (scast s :: u64) :: u32) = s"
    by transfer (simp add: take_bit_signed_take_bit)
  ultimately show ?thesis by simp
qed

lemma accumulate_sizes_eq:
  "accumulate_sizes s (map Some as) = Inr (s + of_nat (sum_list (map stack_bytes as)))"
proof (induction as arbitrary: s)
  case Nil
  then show ?case by simp
next
  case (Cons a as)
  have "(ucast (of_nat (stack_bytes a) :: u64) :: u32) = of_nat (stack_bytes a)"
    by transfer simp
  then show ?case
    by (simp add: ucast_add_scast sizeOnStack_of_nat Cons.IH add.assoc)
qed

text \<open>
  The exact size of the image, and when an argument object is usable: no slot was left null.
\<close>

definition data_size :: "arg_base list \<Rightarrow> nat" where
  "data_size as = sum_list (map stack_bytes as)"

definition image_size :: "arg_base list \<Rightarrow> nat" where
  "image_size as = slot_off (length as) + data_size as"

definition data_off :: "arg_base list \<Rightarrow> nat \<Rightarrow> nat" where
  "data_off as i = slot_off (length as) + data_size (take i as)"

definition image_of :: "memory \<Rightarrow> u64 \<Rightarrow> arg_base list \<Rightarrow> bytes" where
  "image_of vh sp as = write_all (write_arg vh sp) as 0 (replicate (slot_off (length as)) 0)"

lemma length_image_of [simp]: "length (image_of vh sp as) = image_size as"
  unfolding image_of_def image_size_def data_size_def
  by (subst writer.write_all_length) (simp_all add: slot_off_def)

definition set_up :: "call_args \<Rightarrow> memory \<Rightarrow> u64 \<Rightarrow> arg_base list \<Rightarrow> call_args" where
  "set_up ca vh sp as =
     ca\<lparr>arguments := map Some (place_all sp as (slot_off (length as))),
        stack_top := sp, stack_size := of_nat (image_size as),
        stack_buf := Some (image_of vh sp as),
        copied_in := any_flag_in as 0, copied_out := list_ex flag_out as\<rparr>"

lemma getStackImage_eq:
  fixes as :: "arg_base list"
  defines "params \<equiv> int (slot_off (length as))"
    and "acc \<equiv> (of_nat (data_size as) :: u32)"
  assumes args: "arguments ca = map Some as"
  shows "getStackImage vh ca sp =
     (if \<not> in_int_range params \<or> \<not> in_int_range (params + sint acc)
      then Inl UndefinedBehaviour
      else let sz = word_of_int (params + sint acc); sp' = sp - sz
           in Inr (ca\<lparr>arguments := map Some (place_all sp' as (slot_off (length as))),
                      stack_top := sp', stack_size := sz,
                      copied_in := any_flag_in as 0, copied_out := list_ex flag_out as\<rparr>,
                   sp', image_of vh sp' as))"
  unfolding getStackImage_def args numArgs_def
  by (simp add: accumulate_sizes_eq image_loop_eq Let_def params_def acc_def
      slot_off_def image_of_def data_size_def)

lemma setup_args_fits:
  assumes "arguments ca = map Some as" and "int (image_size as) \<le> INT_MAX"
  shows "setup_args vh ca sp =
     Inr (set_up ca vh (sp - of_nat (image_size as)) as, sp - of_nat (image_size as))"
proof -
  have bound: "slot_off (length as) + data_size as \<le> 2147483647"
    using assms(2) by (simp add: image_size_def INT_MAX_def)
  have "sint (of_nat (data_size as) :: u32) = int (data_size as)"
    using bound by (simp add: signed_of_nat signed_take_bit_int_eq_self)
  moreover have "(word_of_int (int (slot_off (length as)) + int (data_size as)) :: u64)
      = of_nat (image_size as)"
    by (simp add: image_size_def)
  ultimately show ?thesis
    using bound
    by (simp add: setup_args_def getStackImage_eq [OF assms(1)] in_int_range_def INT_MAX_def
        INT_MIN_def Let_def set_up_def)
qed

section \<open>What the finished image holds\<close>

lemma image_of_slot:
  assumes "i < length as"
  shows "slice (slot_off i) 8 (image_of vh sp as)
     = slice (slot_off i) 8 (write_arg vh sp (as ! i) i
         (write_all (write_arg vh sp) (take i as) 0 (replicate (slot_off (length as)) 0)))"
  using writer.write_all_slot [of 0 as "replicate (slot_off (length as)) 0" i vh sp] assms
  by (simp add: image_of_def slot_off_def)

lemma image_of_data:
  assumes "i < length as" "k \<le> stack_bytes (as ! i)"
  shows "slice (data_off as i) k (image_of vh sp as)
     = slice (data_off as i) k (write_arg vh sp (as ! i) i
         (write_all (write_arg vh sp) (take i as) 0 (replicate (slot_off (length as)) 0)))"
  using writer.write_all_data [of 0 as "replicate (slot_off (length as)) 0" i "data_off as i" k vh sp]
    assms
  by (simp add: image_of_def data_off_def data_size_def slot_off_def)

lemma length_partial_image:
  assumes "i < length as"
  shows "length (write_all (write_arg vh sp) (take i as) 0 (replicate (slot_off (length as)) 0))
     = data_off as i"
  using writer.write_all_split(2) [of 0 as "replicate (slot_off (length as)) 0" i vh sp] assms
  by (simp add: data_off_def data_size_def slot_off_def)

lemma slot_off_le_data_off: "i < length as \<Longrightarrow> slot_off i + 8 \<le> data_off as j"
  by (simp add: data_off_def slot_off_def)

lemma data_off_le_image_size:
  assumes "i < length as"
  shows "data_off as i + stack_bytes (as ! i) \<le> image_size as"
proof -
  have "data_size as = data_size (take i as) + stack_bytes (as ! i) + data_size (drop (Suc i) as)"
    using id_take_nth_drop [OF assms]
    by (metis add.assoc data_size_def list.simps(9) map_append sum_list.Cons sum_list_append)
  then show ?thesis by (simp add: data_off_def image_size_def)
qed

text \<open>The value of the parameter slot of an argument beyond the eighth.\<close>

fun slot_value :: "arg_base \<Rightarrow> u64 option" where
  "slot_value (ArgI64 v) = Some v"
| "slot_value (ArgU64 v) = Some v"
| "slot_value (ArgI32 v) = Some (ucast v)"
| "slot_value (ArgU32 v) = Some (ucast v)"
| "slot_value (ArgI16 v) = Some (ucast v)"
| "slot_value (ArgU16 v) = Some (ucast v)"
| "slot_value (ArgI8 v) = Some (ucast v)"
| "slot_value (ArgU8 v) = Some (ucast v)"
| "slot_value (ArgDouble d) = Some d"
| "slot_value (ArgFloat f) = Some (push_bit 32 (ucast f))"
| "slot_value (ArgOnStack b l i out v) = v"

lemma le_word_scalar_image:
  "\<not> is_ArgOnStack a \<Longrightarrow>
     Some (le_word (scalar_image a @ replicate (8 - length (scalar_image a)) 0)) = slot_value a"
  by (cases a) (simp_all add: byte_simps float_union_def)

lemma image_of_slot_value:
  assumes "i < length as" and "i \<ge> NUM_ARGS_ON_REGISTER"
  shows "slot_value (arg_at sp (data_off as i) (as ! i))
     = Some (le_word (slice (slot_off i) 8 (image_of vh sp as)))"
proof (cases "is_ArgOnStack (as ! i)")
  case True
  then obtain b l inn out v where a: "as ! i = ArgOnStack b l inn out v"
    by (cases "as ! i") auto
  show ?thesis
    using assms slot_off_le_data_off [OF assms(1), of i]
    by (simp add: image_of_slot a onstack_write_arg length_partial_image not_less byte_simps)
next
  case False
  then have "arg_at sp (data_off as i) (as ! i) = as ! i"
    by (cases "as ! i") simp_all
  then show ?thesis
    using assms slot_off_le_data_off [OF assms(1), of i] length_scalar_image [OF False] False
    by (auto simp: image_of_slot scalar_write_arg length_partial_image not_less byte_simps
        le_word_scalar_image [symmetric])
qed

lemma image_of_onstack_data:
  assumes "i < length as" and a: "as ! i = ArgOnStack b l inn out v"
  shows "slice (data_off as i) (stack_bytes (as ! i)) (image_of vh sp as) = onstack_data vh b l inn"
proof -
  let ?st = "write_all (write_arg vh sp) (take i as) 0 (replicate (slot_off (length as)) 0)"
  have "slice (data_off as i) (stack_bytes (as ! i)) (write_arg vh sp (as ! i) i ?st)
      = slice (data_off as i) (stack_bytes (as ! i)) (?st @ onstack_data vh b l inn)"
    using slot_off_le_data_off [OF assms(1), of i] length_partial_image [OF assms(1), of vh sp]
    by (simp add: a onstack_write_arg byte_simps)
  also have "\<dots> = onstack_data vh b l inn"
    using length_partial_image [OF assms(1), of vh sp] length_onstack_data [of vh b l inn out v]
    by (simp add: byte_simps a)
  finally show ?thesis
    using assms(1) by (simp add: image_of_data)
qed

lemma slice_slice: "j + k \<le> n \<Longrightarrow> slice j k (slice off n xs) = slice (off + j) k xs"
  by (simp add: slice_def drop_take add.commute)

lemma image_of_buffer:
  assumes "i < length as" and a: "as ! i = ArgOnStack b l inn out v"
  shows "slice (data_off as i) (unat l) (image_of vh sp as)
     = (if inn then mem_read vh b (unat l) else replicate (unat l) 0)"
proof -
  have "slice (data_off as i) (unat l) (image_of vh sp as)
      = slice 0 (unat l) (slice (data_off as i) (stack_bytes (as ! i)) (image_of vh sp as))"
    by (simp add: slice_slice a)
  then show ?thesis
    by (simp add: image_of_onstack_data [OF assms] onstack_data_def byte_simps)
qed

lemma stack_bytes_mult8: "8 dvd stack_bytes a"
proof (cases a)
  case (ArgOnStack b l i out v)
  then show ?thesis by simp presburger
qed simp_all

lemma data_size_mult8: "8 dvd data_size as"
  unfolding data_size_def by (induction as) (simp_all add: stack_bytes_mult8)

section \<open>Properties of setup\<close>

lemma sint_u32_bounds: "- 2147483648 \<le> sint (w :: u32)" "sint (w :: u32) \<le> 2147483647"
  using sint_ge [of w] sint_lt [of w] by simp_all

lemma word_of_int_eq_of_nat_small:
  assumes "(word_of_int i :: u64) = of_nat n" "n < 2 ^ 63" "- (2 ^ 31) \<le> i" "i < 2 ^ 31"
  shows "i = int n"
proof -
  have "sint (word_of_int i :: u64) = i"
    using assms(3,4) by (simp add: signed_of_int signed_take_bit_int_eq_self)
  moreover have "sint (of_nat n :: u64) = int n"
    using assms(2) by (simp add: signed_of_nat signed_take_bit_int_eq_self)
  ultimately show ?thesis using assms(1) by simp
qed


text \<open>
  A slot of the argument vector that was never set (\<^verbatim>\<open>veo_args_set_*\<close> skipped its number)
  makes \<^verbatim>\<open>setup\<close> dereference a null pointer.
\<close>

theorem setup_null_slot:
  assumes "None \<in> set (arguments ca)"
  shows "setup_args vh ca sp = Inl UndefinedBehaviour"
proof -
  have "accumulate_sizes s as = Inl UndefinedBehaviour" if "None \<in> set as" for s as
    using that by (induction s as rule: accumulate_sizes.induct) auto
  then show ?thesis
    using assms by (simp add: setup_args_def getStackImage_def)
qed

text \<open>
  C23: the frame that \<^verbatim>\<open>setup\<close> reserves lies below the old stack pointer, its size is that of
  the buffer to transfer, a multiple of 8, and the stack pointer moves by exactly that much.
\<close>

theorem setup_frame:
  assumes "arguments ca = map Some as" and "int (image_size as) \<le> INT_MAX"
  shows "\<exists>ca' buf. setup_args vh ca sp = Inr (ca', sp - of_nat (image_size as))
     \<and> stack_buf ca' = Some buf \<and> length buf = image_size as
     \<and> stack_top ca' = sp - of_nat (image_size as)
     \<and> unat (stack_size ca') = image_size as \<and> 8 dvd image_size as
     \<and> numArgs ca' = numArgs ca"
proof -
  have "unat (of_nat (image_size as) :: u64) = image_size as"
    using assms(2) by (intro unat_of_nat64) (simp add: INT_MAX_def)
  moreover have "8 dvd image_size as"
    using data_size_mult8 [of as] by (simp add: image_size_def slot_off_def PARAM_AREA_OFFSET_def)
  ultimately show ?thesis
    by (simp add: setup_args_fits [OF assms] set_up_def numArgs_def assms(1))
qed

lemma set_up_argument:
  "i < length as \<Longrightarrow>
     arguments (set_up ca vh sp as) ! i = Some (arg_at sp (data_off as i) (as ! i))"
  by (simp add: set_up_def nth_place_all data_off_def data_size_def)


lemma data_off_ordered:
  assumes "j < i" "i < length as"
  shows "data_off as j + stack_bytes (as ! j) \<le> data_off as i"
proof -
  have "data_off (take i as) j + stack_bytes (take i as ! j) \<le> image_size (take i as)"
    using assms by (intro data_off_le_image_size) simp
  then show ?thesis
    using assms by (simp add: data_off_def image_size_def slot_off_def min_def)
qed


section \<open>Register arguments and transfer flags\<close>

lemma regvals_loop_eq:
  assumes "\<forall>a \<in> set as. \<exists>v. arg_getRegVal a = Inr v" and "count < NUM_ARGS_ON_REGISTER"
  shows "regvals_loop (map Some as) count rv
     = Inr (rv @ map (\<lambda>a. projr (arg_getRegVal a)) (take (NUM_ARGS_ON_REGISTER - count) as))"
  using assms
proof (induction as arbitrary: count rv)
  case Nil
  then show ?case by simp
next
  case (Cons a as)
  then obtain v where v: "arg_getRegVal a = Inr v" by auto
  show ?case
  proof (cases "Suc count \<ge> NUM_ARGS_ON_REGISTER")
    case True
    with Cons.prems(2) have "NUM_ARGS_ON_REGISTER - count = 1" by simp
    with True v show ?thesis by simp
  next
    case False
    then obtain k where "NUM_ARGS_ON_REGISTER - count = Suc k"
      "NUM_ARGS_ON_REGISTER - Suc count = k" by (cases "NUM_ARGS_ON_REGISTER - count") auto
    with False v Cons show ?thesis by simp
  qed
qed

lemma arg_getRegVal_arg_at: "\<exists>v. arg_getRegVal (arg_at sp off a) = Inr v"
  by (cases a) simp_all

lemma place_all_getRegVal:
  "\<forall>a \<in> set (place_all sp as off). \<exists>v. arg_getRegVal a = Inr v"
  by (induction as arbitrary: off) (simp_all add: arg_getRegVal_arg_at)

text \<open>
  After \<^verbatim>\<open>setup\<close> the register values are those of the first eight arguments (all of them
  when there are fewer), in order: integers extended by their own signedness, floats in the
  upper half of the register, arguments by reference as the address of their data.
\<close>

theorem setup_registers:
  assumes "arguments ca = map Some as" and "int (image_size as) \<le> INT_MAX"
  shows "\<exists>ca' sp' regs. setup_args vh ca sp = Inr (ca', sp') \<and> getRegVal ca' = Inr regs
     \<and> length regs = min 8 (length as)
     \<and> (\<forall>i < length regs. arg_getRegVal (arg_at sp' (data_off as i) (as ! i)) = Inr (regs ! i))"
proof -
  let ?sp = "sp - of_nat (image_size as)"
  let ?as = "place_all ?sp as (slot_off (length as))"
  let ?regs = "map (\<lambda>a. projr (arg_getRegVal a)) (take 8 ?as)"
  have "getRegVal (set_up ca vh ?sp as) = Inr ?regs"
    using regvals_loop_eq [OF place_all_getRegVal [of ?sp as "slot_off (length as)"], of 0 "[]"]
    by (simp add: getRegVal_def set_up_def NUM_ARGS_ON_REGISTER_def)
  moreover have "arg_getRegVal (arg_at ?sp (data_off as i) (as ! i)) = Inr (?regs ! i)"
    if "i < length ?regs" for i
    using that arg_getRegVal_arg_at [of ?sp "data_off as i" "as ! i"]
    by (auto simp: nth_place_all data_off_def data_size_def)
  ultimately show ?thesis
    by (simp add: setup_args_fits [OF assms])
qed

lemma flag_in_iff: "flag_in i a \<longleftrightarrow> (if is_ArgOnStack a then arg_in a else 8 \<le> i)"
  by (cases a) (simp_all add: NUM_ARGS_ON_REGISTER_def)

lemma flag_out_iff: "flag_out a \<longleftrightarrow> is_ArgOnStack a \<and> arg_out a"
  by (cases a) simp_all

lemma flag_out_onstack: "flag_out a \<Longrightarrow> is_ArgOnStack a"
  by (simp add: flag_out_iff)

text \<open>
  \<^verbatim>\<open>setup\<close> requests the transfer to the VE exactly when some argument by reference is an
  input or some argument by value is beyond the eighth, and the transfer back exactly when
  some argument by reference is an output.
\<close>

theorem setup_flags:
  assumes "arguments ca = map Some as" and "int (image_size as) \<le> INT_MAX"
  shows "\<exists>ca' sp'. setup_args vh ca sp = Inr (ca', sp')
     \<and> (copied_in ca' \<longleftrightarrow> (\<exists>i < length as.
            if is_ArgOnStack (as ! i) then arg_in (as ! i) else 8 \<le> i))
     \<and> (copied_out ca' \<longleftrightarrow> (\<exists>a \<in> set as. is_ArgOnStack a \<and> arg_out a))"
  by (simp add: setup_args_fits [OF assms] set_up_def any_flag_in_iff list_ex_iff
      flag_in_iff flag_out_iff)

text \<open>
  An output argument beyond the eighth whose call has no input argument and no later
  argument by value: the image holds the pointer to its buffer in the parameter slot, but
  \<^verbatim>\<open>copyin\<close> transfers nothing, so the callee never receives that pointer.
\<close>

theorem output_pointer_not_transferred:
  assumes "arguments ca = map Some as" and "int (image_size as) \<le> INT_MAX"
    and "i < length as" and "8 \<le> i" and "is_ArgOnStack (as ! i)"
    and "\<forall>j < length as. if is_ArgOnStack (as ! j) then \<not> arg_in (as ! j) else j < 8"
  shows "\<exists>ca' sp' buf. setup_args vh ca sp = Inr (ca', sp') \<and> stack_buf ca' = Some buf
     \<and> le_word (slice (176 + 8 * i) 8 buf) = sp' + of_nat (data_off as i)
     \<and> copyin xfer ca' s = s"
proof -
  let ?sp = "sp - of_nat (image_size as)"
  have "\<not> flag_in j (as ! j)" if "j < length as" for j
    using assms(6) that by (auto simp: flag_in_iff split: if_splits)
  then have "\<not> any_flag_in as 0"
    by (simp add: any_flag_in_iff)
  then have "copyin xfer (set_up ca vh ?sp as) s = s"
    by (simp add: copyin_def set_up_def)
  moreover have "slot_value (arg_at ?sp (data_off as i) (as ! i)) = Some (?sp + of_nat (data_off as i))"
    using assms(5) by (cases "as ! i") simp_all
  then have "le_word (slice (176 + 8 * i) 8 (image_of vh ?sp as)) = ?sp + of_nat (data_off as i)"
    using image_of_slot_value [OF assms(3), of ?sp vh] assms(4)
    by (simp add: slot_off_def layout_consts)
  ultimately show ?thesis
    by (simp add: setup_args_fits [OF assms(1,2)] set_up_def)
qed

section \<open>Copying results back\<close>

text \<open>The effect of \<^verbatim>\<open>copyoutFromStackImage\<close> where it is defined.\<close>

definition copy_one :: "u64 \<Rightarrow> bytes \<Rightarrow> memory \<Rightarrow> arg_base \<Rightarrow> memory" where
  "copy_one sp img vh a =
     (if flag_out a
      then mem_write vh (arg_buff a) (slice (unat (the (arg_vemva a) - sp)) (unat (arg_len a)) img)
      else vh)"

definition in_image :: "u64 \<Rightarrow> bytes \<Rightarrow> arg_base \<Rightarrow> bool" where
  "in_image sp img a \<longleftrightarrow>
     (is_ArgOnStack a \<longrightarrow>
        arg_vemva a \<noteq> None \<and> unat (the (arg_vemva a) - sp) + unat (arg_len a) \<le> length img)"

lemma copyoutFromStackImage_eq:
  "in_image sp img a \<Longrightarrow> copyoutFromStackImage a sp img vh = Inr (copy_one sp img vh a)"
  by (cases a) (auto simp: in_image_def copy_one_def)

lemma copyout_loop_eq:
  "list_all (in_image sp img) as \<Longrightarrow>
     copyout_loop sp img (map Some as) vh = Inr (foldl (copy_one sp img) vh as)"
  by (induction as arbitrary: vh) (simp_all add: copyoutFromStackImage_eq)

lemma copy_all_frame:
  assumes "\<forall>a \<in> set as. in_image sp img a"
    and "\<forall>a \<in> set as. flag_out a \<longrightarrow> disjoint_ranges p n (arg_buff a) (unat (arg_len a))"
  shows "mem_read (foldl (copy_one sp img) vh as) p n = mem_read vh p n"
  using assms
proof (induction as arbitrary: vh)
  case Nil
  then show ?case by simp
next
  case (Cons a as)
  have "mem_read (copy_one sp img vh a) p n = mem_read vh p n"
    using Cons.prems by (auto simp: copy_one_def in_image_def flag_out_iff mem_simps)
  with Cons show ?case by simp
qed

lemma copy_all_out:
  assumes "\<forall>a \<in> set as. in_image sp img a" and "i < length as" and "flag_out (as ! i)"
    and "\<forall>j < length as. i < j \<longrightarrow> flag_out (as ! j) \<longrightarrow>
           disjoint_ranges (arg_buff (as ! i)) (unat (arg_len (as ! i)))
             (arg_buff (as ! j)) (unat (arg_len (as ! j)))"
  shows "mem_read (foldl (copy_one sp img) vh as) (arg_buff (as ! i)) (unat (arg_len (as ! i)))
     = slice (unat (the (arg_vemva (as ! i)) - sp)) (unat (arg_len (as ! i))) img"
proof -
  let ?a = "as ! i" and ?vh = "foldl (copy_one sp img) vh (take i as)"
  have "as = take i as @ ?a # drop (Suc i) as"
    using assms(2) by (rule id_take_nth_drop)
  then have "foldl (copy_one sp img) vh as
      = foldl (copy_one sp img) (copy_one sp img ?vh ?a) (drop (Suc i) as)"
    by (metis foldl_Cons foldl_append)
  moreover have "mem_read (foldl (copy_one sp img) (copy_one sp img ?vh ?a) (drop (Suc i) as))
      (arg_buff ?a) (unat (arg_len ?a))
      = mem_read (copy_one sp img ?vh ?a) (arg_buff ?a) (unat (arg_len ?a))"
    using assms(1,4) by (intro copy_all_frame) (auto simp: in_set_conv_nth dest: in_set_dropD)
  moreover have "in_image sp img ?a" using assms(1,2) by simp
  then have "mem_read (copy_one sp img ?vh ?a) (arg_buff ?a) (unat (arg_len ?a))
      = slice (unat (the (arg_vemva ?a) - sp)) (unat (arg_len ?a)) img"
    using assms(3) unat_u64_less [of "arg_len ?a"]
    by (simp add: copy_one_def in_image_def flag_out_iff mem_simps)
  ultimately show ?thesis by simp
qed

lemma vemva_arg_at:
  assumes "is_ArgOnStack a" "off < 2 ^ 64"
  shows "unat (the (arg_vemva (arg_at sp off a)) - sp) = off"
  using assms by (cases a) (simp_all add: unat_of_nat64)

lemma arg_at_sel [simp]:
  "is_ArgOnStack (arg_at sp off a) = is_ArgOnStack a"
  "flag_out (arg_at sp off a) = flag_out a"
  "is_ArgOnStack a \<Longrightarrow> arg_buff (arg_at sp off a) = arg_buff a"
  "is_ArgOnStack a \<Longrightarrow> arg_len (arg_at sp off a) = arg_len a"
  by (cases a; simp)+

lemma data_off_bound:
  assumes "int (image_size as) \<le> INT_MAX" "i < length as" "is_ArgOnStack (as ! i)"
  shows "data_off as i + unat (arg_len (as ! i)) \<le> image_size as" "data_off as i < 2 ^ 64"
proof -
  have "unat (arg_len (as ! i)) \<le> stack_bytes (as ! i)"
    using assms(3) by (cases "as ! i") simp_all
  then show le: "data_off as i + unat (arg_len (as ! i)) \<le> image_size as"
    using data_off_le_image_size [OF assms(2)] by simp
  then show "data_off as i < 2 ^ 64"
    using assms(1) by (simp add: INT_MAX_def)
qed

lemma place_all_nth_data_off:
  "i < length as \<Longrightarrow>
     place_all sp as (slot_off (length as)) ! i = arg_at sp (data_off as i) (as ! i)"
  by (simp add: nth_place_all data_off_def data_size_def)

lemma place_all_in_image:
  assumes "int (image_size as) \<le> INT_MAX" "length img = image_size as"
  shows "list_all (in_image sp img) (place_all sp as (slot_off (length as)))"
proof (clarsimp simp: list_all_length)
  fix i assume i: "i < length as"
  show "in_image sp img (place_all sp as (slot_off (length as)) ! i)"
    unfolding place_all_nth_data_off [OF i] in_image_def
  proof (clarsimp, intro conjI)
    assume a: "is_ArgOnStack (as ! i)"
    then show "\<exists>y. arg_vemva (arg_at sp (data_off as i) (as ! i)) = Some y"
      by (cases "as ! i") simp_all
    show "unat (the (arg_vemva (arg_at sp (data_off as i) (as ! i))) - sp) + unat (arg_len (as ! i))
        \<le> length img"
      using data_off_bound [OF assms(1) i a] assms(2) by (simp add: vemva_arg_at a)
  qed
qed

text \<open>
  \<^verbatim>\<open>copyout\<close> after \<^verbatim>\<open>setup\<close>.  When the transfer back fills the buffer, every output buffer of
  the caller receives the bytes of its own region of the frame (provided the output buffers
  of the caller do not overlap), and memory outside the output buffers is untouched.
\<close>

theorem copyout_delivers:
  assumes "arguments ca = map Some as" and "int (image_size as) \<le> INT_MAX"
    and "setup_args vh0 ca sp = Inr (ca', sp')"
    and "xfer sp' (image_size as) s = ((rv, bs), s')" and "length bs = image_size as"
    and "copied_out ca'"
    and "\<forall>i < length as. \<forall>j < length as. i \<noteq> j \<longrightarrow> flag_out (as ! i) \<longrightarrow> flag_out (as ! j) \<longrightarrow>
           disjoint_ranges (arg_buff (as ! i)) (unat (arg_len (as ! i)))
             (arg_buff (as ! j)) (unat (arg_len (as ! j)))"
  shows "\<exists>vh'. copyout xfer ca' vh s = (Inr (ca'\<lparr>stack_buf := Some bs\<rparr>, vh'), s')
     \<and> (\<forall>i < length as. flag_out (as ! i) \<longrightarrow>
          mem_read vh' (arg_buff (as ! i)) (unat (arg_len (as ! i)))
            = slice (data_off as i) (unat (arg_len (as ! i))) bs)
     \<and> (\<forall>p n. (\<forall>a \<in> set as. flag_out a \<longrightarrow> disjoint_ranges p n (arg_buff a) (unat (arg_len a)))
            \<longrightarrow> mem_read vh' p n = mem_read vh p n)"
proof -
  let ?as = "place_all sp' as (slot_off (length as))"
  let ?vh = "foldl (copy_one sp' bs) vh ?as"
  have ca': "ca' = set_up ca vh0 sp' as"
    using assms(3) setup_args_fits [OF assms(1,2), of vh0 sp] by auto
  have inim: "list_all (in_image sp' bs) ?as"
    using place_all_in_image [OF assms(2,5)] .
  have out: "copyout xfer ca' vh s = (Inr (ca'\<lparr>stack_buf := Some bs\<rparr>, ?vh), s')"
    using assms(2,4,5,6) copyout_loop_eq [OF inim, of vh]
    by (simp add: copyout_def ca' set_up_def unat_of_nat64 INT_MAX_def)
  have "mem_read ?vh (arg_buff (as ! i)) (unat (arg_len (as ! i)))
      = slice (data_off as i) (unat (arg_len (as ! i))) bs"
    if i: "i < length as" and o: "flag_out (as ! i)" for i
  proof -
    have a: "is_ArgOnStack (as ! i)" using o by (simp add: flag_out_iff)
    have "mem_read ?vh (arg_buff (?as ! i)) (unat (arg_len (?as ! i)))
        = slice (unat (the (arg_vemva (?as ! i)) - sp')) (unat (arg_len (?as ! i))) bs"
      using inim i o assms(7)
      by (intro copy_all_out)
        (auto simp: list_all_iff place_all_nth_data_off flag_out_onstack)
    then show ?thesis
      using a data_off_bound(2) [OF assms(2) i a] by (simp add: place_all_nth_data_off i vemva_arg_at)
  qed
  moreover have "mem_read ?vh p n = mem_read vh p n"
    if "\<forall>a \<in> set as. flag_out a \<longrightarrow> disjoint_ranges p n (arg_buff a) (unat (arg_len a))" for p n
    using inim that
    by (intro copy_all_frame)
      (auto simp: list_all_iff in_set_conv_nth [of _ ?as] place_all_nth_data_off flag_out_onstack)
  ultimately show ?thesis
    using out by (intro exI [of _ ?vh]) blast
qed


section \<open>Setting arguments\<close>

text \<open>
  For a valid argument number, setting an argument stores it there, keeps every other
  argument, and fills skipped numbers with null.
\<close>

theorem store_arg_valid:
  assumes "0 \<le> argnum" and "argnum < INT_MAX"
  shows "\<exists>ca'. store_arg ca argnum a = Inr ca'
     \<and> length (arguments ca') = max (length (arguments ca)) (nat argnum + 1)
     \<and> arguments ca' ! nat argnum = Some a
     \<and> (\<forall>i < length (arguments ca'). i \<noteq> nat argnum \<longrightarrow>
          arguments ca' ! i = (if i < length (arguments ca) then arguments ca ! i else None))"
  using assms by (auto simp: store_arg_def Let_def nth_append nth_list_update)

text \<open>
  A negative argument number (or \<^verbatim>\<open>INT_MAX\<close>) is never reported as a \<^verbatim>\<open>VEOException\<close>: the
  call ends in \<^verbatim>\<open>std::length_error\<close> or has no meaning, so the C interface cannot turn it
  into its error code.
\<close>

theorem store_arg_invalid:
  assumes "argnum < 0 \<or> argnum = INT_MAX"
  shows "store_arg ca argnum a \<in> {Inl UndefinedBehaviour, Inl (StdException ''length_error'')}"
  using assms by (auto simp: store_arg_def INT_MAX_def)

end
