(* ===== verification/VeExecution.thy ===== *)
theory VeExecution
  imports ThreadContext CallArgs_Layout
begin

text \<open>
  Properties of the system call filters, of the exception handlers and of starting a VE
  function.  What every filter promises is the locale \<open>syscall_filter\<close>; what the handler loop
  does with such a filter is proved there once, and the three filters of the program are
  shown to keep the promise.
\<close>

section \<open>What the execution of VE code may change\<close>

text \<open>\<open>t\<close> differs from \<open>s\<close> at most in the environment and in the state of the context.\<close>

definition same_but_ve :: "'os tstate \<Rightarrow> 'os tstate \<Rightarrow> bool" where
  "same_but_ve s t \<longleftrightarrow>
     vh_mem t = vh_mem s \<and> args_heap t = args_heap s \<and> ctx_heap t = ctx_heap s
     \<and> os_handle (tc t) = os_handle (tc s) \<and> comq (tc t) = comq (tc s)
     \<and> is_main_thread (tc t) = is_main_thread (tc s) \<and> seq_no (tc t) = seq_no (tc s)
     \<and> ve_sp (tc t) = ve_sp (tc s) \<and> rem_reqid (tc t) = rem_reqid (tc s)"

lemma same_but_ve_refl [simp, intro]: "same_but_ve s s"
  by (simp add: same_but_ve_def)

lemma same_but_ve_trans: "same_but_ve s t \<Longrightarrow> same_but_ve t u \<Longrightarrow> same_but_ve s u"
  by (simp add: same_but_ve_def)

lemma same_but_ve_upd [simp]:
  "same_but_ve s (t\<lparr>os := w\<rparr>) = same_but_ve s t"
  "same_but_ve s (t\<lparr>tc := (tc t)\<lparr>ctx_state := st\<rparr>\<rparr>) = same_but_ve s t"
  by (simp_all add: same_but_ve_def)

section \<open>A rule for the handler loop\<close>

text \<open>
  If \<open>I\<close> holds at the start, is kept by each round that continues, and each way out of the
  loop establishes \<open>Q\<close>, then a handler that returns establishes \<open>Q\<close>.
\<close>

lemma exceptionHandler_rule:
  assumes "exceptionHandler E filt exc s = Some (Inr (rv, exs), t)" and "I s"
    and step: "\<And>u rv exs v. I u \<Longrightarrow>
      handleSingleException E (Some filt) u = Some (Inr (rv, exs), v) \<Longrightarrow>
      (if rv = 0 then I v else Q rv v)"
    and stop: "\<And>u. I u \<Longrightarrow> ctx_state (tc u) \<noteq> VEO_STATE_RUNNING \<Longrightarrow> Q 0 u"
  shows "Q rv t"
proof -
  let ?P = "\<lambda>E' F (exc :: u64) s r. E' = E \<longrightarrow> F = filt \<longrightarrow> I s \<longrightarrow>
    (\<forall>rv (exs :: u64). fst r = (Inr (rv, exs) :: (int \<times> u64) result) \<longrightarrow> Q rv (snd r))"
  have "?P E filt exc s (Inr (rv, exs), t)"
  proof (rule exceptionHandler.raw_induct [where P = ?P, OF _ assms(1)])
    fix g E' F exc s r
    assume IH: "\<And>E' F exc s r. g E' F exc s = Some r \<Longrightarrow> ?P E' F exc s r"
    assume eq: "(if ctx_state (tc s) = VEO_STATE_RUNNING
      then Option.bind (handleSingleException E' (Some F) s)
             (\<lambda>(r, s'). case r of Inl e \<Rightarrow> Some (Inl e, s')
                | Inr (rv, exc') \<Rightarrow> if rv \<noteq> 0 then Some (Inr (rv, exc'), s') else g E' F exc' s')
      else Some (Inr (VEO_HANDLER_STATUS_TERMINATED, exc), s)) = Some r"
    show "?P E' F exc s r"
    proof (cases "ctx_state (tc s) = VEO_STATE_RUNNING")
      case True
      with eq obtain x u where x: "handleSingleException E' (Some F) s = Some (x, u)"
        by (cases "handleSingleException E' (Some F) s") auto
      show ?thesis
      proof (cases x)
        case (Inl e)
        with eq True x show ?thesis by auto
      next
        case (Inr y)
        with eq True x show ?thesis
          using IH [of E' F "snd y" u r] step [of s "fst y" "snd y" u]
          by (cases y) (auto split: if_splits)
      qed
    next
      case False
      with eq stop show ?thesis by (auto simp: VEO_HANDLER_STATUS_TERMINATED_def)
    qed
  qed
  with assms(2) show ?thesis by simp
qed

section \<open>The contract of a filter\<close>

locale syscall_filter =
  fixes filt :: "'os sysfilter"
  assumes filter_returns: "\<exists>b flag t. filt n s = Some (Inr (b, flag), t)"
    and not_filtered: "filt n s = Some (Inr (False, flag), t) \<Longrightarrow> flag = 0 \<and> t = s"
    and filtered_state: "filt n s = Some (Inr (True, flag), t) \<Longrightarrow>
      ctx_state (tc t) = ctx_state (tc s)
      \<or> ctx_state (tc t) = VEO_STATE_BLOCKED \<and> flag = VEO_HANDLER_STATUS_BLOCK_REQUESTED"
    and filter_frame: "filt n s = Some (r, t) \<Longrightarrow> same_but_ve s t"
begin

lemma handle_syscall_returns: "\<exists>flag t. handle_syscall E (Some filt) s = Some (Inr flag, t)"
proof -
  let ?n = "vedl_get_syscall_num E (os_handle (tc s)) (os s)"
  obtain b flag t where "filt ?n s = Some (Inr (b, flag), t)"
    using filter_returns by blast
  then show ?thesis
    by (cases b) (simp_all add: handle_syscall_def set_state_def os_do_def)
qed

lemma handle_syscall_state:
  assumes "handle_syscall E (Some filt) s = Some (Inr flag, t)"
    and "ctx_state (tc s) = VEO_STATE_RUNNING"
  shows "same_but_ve s t
     \<and> (ctx_state (tc t) = VEO_STATE_RUNNING
        \<or> ctx_state (tc t) = VEO_STATE_BLOCKED \<and> flag = VEO_HANDLER_STATUS_BLOCK_REQUESTED)"
proof -
  let ?n = "vedl_get_syscall_num E (os_handle (tc s)) (os s)"
  obtain b flag' u where f: "filt ?n s = Some (Inr (b, flag'), u)"
    using filter_returns by blast
  show ?thesis
  proof (cases b)
    case True
    with f assms show ?thesis
      using filtered_state [of ?n s flag' u] filter_frame [of ?n s "Inr (b, flag')" u]
      by (auto simp: handle_syscall_def)
  next
    case False
    with f assms not_filtered [of ?n s flag' u] show ?thesis
      by (auto simp: handle_syscall_def set_state_def os_do_def same_but_ve_def)
  qed
qed

lemma handleSingleException_state:
  assumes "handleSingleException E (Some filt) s = Some (Inr (rv, exs), t)"
    and "ctx_state (tc s) = VEO_STATE_RUNNING"
  shows "same_but_ve s t
     \<and> (ctx_state (tc t) = VEO_STATE_RUNNING
        \<or> ctx_state (tc t) = VEO_STATE_BLOCKED
          \<and> (rv = VEO_HANDLER_STATUS_BLOCK_REQUESTED \<or> rv = VEO_HANDLER_STATUS_EXCEPTION))"
proof -
  obtain exs' u where u: "wait_exceptionP E s = Some (Inr exs', u)"
    and same: "same_but_ve s u" "ctx_state (tc u) = VEO_STATE_RUNNING"
    using assms
    by (auto simp: handleSingleException_def bindP_eq_Inr wait_exceptionP_def split: option.splits)
  obtain flag v where v: "(if exs' AND EXS_MONC E \<noteq> 0 then handle_syscall E (Some filt) else returnP 0) u
      = Some (Inr flag, v)"
    using handle_syscall_returns [of E u] by (cases "exs' AND EXS_MONC E \<noteq> 0") auto
  have "same_but_ve u v \<and> (ctx_state (tc v) = VEO_STATE_RUNNING
        \<or> ctx_state (tc v) = VEO_STATE_BLOCKED \<and> flag = VEO_HANDLER_STATUS_BLOCK_REQUESTED)"
    using v same(2) handle_syscall_state by (auto split: if_splits)
  moreover have "rv = (if is_error_exs E exs' then VEO_HANDLER_STATUS_EXCEPTION else flag)"
    "same_but_ve v t" "ctx_state (tc t) = ctx_state (tc v)"
    using assms(1) u v
    by (auto simp: handleSingleException_def os_do_def split: if_splits)
  moreover from calculation same(1) have "same_but_ve s t"
    using same_but_ve_trans by blast
  ultimately show ?thesis
    by (auto split: if_splits)
qed

text \<open>
  Started in state RUNNING, the handler loop returns only with a non-zero status, and leaves
  the context RUNNING or BLOCKED, everything but the environment being as before.
\<close>

lemma exceptionHandler_state:
  assumes "exceptionHandler E filt exc s = Some (Inr (rv, exs), t)"
    and "ctx_state (tc s) = VEO_STATE_RUNNING"
  shows "same_but_ve s t \<and> rv \<noteq> 0
     \<and> (ctx_state (tc t) = VEO_STATE_RUNNING
        \<or> ctx_state (tc t) = VEO_STATE_BLOCKED
          \<and> (rv = VEO_HANDLER_STATUS_BLOCK_REQUESTED \<or> rv = VEO_HANDLER_STATUS_EXCEPTION))"
proof (rule exceptionHandler_rule [where I = "\<lambda>u. same_but_ve s u \<and> ctx_state (tc u) = VEO_STATE_RUNNING",
      OF assms(1)])
  fix u rv exs v
  assume I: "same_but_ve s u \<and> ctx_state (tc u) = VEO_STATE_RUNNING"
    and "handleSingleException E (Some filt) u = Some (Inr (rv, exs), v)"
  note one = handleSingleException_state [OF this(2)]
  then have "same_but_ve s v"
    using I by (blast intro: same_but_ve_trans)
  with one I
  show "if rv = 0 then same_but_ve s v \<and> ctx_state (tc v) = VEO_STATE_RUNNING
    else same_but_ve s v \<and> rv \<noteq> 0
     \<and> (ctx_state (tc v) = VEO_STATE_RUNNING
        \<or> ctx_state (tc v) = VEO_STATE_BLOCKED
          \<and> (rv = VEO_HANDLER_STATUS_BLOCK_REQUESTED \<or> rv = VEO_HANDLER_STATUS_EXCEPTION))"
    by (auto simp: handler_status_defs)
qed (use assms(2) in auto)

end

section \<open>The filters of the program\<close>

lemma defaultFilter_eq:
  "defaultFilter E n s =
     (if n \<in> set (map (nr E) default_filtered_syscalls)
      then Some (Inr (True, 0), s\<lparr>os := un_block_and_retval_req E (os_handle (tc s)) n
                                          (word_of_int (- ENOSYS)) (os s)\<rparr>)
      else if is_veo_block E (os_handle (tc s)) n (os s)
      then Some (Inr (True, VEO_HANDLER_STATUS_BLOCK_REQUESTED),
                 s\<lparr>os := block_syscall_req_ve_os E (os_handle (tc s)) (os s),
                   tc := (tc s)\<lparr>ctx_state := VEO_STATE_BLOCKED\<rparr>\<rparr>)
      else Some (Inr (False, 0), s))"
  by (simp add: defaultFilter_def os_do_def set_state_def)

interpretation default_filter: syscall_filter "defaultFilter E" for E :: "'os veos"
  by unfold_locales (auto simp: defaultFilter_eq same_but_ve_def split: if_splits)

interpretation clone_filter: syscall_filter "hookCloneFilter E" for E :: "'os veos"
  by unfold_locales
    (auto simp: hookCloneFilter_def defaultFilter_eq same_but_ve_def split: if_splits)

interpretation exit_filter: syscall_filter "exitFilter E" for E :: "'os veos"
  by unfold_locales
    (auto simp: exitFilter_def defaultFilter_eq same_but_ve_def split: if_splits)

section \<open>Outcomes of the handlers\<close>

lemma handle_syscall_default:
  assumes "handle_syscall E (Some (defaultFilter E)) s = Some (Inr flag, t)"
  shows "flag = 0
     \<or> flag = VEO_HANDLER_STATUS_BLOCK_REQUESTED \<and> ctx_state (tc t) = VEO_STATE_BLOCKED"
  using assms
  by (auto simp: handle_syscall_def bindP_def defaultFilter_eq set_state_def os_do_def
      split: if_splits)

lemma handleSingleException_default:
  assumes "handleSingleException E (Some (defaultFilter E)) s = Some (Inr (rv, exs), t)"
  shows "rv = 0 \<or> rv = VEO_HANDLER_STATUS_EXCEPTION
     \<or> rv = VEO_HANDLER_STATUS_BLOCK_REQUESTED \<and> ctx_state (tc t) = VEO_STATE_BLOCKED"
proof -
  obtain exs' u where u: "wait_exceptionP E s = Some (Inr exs', u)"
    using assms by (auto simp: handleSingleException_def bindP_eq_Inr)
  obtain flag v where v: "(if exs' AND EXS_MONC E \<noteq> 0 then handle_syscall E (Some (defaultFilter E))
      else returnP 0) u = Some (Inr flag, v)"
    using default_filter.handle_syscall_returns [of E E u]
    by (cases "exs' AND EXS_MONC E \<noteq> 0") auto
  then have "flag = 0 \<or> flag = VEO_HANDLER_STATUS_BLOCK_REQUESTED \<and> ctx_state (tc v) = VEO_STATE_BLOCKED"
    using handle_syscall_default by (auto split: if_splits)
  with assms u v show ?thesis
    by (auto simp: handleSingleException_def os_do_def split: if_splits)
qed

lemma defaultExceptionHandler_outcomes:
  assumes "defaultExceptionHandler E exc s = Some (Inr (rv, exs), t)"
    and "ctx_state (tc s) = VEO_STATE_RUNNING"
  shows "same_but_ve s t
     \<and> (rv = VEO_HANDLER_STATUS_BLOCK_REQUESTED \<and> ctx_state (tc t) = VEO_STATE_BLOCKED
        \<or> rv = VEO_HANDLER_STATUS_EXCEPTION)"
proof -
  have eh: "exceptionHandler E (defaultFilter E) exc s = Some (Inr (rv, exs), t)"
    using assms(1) by (simp add: defaultExceptionHandler_def)
  have "rv = VEO_HANDLER_STATUS_TERMINATED \<or> rv = VEO_HANDLER_STATUS_EXCEPTION
      \<or> rv = VEO_HANDLER_STATUS_BLOCK_REQUESTED \<and> ctx_state (tc t) = VEO_STATE_BLOCKED"
    by (rule exceptionHandler_rule [where I = "\<lambda>_. True", OF eh])
      (auto simp: VEO_HANDLER_STATUS_TERMINATED_def dest: handleSingleException_default)
  with default_filter.exceptionHandler_state [OF eh assms(2)] show ?thesis
    by (auto simp: VEO_HANDLER_STATUS_TERMINATED_def)
qed

text \<open>
  A running context whose VE code is watched by the default handler comes back in one of
  two ways only: the VE thread asked to be blocked, and the context is then BLOCKED, or the
  hardware reported an error.  The third documented status (no longer RUNNING) cannot be
  returned, and nothing but the environment and the state of the context has changed.
\<close>

theorem default_handler_outcomes:
  assumes "defaultExceptionHandler E exc s = Some (Inr (rv, exs), t)"
    and "ctx_state (tc s) = VEO_STATE_RUNNING"
  shows "(rv = 1 \<and> ctx_state (tc t) = VEO_STATE_BLOCKED \<or> rv = - 1)
     \<and> comq (tc t) = comq (tc s) \<and> ve_sp (tc t) = ve_sp (tc s)
     \<and> vh_mem t = vh_mem s \<and> args_heap t = args_heap s"
  using defaultExceptionHandler_outcomes [OF assms]
  by (auto simp: handler_status_defs same_but_ve_def)

text \<open>
  A system call of the forbidden set is never executed: the VE thread is resumed with
  \<^verbatim>\<open>-ENOSYS\<close> and the handler loop goes on.
\<close>

theorem forbidden_syscall_refused:
  assumes "vedl_get_syscall_num E (os_handle (tc s)) (os s) \<in> nr E ` set default_filtered_syscalls"
  shows "handle_syscall E (Some (defaultFilter E)) s =
     Some (Inr 0, s\<lparr>os := un_block_and_retval_req E (os_handle (tc s))
            (vedl_get_syscall_num E (os_handle (tc s)) (os s)) (- 38) (os s)\<rparr>)"
  using assms by (simp add: handle_syscall_def defaultFilter_eq ENOSYS_def)

section \<open>The handler returns\<close>

text \<open>
  The environment makes progress towards \<open>m = 0\<close> on handle \<open>h\<close>: each wait either ends the
  handler (a failure of the driver, a hardware error, or a block request), or uses up some
  of \<open>m\<close>, which handling a system call does not give back.
\<close>

definition ve_progress :: "'os veos \<Rightarrow> nat \<Rightarrow> ('os \<Rightarrow> nat) \<Rightarrow> bool" where
  "ve_progress E h m \<longleftrightarrow>
     (\<forall>w. case vedl_wait_exception E h w of ((ret, err, exs), w') \<Rightarrow>
        ret \<noteq> 0 \<and> \<not> (ret = - 1 \<and> err = EINTR)
        \<or> ret = 0 \<and> exs AND VEO_EXCEPTION_MASK \<noteq> 0
          \<and> (is_error_exs E exs
             \<or> exs AND EXS_MONC E \<noteq> 0
               \<and> vedl_get_syscall_num E h w' \<notin> nr E ` set default_filtered_syscalls
               \<and> is_veo_block E h (vedl_get_syscall_num E h w') w')
        \<or> m w' < m w)
     \<and> (\<forall>n w. m (ve_syscall_handler E h n w) \<le> m w)
     \<and> (\<forall>n v w. m (un_block_and_retval_req E h n v w) \<le> m w)
     \<and> (\<forall>w. m (block_syscall_req_ve_os E h w) \<le> m w)"

lemma wait_exception_returns:
  assumes "ve_progress E h m"
  shows "\<exists>r w'. wait_exception E h w = Some (r, w')
     \<and> (\<forall>exs. r = Inr exs \<longrightarrow>
          m w' < m w
          \<or> is_error_exs E exs
          \<or> exs AND EXS_MONC E \<noteq> 0
            \<and> vedl_get_syscall_num E h w' \<notin> nr E ` set default_filtered_syscalls
            \<and> is_veo_block E h (vedl_get_syscall_num E h w') w')"
proof (induction "m w" arbitrary: w rule: less_induct)
  case less
  obtain ret err exs w' where w: "vedl_wait_exception E h w = ((ret, err, exs), w')"
    by (metis surj_pair)
  show ?case
  proof (cases "ret = - 1 \<and> err = EINTR \<or> ret = 0 \<and> exs AND VEO_EXCEPTION_MASK = 0")
    case True
    then have eq: "wait_exception E h w = wait_exception E h w'"
      by (subst wait_exception.simps) (auto simp: w)
    have "m w' < m w"
      using assms True by (auto simp: ve_progress_def dest!: spec [of _ w] simp: w)
    from less [OF this] \<open>m w' < m w\<close> show ?thesis
      unfolding eq by (meson order.strict_trans)
  next
    case False
    then show ?thesis
      using assms
      by (subst wait_exception.simps, auto simp: w ve_progress_def dest!: spec [of _ w])
  qed
qed

lemma handle_syscall_progress:
  assumes "ve_progress E (os_handle (tc s)) m"
    and "handle_syscall E (Some (defaultFilter E)) s = Some (Inr flag, t)"
  shows "m (os t) \<le> m (os s)"
  using assms
  by (auto simp: handle_syscall_def bindP_def defaultFilter_eq set_state_def os_do_def ve_progress_def
      split: if_splits)

lemma handleSingleException_progress:
  assumes prog: "ve_progress E (os_handle (tc s)) m"
  shows "\<exists>r t. handleSingleException E (Some (defaultFilter E)) s = Some (r, t)
     \<and> (\<forall>exs. r = Inr (0, exs) \<longrightarrow> m (os t) < m (os s))"
proof -
  let ?h = "os_handle (tc s)"
  obtain r w where w: "wait_exception E ?h (os s) = Some (r, w)"
    and dec: "\<And>exs. r = Inr exs \<Longrightarrow> m w < m (os s) \<or> is_error_exs E exs
       \<or> exs AND EXS_MONC E \<noteq> 0
         \<and> vedl_get_syscall_num E ?h w \<notin> nr E ` set default_filtered_syscalls
         \<and> is_veo_block E ?h (vedl_get_syscall_num E ?h w) w"
    using wait_exception_returns [OF prog, of "os s"] by blast
  show ?thesis
  proof (cases r)
    case (Inl e)
    then show ?thesis by (simp add: handleSingleException_def wait_exceptionP_def w)
  next
    case (Inr exs)
    let ?u = "s\<lparr>os := w\<rparr>"
    have u: "wait_exceptionP E s = Some (Inr exs, ?u)"
      by (simp add: wait_exceptionP_def w Inr)
    obtain flag v where v: "(if exs AND EXS_MONC E \<noteq> 0 then handle_syscall E (Some (defaultFilter E))
        else returnP 0) ?u = Some (Inr flag, v)"
      using default_filter.handle_syscall_returns [of E E ?u]
      by (cases "exs AND EXS_MONC E \<noteq> 0") auto
    have "m (os v) \<le> m w"
      using v handle_syscall_progress [of E ?u m flag v] prog by (auto split: if_splits)
    moreover have "flag \<noteq> 0" if "\<not> m w < m (os s)" "\<not> is_error_exs E exs"
      using dec [OF Inr] that v
      by (auto simp: handle_syscall_def defaultFilter_eq handler_status_defs)
    ultimately have "m (os v) < m (os s)" if "flag = 0" "\<not> is_error_exs E exs"
      using that by (meson le_less_trans)
    then show ?thesis
      using u v by (auto simp: handleSingleException_def os_do_def handler_status_defs)
  qed
qed

text \<open>
  C35: the default handler returns whenever the VE side makes progress: spurious wake-ups,
  interrupted waits and system calls can delay it only finitely often.
\<close>

theorem default_handler_returns:
  assumes "ve_progress E (os_handle (tc s)) m"
  shows "\<exists>r t. defaultExceptionHandler E exc s = Some (r, t)"
  using assms unfolding defaultExceptionHandler_def
proof (induction "m (os s)" arbitrary: s exc rule: less_induct)
  case less
  show ?case
  proof (cases "ctx_state (tc s) = VEO_STATE_RUNNING")
    case True
    obtain r t where h: "handleSingleException E (Some (defaultFilter E)) s = Some (r, t)"
      and dec: "\<And>exs. r = Inr (0, exs) \<Longrightarrow> m (os t) < m (os s)"
      using handleSingleException_progress [OF less.prems] by blast
    show ?thesis
    proof (cases "\<exists>exs. r = Inr (0, exs)")
      case r: True
      then obtain exs where r: "r = Inr (0, exs)" by blast
      have "os_handle (tc t) = os_handle (tc s)"
        using default_filter.handleSingleException_state [of E E s 0 exs t] h r True
        by (simp add: same_but_ve_def)
      then have "\<exists>r' t'. exceptionHandler E (defaultFilter E) exs t = Some (r', t')"
        using less.hyps [OF dec [OF r], of exs] less.prems by simp
      with True h r show ?thesis by (subst exceptionHandler.simps) simp
    next
      case False
      then show ?thesis
        using True h by (subst exceptionHandler.simps) (cases r, auto)
    qed
  qed (subst exceptionHandler.simps, simp)
qed

section \<open>Starting a function\<close>

text \<open>
  What the calling convention needs of the environment: \<open>reg w r\<close> reads scalar register \<open>r\<close> of
  the VE thread and \<open>vmem w\<close> the memory of the VE process; \<^verbatim>\<open>ve_set_user_reg\<close> sets one register
  and \<^verbatim>\<open>ve_send_data\<close> stores the bytes in memory, each leaving the rest alone.
\<close>

definition ve_machine ::
  "'os veos \<Rightarrow> nat \<Rightarrow> ('os \<Rightarrow> nat \<Rightarrow> u64) \<Rightarrow> ('os \<Rightarrow> memory) \<Rightarrow> bool" where
  "ve_machine E h reg vmem \<longleftrightarrow>
     (\<forall>r v w. reg (ve_set_user_reg E h r v w) = (reg w)(r := v)
            \<and> vmem (ve_set_user_reg E h r v w) = vmem w)
     \<and> (\<forall>a bs w. reg (snd (ve_send_data E h a bs w)) = reg w
            \<and> vmem (snd (ve_send_data E h a bs w)) = mem_write (vmem w) a bs)"

fun put_registers :: "'os veos \<Rightarrow> nat \<Rightarrow> nat \<Rightarrow> u64 list \<Rightarrow> 'os \<Rightarrow> 'os" where
  "put_registers E h i [] w = w"
| "put_registers E h i (v # vs) w = put_registers E h (Suc i) vs (ve_set_user_reg E h i v w)"

lemma set_registers_eq:
  "set_registers E i vs s = Some (Inr (), s\<lparr>os := put_registers E (os_handle (tc s)) i vs (os s)\<rparr>)"
  by (induction vs arbitrary: i s) (simp_all add: os_do_def SR00_def)

lemma put_registers_reg:
  assumes "ve_machine E h reg vmem"
  shows "reg (put_registers E h i vs w) r = (if i \<le> r \<and> r < i + length vs then vs ! (r - i) else reg w r)"
    and "vmem (put_registers E h i vs w) = vmem w"
  using assms
  by (induction vs arbitrary: i w) (auto simp: ve_machine_def nth_Cons')

lemma doCall_eq:
  fixes E :: "'os veos" and addr :: u64
  assumes "args_heap s ref = Some ca" and "arguments ca = map Some as"
    and "int (image_size as) \<le> INT_MAX"
  defines "sp \<equiv> ve_sp (tc s) - of_nat (image_size as)"
  defines "ca' \<equiv> set_up ca (vh_mem s) sp as"
    and "regs \<equiv> map (\<lambda>a. projr (arg_getRegVal a)) (take 8 (place_all sp as (slot_off (length as))))"
    and "h \<equiv> os_handle (tc s)"
  defines "w \<equiv> ve_set_user_reg E h SR11 sp (copyin (ve_send_data E h) ca'
      (put_registers E h 0 regs (ve_set_user_reg E h SR12 addr (os s))))"
  shows "doCall E addr ref s = Some (Inr (),
     s\<lparr>os := un_block_and_retval_req E h NR_ve_sysve (if length regs > 0 then regs ! 0 else 0) w,
       args_heap := (args_heap s)(ref \<mapsto> ca'),
       tc := (tc s)\<lparr>ve_sp := sp, ctx_state := VEO_STATE_RUNNING\<rparr>\<rparr>)"
proof -
  have "CallArgs.getRegVal ca' = Inr regs"
    using regvals_loop_eq [OF place_all_getRegVal [of sp as "slot_off (length as)"], of 0 "[]"]
    by (simp add: getRegVal_def ca'_def set_up_def NUM_ARGS_ON_REGISTER_def regs_def)
  moreover have "length regs \<le> NUM_ARGS_ON_REGISTER"
    by (simp add: regs_def NUM_ARGS_ON_REGISTER_def)
  moreover have "setup_args (vh_mem s) ca (ve_sp (tc s)) = Inr (ca', sp)"
    unfolding ca'_def sp_def by (rule setup_args_fits [OF assms(2,3)])
  ultimately show ?thesis
    using assms(1)
    by (simp add: doCall_def os_do_def setup_call_def set_registers_eq unBlock_def set_state_def
        w_def h_def)
qed

text \<open>
  The calling convention.  When \<^verbatim>\<open>_doCall\<close> resumes the VE thread, register 12 holds the
  address of the function, register 11 and \<^verbatim>\<open>ve_sp\<close> the bottom of the new frame, registers 0
  to 7 the first arguments in order, and, if the arguments ask for it, VE memory holds the
  complete stack image from that address on; the context is RUNNING.
\<close>

theorem doCall_convention:
  assumes "ve_machine E (os_handle (tc s)) reg vmem"
    and "args_heap s ref = Some ca" and "arguments ca = map Some as"
    and "int (image_size as) \<le> INT_MAX"
  shows "\<exists>t w sr0. doCall E addr ref s = Some (Inr (), t)
     \<and> os t = un_block_and_retval_req E (os_handle (tc s)) NR_ve_sysve sr0 w
     \<and> ctx_state (tc t) = VEO_STATE_RUNNING
     \<and> reg w 12 = addr \<and> reg w 11 = ve_sp (tc t)
     \<and> ve_sp (tc t) = ve_sp (tc s) - of_nat (image_size as)
     \<and> (\<forall>i < min 8 (length as).
          arg_getRegVal (arg_at (ve_sp (tc t)) (data_off as i) (as ! i)) = Inr (reg w i))
     \<and> (as \<noteq> [] \<longrightarrow> sr0 = reg w 0)
     \<and> (any_flag_in as 0 \<longrightarrow>
          mem_read (vmem w) (ve_sp (tc t)) (image_size as) = image_of (vh_mem s) (ve_sp (tc t)) as)
     \<and> (\<not> any_flag_in as 0 \<longrightarrow> vmem w = vmem (os s))"
proof -
  let ?h = "os_handle (tc s)" and ?sp = "ve_sp (tc s) - of_nat (image_size as)"
  let ?ca = "set_up ca (vh_mem s) ?sp as"
  let ?regs = "map (\<lambda>a. projr (arg_getRegVal a)) (take 8 (place_all ?sp as (slot_off (length as))))"
  let ?sr0 = "if length ?regs > 0 then ?regs ! 0 else 0"
  let ?w1 = "put_registers E ?h 0 ?regs (ve_set_user_reg E ?h SR12 addr (os s))"
  let ?w = "ve_set_user_reg E ?h SR11 ?sp (copyin (ve_send_data E ?h) ?ca ?w1)"
  note regs1 = put_registers_reg [OF assms(1)]
  have reg: "reg ?w = (reg ?w1)(11 := ?sp)"
    using assms(1) by (simp add: ve_machine_def copyin_def SR11_def)
  have "reg ?w1 12 = addr"
    using assms(1) by (simp add: regs1 ve_machine_def SR12_def)
  moreover have "arg_getRegVal (arg_at ?sp (data_off as i) (as ! i)) = Inr (reg ?w i)"
    if "i < min 8 (length as)" for i
    using that arg_getRegVal_arg_at [of ?sp "data_off as i" "as ! i"]
    by (auto simp: reg regs1 place_all_nth_data_off)
  moreover have "mem_read (vmem ?w) ?sp (image_size as) = image_of (vh_mem s) ?sp as"
    if "any_flag_in as 0"
    using that assms(1,4)
    by (simp add: copyin_def set_up_def ve_machine_def mem_simps INT_MAX_def)
  moreover have "vmem ?w = vmem (os s)" if "\<not> any_flag_in as 0"
    using that assms(1) regs1(2) by (simp add: copyin_def set_up_def ve_machine_def)
  moreover have "?sr0 = reg ?w 0" if "as \<noteq> []"
    using that by (simp add: reg regs1)
  moreover obtain t where "doCall E addr ref s = Some (Inr (), t)"
      "os t = un_block_and_retval_req E ?h NR_ve_sysve ?sr0 ?w"
      "ctx_state (tc t) = VEO_STATE_RUNNING" "ve_sp (tc t) = ?sp"
    using doCall_eq [OF assms(2,3,4), of E addr] by simp
  ultimately show ?thesis
    using reg by (intro exI [of _ t] exI [of _ ?w] exI [of _ ?sr0]) simp
qed

end
