(* ===== verification/EventLoop.thy ===== *)
theory EventLoop
  imports ThreadContext
begin

text \<open>
  The two sides of a context (\<^verbatim>\<open>src/libveo/ThreadContext.cpp\<close>, \<^verbatim>\<open>src/libveo/AsyncTransfer.cpp\<close>):
  the event loop of the pseudo thread, and the requests that threads of the VH program make.

  Here one VH thread and the pseudo thread take turns: a VH thread that waits for a result
  lets the pseudo thread run until the result is there.  Arbitrary interleavings of several
  threads are the subject of theory \<open>Interleaving\<close>.
\<close>

section \<open>The event loop\<close>

text \<open>
  One iteration of the loop: the condition fails (\<open>LoopEnded\<close>), the thread waits in
  \<^verbatim>\<open>popRequest\<close> (\<open>LoopWaiting\<close>), or one command is executed.
\<close>

datatype loop_status = LoopWaiting | LoopContinue | LoopEnded

definition set_comq :: "closure comm_queue \<Rightarrow> 'os tstate \<Rightarrow> 'os tstate" where
  "set_comq q s = s\<lparr>tc := (tc s)\<lparr>comq := q\<rparr>\<rparr>"

definition finish_command :: "int \<Rightarrow> cmd \<Rightarrow> ('os tstate, loop_status) prog" where
  "finish_command rv cmd =
     (if rv \<noteq> 0
      then bindP (set_state VEO_STATE_EXIT)
             (\<lambda>_. bindP (modifyP (\<lambda>s. set_comq (setRequestStatus (comq (tc s)) VEO_QUEUE_CLOSED) s))
             (\<lambda>_. bindP (modifyP (\<lambda>s. set_comq (pushCompletion (comq (tc s)) cmd) s))
             (\<lambda>_. bindP (modifyP (\<lambda>s. set_comq (setCompletion (comq (tc s))) s))
             (\<lambda>_. returnP LoopEnded))))
      else bindP (modifyP (\<lambda>s. set_comq (pushCompletion (comq (tc s)) cmd) s))
             (\<lambda>_. returnP LoopContinue))"

definition eventLoop_iter :: "'os veos \<Rightarrow> ('os tstate, loop_status) prog" where
  "eventLoop_iter E s =
     (if ctx_state (tc s) = VEO_STATE_BLOCKED
      then (case popRequest (comq (tc s)) of
              None \<Rightarrow> returnP LoopWaiting s
            | Some (command, q) \<Rightarrow>
                bindP (run_command E (cmd_handler command) command)
                  (\<lambda>(rv, command'). finish_command rv command') (set_comq q s))
      else returnP LoopEnded s)"

text \<open>The loop, until it ends or has to wait for a request.\<close>

partial_function (option) eventLoop ::
  "'os veos \<Rightarrow> 'os tstate \<Rightarrow> (loop_status result \<times> 'os tstate) option" where
  "eventLoop E s =
     Option.bind (eventLoop_iter E s)
       (\<lambda>(r, s'). case r of
                     Inl e \<Rightarrow> Some (Inl e, s')
                   | Inr st \<Rightarrow> if st = LoopContinue then eventLoop E s' else Some (Inr st, s'))"

text \<open>\<^verbatim>\<open>startEventLoop\<close> of a child context.\<close>

definition startEventLoop :: "'os veos \<Rightarrow> nat \<Rightarrow> ('os tstate, loop_status) prog" where
  "startEventLoop E newhdl =
     bindP (modifyP (\<lambda>s. s\<lparr>tc := thread_started newhdl (tc s)\<rparr>))
       (\<lambda>_. bindP (defaultExceptionHandler E 0)
       (\<lambda>(status, exs).
          if status = VEO_HANDLER_STATUS_BLOCK_REQUESTED
          then bindP (collectReturnValue E) (\<lambda>_. eventLoop E)
          else if status = VEO_HANDLER_STATUS_EXCEPTION
          then bindP (set_state VEO_STATE_EXIT) (\<lambda>_. returnP LoopEnded)
          else bindP (set_state VEO_STATE_EXIT) (\<lambda>_. returnP LoopEnded)))"

text \<open>Where the thread of a child context begins.\<close>

definition start_child_thread :: "'os veos \<Rightarrow> nat \<Rightarrow> ('os tstate, loop_status) prog" where
  [simp]: "start_child_thread E os_hdl = startEventLoop E os_hdl"

section \<open>Request IDs\<close>

text \<open>The loop of \<^verbatim>\<open>issueRequestID\<close>: the value fetched and the counter after it.\<close>

function fetch_id :: "u64 \<Rightarrow> u64 \<times> u64" where
  "fetch_id n = (if n = VEO_REQUEST_ID_INVALID then fetch_id (n + 1) else (n, n + 1))"
  by pat_completeness auto
termination
  by (relation "measure (\<lambda>n. if n = VEO_REQUEST_ID_INVALID then 1 else 0)") auto

declare fetch_id.simps [simp del]

definition issueRequestID :: "('os tstate, u64) prog" where
  "issueRequestID s =
     (case fetch_id (seq_no (tc s)) of (ret, n) \<Rightarrow>
        returnP ret (s\<lparr>tc := (tc s)\<lparr>seq_no := n, rem_reqid := insert ret (rem_reqid (tc s))\<rparr>\<rparr>))"

text \<open>\<^verbatim>\<open>this->comq.pushRequest(std::move(req))\<close>\<close>

definition push_request :: "u64 \<Rightarrow> closure \<Rightarrow> ('os tstate, int) prog" where
  "push_request i f s =
     (case pushRequest (comq (tc s)) (new_Command i f) of (rv, q) \<Rightarrow> returnP rv (set_comq q s))"

text \<open>
  What the asynchronous requests share: nothing is done in state EXIT; otherwise an ID is
  issued and the command pushed, and a refused push gives the invalid ID.
\<close>

definition submit :: "closure \<Rightarrow> ('os tstate, u64) prog" where
  "submit f =
     bindP issueRequestID
       (\<lambda>i. bindP (push_request i f)
       (\<lambda>rv. if rv \<noteq> 0 then returnP VEO_REQUEST_ID_INVALID else returnP i))"

definition callAsync :: "u64 \<Rightarrow> nat \<Rightarrow> ('os tstate, u64) prog" where
  "callAsync addr ref s =
     (if addr = 0 \<or> ctx_state (tc s) = VEO_STATE_EXIT then returnP VEO_REQUEST_ID_INVALID s
      else submit (CallFunction addr ref) s)"

text \<open>\<^verbatim>\<open>callVHAsync\<close> does not look at the result of the push.\<close>

definition callVHAsync :: "u64 \<Rightarrow> u64 \<Rightarrow> ('os tstate, u64) prog" where
  "callVHAsync func arg s =
     (if func = 0 \<or> ctx_state (tc s) = VEO_STATE_EXIT then returnP VEO_REQUEST_ID_INVALID s
      else bindP issueRequestID
             (\<lambda>i. bindP (push_request i (CallVH func arg)) (\<lambda>_. returnP i)) s)"

definition callOpenContext :: "u64 \<Rightarrow> nat \<Rightarrow> ('os tstate, u64) prog" where
  "callOpenContext addr ref s =
     (if ctx_state (tc s) = VEO_STATE_EXIT then returnP VEO_REQUEST_ID_INVALID s
      else submit (OpenContext addr ref) s)"

definition asyncReadMem :: "u64 \<Rightarrow> u64 \<Rightarrow> u64 \<Rightarrow> ('os tstate, u64) prog" where
  "asyncReadMem dst src sz s =
     (if ctx_state (tc s) = VEO_STATE_EXIT then returnP VEO_REQUEST_ID_INVALID s
      else submit (ReadMem dst src sz) s)"

definition asyncWriteMem :: "u64 \<Rightarrow> u64 \<Rightarrow> u64 \<Rightarrow> ('os tstate, u64) prog" where
  "asyncWriteMem dst src sz s =
     (if ctx_state (tc s) = VEO_STATE_EXIT then returnP VEO_REQUEST_ID_INVALID s
      else submit (WriteMem dst src sz) s)"

section \<open>Results\<close>

text \<open>
  \<^verbatim>\<open>callPeekResult\<close>: the status and the value stored through \<^verbatim>\<open>retp\<close>, if one is.  The whole body
  runs under \<^verbatim>\<open>req_mtx\<close>, so that \<^verbatim>\<open>erase\<close> finds the ID the lookup found.
\<close>

definition read_result :: "cmd \<Rightarrow> ('os tstate, int \<times> u64 option) prog" where
  "read_result c =
     bindP (resultP (getRetval c)) (\<lambda>v. bindP (resultP (getStatus c)) (\<lambda>st. returnP (st, Some v)))"

definition callPeekResult :: "u64 \<Rightarrow> ('os tstate, int \<times> u64 option) prog" where
  "callPeekResult reqid s =
     (if reqid \<notin> rem_reqid (tc s) then returnP (VEO_COMMAND_ERROR, None) s
      else case peekCompletion (comq (tc s)) reqid of
             (None, q) \<Rightarrow> returnP (VEO_COMMAND_UNFINISHED, None) (set_comq q s)
           | (Some c, q) \<Rightarrow>
               read_result c
                 (s\<lparr>tc := (tc s)\<lparr>comq := q, rem_reqid := rem_reqid (tc s) - {reqid}\<rparr>\<rparr>))"

text \<open>
  \<^verbatim>\<open>waitCompletion(id)\<close> of a VH thread, the pseudo thread running meanwhile: the command as soon
  as it is in the completion queue; no return when the pseudo thread waits for requests or
  has ended without completing it.  A fault of the pseudo thread other than its own end
  stops the process.
\<close>

definition take_completion :: "u64 \<Rightarrow> ('os tstate, cmd) prog" where
  "take_completion i s =
     (case waitCompletion (comq (tc s)) i of
        None \<Rightarrow> None
      | Some (c, q) \<Rightarrow> returnP c (set_comq q s))"

partial_function (option) await ::
  "'os veos \<Rightarrow> u64 \<Rightarrow> 'os tstate \<Rightarrow> (cmd result \<times> 'os tstate) option" where
  "await E i s =
     (case take_completion i s of
        Some r \<Rightarrow> Some r
      | None \<Rightarrow>
          Option.bind (eventLoop_iter E s)
            (\<lambda>(r, s'). case r of
                Inl e \<Rightarrow> if e = ThreadExit then take_completion i s' else Some (Inl e, s')
              | Inr st \<Rightarrow> if st = LoopContinue then await E i s' else take_completion i s'))"

definition callWaitResult :: "'os veos \<Rightarrow> u64 \<Rightarrow> ('os tstate, int \<times> u64 option) prog" where
  "callWaitResult E reqid s =
     (if reqid \<notin> rem_reqid (tc s) then returnP (VEO_COMMAND_ERROR, None) s
      else bindP (modifyP (\<lambda>s. s\<lparr>tc := (tc s)\<lparr>rem_reqid := rem_reqid (tc s) - {reqid}\<rparr>\<rparr>))
             (\<lambda>_. bindP (await E reqid) read_result) s)"

text \<open>\<^verbatim>\<open>close()\<close>: after a refused push it waits for a completion with the invalid ID.\<close>

definition close :: "'os veos \<Rightarrow> ('os tstate, int) prog" where
  "close E s =
     (if ctx_state (tc s) = VEO_STATE_EXIT then returnP 0 s
      else bindP issueRequestID
             (\<lambda>i. bindP (push_request i (CloseContext i))
             (\<lambda>rv. bindP (await E (if rv \<noteq> 0 then VEO_REQUEST_ID_INVALID else i))
             (\<lambda>c. bindP (resultP (getRetval c))
             (\<lambda>v. returnP (sint (ucast v :: u32)))))) s)"

section \<open>Attributes of a context\<close>

record thread_context_attr = stacksize :: u64

definition VEO_DEFAULT_STACK_SIZE :: u64 where "VEO_DEFAULT_STACK_SIZE = 0x4000000"
definition VEO_STACK_MIN :: u64 where "VEO_STACK_MIN = 4 * 1024 * 1024"

definition new_ThreadContextAttr :: thread_context_attr where
  "new_ThreadContextAttr = \<lparr>stacksize = VEO_DEFAULT_STACK_SIZE\<rparr>"

definition setStacksize :: "thread_context_attr \<Rightarrow> u64 \<Rightarrow> thread_context_attr result" where
  "setStacksize attr stack_sz =
     (if stack_sz < VEO_STACK_MIN
      then Inl (VEOException ''invalid stack size of VEO context'' EINVAL)
      else Inr (attr\<lparr>stacksize := stack_sz\<rparr>))"

end
