(* ===== verification/Examples.thy ===== *)
theory Examples
  imports Example_Machine VeExecution EventLoop
begin

text \<open>
  Concrete instances of the properties of the components: each applies one property at an
  input where its hypotheses hold.
\<close>

section \<open>Arguments\<close>

definition ex_args :: "arg_base list" where
  "ex_args =
     [ArgOnStack 4096 5 True False None, ArgI32 (- 2), ArgFloat 0x3f800000, ArgU8 7,
      ArgI64 1, ArgI64 2, ArgI64 3, ArgI64 4, ArgI32 (- 2), ArgOnStack 8192 16 True True None]"

definition ex_call :: call_args where
  "ex_call = raw_args\<lparr>arguments := map Some ex_args\<rparr>"

definition out_args :: "arg_base list" where
  "out_args =
     [ArgI64 0, ArgI64 1, ArgI64 2, ArgI64 3, ArgI64 4, ArgI64 5, ArgI64 6, ArgI64 7,
      ArgOnStack 4096 8 False True None]"

definition ex_vh :: memory where "ex_vh a = ucast a"

lemma ex_args_facts:
  "arguments ex_call = map Some ex_args" "length ex_args = 10"
  "image_size ex_args = 280" "image_size out_args = 256" "length out_args = 9"
  by (simp_all add: ex_call_def ex_args_def out_args_def image_size_def slot_off_def data_size_def
      PARAM_AREA_OFFSET_def)

lemma ex_args_fit: "int (image_size ex_args) \<le> INT_MAX" "int (image_size out_args) \<le> INT_MAX"
  by (simp_all add: ex_args_facts INT_MAX_def)


theorem setup_null_slot_witness:
  "setup_args ex_vh (raw_args\<lparr>arguments := [None, Some (ArgI64 1)]\<rparr>) 0x10000 = Inl UndefinedBehaviour"
  by (rule setup_null_slot) simp

theorem setup_frame_witness:
  "\<exists>ca' buf. setup_args ex_vh ex_call 0x10000 = Inr (ca', 0x10000 - 280)
     \<and> stack_buf ca' = Some buf \<and> length buf = 280"
  using setup_frame [OF ex_args_facts(1) ex_args_fit(1), of ex_vh "0x10000"]
  by (auto simp: ex_args_facts)



theorem setup_registers_witness:
  "\<exists>ca' sp' regs. setup_args ex_vh ex_call 0x10000 = Inr (ca', sp') \<and> CallArgs.getRegVal ca' = Inr regs
     \<and> length regs = 8 \<and> regs ! 1 = - 2"
proof -
  obtain ca' sp' regs where *: "setup_args ex_vh ex_call 0x10000 = Inr (ca', sp')"
      "CallArgs.getRegVal ca' = Inr regs" "length regs = 8"
      "\<forall>i < 8. arg_getRegVal (arg_at sp' (data_off ex_args i) (ex_args ! i)) = Inr (regs ! i)"
    using setup_registers [OF ex_args_facts(1) ex_args_fit(1), of ex_vh "0x10000"]
    by (auto simp: ex_args_facts)
  from *(4) have "arg_getRegVal (arg_at sp' (data_off ex_args 1) (ex_args ! 1)) = Inr (regs ! 1)"
    by simp
  then have "regs ! 1 = - 2"
    by (simp add: ex_args_def)
  with * show ?thesis by blast
qed

theorem setup_flags_witness:
  "\<exists>ca' sp'. setup_args ex_vh ex_call 0x10000 = Inr (ca', sp') \<and> copied_in ca' \<and> copied_out ca'"
  using setup_flags [OF ex_args_facts(1) ex_args_fit(1), of ex_vh "0x10000"]
  by (auto simp: ex_args_def)

theorem output_pointer_not_transferred_witness:
  "\<exists>ca' sp' buf. setup_args ex_vh (raw_args\<lparr>arguments := map Some out_args\<rparr>) 0x10000 = Inr (ca', sp')
     \<and> stack_buf ca' = Some buf
     \<and> le_word (slice 240 8 buf) = sp' + of_nat (data_off out_args 8)
     \<and> copyin (\<lambda>a bs m. (0, mem_write m a bs)) ca' (\<lambda>_. 7) = (\<lambda>_. 7)"
proof -
  have "\<forall>j < length out_args. if is_ArgOnStack (out_args ! j) then \<not> arg_in (out_args ! j) else j < 8"
    by (auto simp: out_args_def nth_Cons less_Suc_eq split: nat.splits)
  moreover have "is_ArgOnStack (out_args ! 8)"
    by (simp add: out_args_def)
  ultimately show ?thesis
    using output_pointer_not_transferred [OF _ ex_args_fit(2), of "raw_args\<lparr>arguments := map Some out_args\<rparr>"
        8 ex_vh "0x10000" "\<lambda>a bs m. (0, mem_write m a bs)" "\<lambda>_. 7"]
    by (simp add: ex_args_facts)
qed

theorem copyout_delivers_witness:
  "\<exists>ca' sp' vh'. setup_args ex_vh ex_call 0x10000 = Inr (ca', sp')
     \<and> copyout (\<lambda>a n s. ((0, replicate n 7), s)) ca' ex_vh () = (Inr (ca'\<lparr>stack_buf := Some (replicate 280 7)\<rparr>, vh'), ())
     \<and> mem_read vh' 8192 16 = slice (data_off ex_args 9) 16 (replicate 280 7)"
proof -
  note fits = setup_args_fits [OF ex_args_facts(1) ex_args_fit(1), of ex_vh "0x10000"]
  have "flag_out (ex_args ! i) \<Longrightarrow> i < length ex_args \<Longrightarrow> i = 9" for i
    by (auto simp: ex_args_def less_Suc_eq nth_Cons split: nat.splits)
  then have sep: "\<forall>i < length ex_args. \<forall>j < length ex_args. i \<noteq> j \<longrightarrow> flag_out (ex_args ! i)
      \<longrightarrow> flag_out (ex_args ! j) \<longrightarrow>
      disjoint_ranges (arg_buff (ex_args ! i)) (unat (arg_len (ex_args ! i)))
        (arg_buff (ex_args ! j)) (unat (arg_len (ex_args ! j)))"
    by metis
  have "copied_out (set_up ex_call ex_vh (0x10000 - of_nat (image_size ex_args)) ex_args)"
    by (simp add: set_up_def ex_args_def)
  from copyout_delivers [OF ex_args_facts(1) ex_args_fit(1) fits, where s = "()" and rv = 0
      and xfer = "\<lambda>a n s. ((0, replicate n 7), s)", OF refl _ this sep, of ex_vh]
  obtain vh' where "copyout (\<lambda>a n s. ((0, replicate n 7), s))
        (set_up ex_call ex_vh (0x10000 - of_nat (image_size ex_args)) ex_args) ex_vh ()
      = (Inr ((set_up ex_call ex_vh (0x10000 - of_nat (image_size ex_args)) ex_args)
           \<lparr>stack_buf := Some (replicate (image_size ex_args) 7)\<rparr>, vh'), ())"
    and "\<forall>i < length ex_args. flag_out (ex_args ! i) \<longrightarrow>
          mem_read vh' (arg_buff (ex_args ! i)) (unat (arg_len (ex_args ! i)))
            = slice (data_off ex_args i) (unat (arg_len (ex_args ! i))) (replicate (image_size ex_args) 7)"
    by auto
  moreover from this(2) have "mem_read vh' 8192 16 = slice (data_off ex_args 9) 16 (replicate (image_size ex_args) 7)"
    by (auto simp: ex_args_def dest!: spec [of _ 9])
  ultimately show ?thesis
    using fits by (auto simp: ex_args_facts(3))
qed


theorem store_arg_valid_witness:
  "\<exists>ca'. store_arg raw_args 2 (ArgI64 5) = Inr ca' \<and> length (arguments ca') = 3
     \<and> arguments ca' ! 2 = Some (ArgI64 5) \<and> arguments ca' ! 0 = None"
  using store_arg_valid [of 2 raw_args "ArgI64 5"] by (auto simp: raw_args_def INT_MAX_def)

theorem store_arg_invalid_witness:
  "store_arg raw_args (- 3) (ArgI64 5)
     \<in> {Inl UndefinedBehaviour, Inl (StdException ''length_error'')}"
  by (rule store_arg_invalid) simp

section \<open>Queues\<close>

definition ex_commands :: "closure command list" where
  "ex_commands = [new_Command 0 DummyReply, new_Command 1 (CallVH 8 9)]"

theorem requests_fifo_witness:
  "pop_requests (length ex_commands) (push_requests new_CommQueue ex_commands)
     = Some (ex_commands, new_CommQueue\<lparr>request := (request new_CommQueue)\<lparr>bq_queue := []\<rparr>\<rparr>)"
  using requests_fifo [of new_CommQueue "[]" ex_commands]
  by (simp add: state_simps)

theorem waitCompletion_delivers_once_witness:
  "\<exists>c q'. waitCompletion (new_CommQueue\<lparr>completion := \<lparr>bq_queue = ex_commands, bq_state = VEO_QUEUE_READY\<rparr>\<rparr>) 1
       = Some (c, q') \<and> cmd_id c = 1 \<and> map cmd_id (bq_queue (completion q')) = [0]"
proof -
  let ?q = "new_CommQueue\<lparr>completion := \<lparr>bq_queue = ex_commands, bq_state = VEO_QUEUE_READY\<rparr>\<rparr>"
  have "distinct (map cmd_id (bq_queue (completion ?q)))"
    by (simp add: ex_commands_def state_simps)
  from waitCompletion_delivers_once [OF this, of 1] show ?thesis
    by (cases "waitCompletion ?q 1") (auto simp: ex_commands_def state_simps)
qed

section \<open>VE execution\<close>

definition running_state :: "machine tstate" where
  "running_state = (idle_state ex_call)\<lparr>tc := idle_ctx\<lparr>ctx_state := VEO_STATE_RUNNING\<rparr>\<rparr>"

lemma running_state_sel [simp]:
  "tc running_state = idle_ctx\<lparr>ctx_state := VEO_STATE_RUNNING\<rparr>"
  "os running_state = blocking_machine"
  "os_handle idle_ctx = 3"
  "m_sysnum blocking_machine = 316" "m_sysargs blocking_machine = block_args"
  by (simp_all add: running_state_def idle_state_def idle_ctx_def new_ThreadContext_def
      blocking_machine_def)

lemma wait_blocking_machine:
  "wait_exception machine_veos h blocking_machine = Some (Inr 0x1000, blocking_machine\<lparr>m_events := []\<rparr>)"
  by (subst wait_exception.simps, simp add: blocking_machine_def EINTR_def,
      subst wait_exception.simps, simp add: VEO_EXCEPTION_MASK_def,
      subst wait_exception.simps, simp add: VEO_EXCEPTION_MASK_def)

lemma running_state_handler:
  "\<exists>t. defaultExceptionHandler machine_veos 0 running_state = Some (Inr (1, 0x1000), t)"
  unfolding defaultExceptionHandler_def
  by (subst exceptionHandler.simps)
    (simp add: handleSingleException_def wait_exceptionP_def wait_blocking_machine
      handle_syscall_def defaultFilter_eq default_filtered_syscalls_def is_veo_block_def
      NR_ve_sysve_def block_args_def is_error_exs_def handler_status_defs)

theorem default_handler_outcomes_witness:
  "\<exists>rv exs t. defaultExceptionHandler machine_veos 0 running_state = Some (Inr (rv, exs), t)
     \<and> (rv = 1 \<and> ctx_state (tc t) = VEO_STATE_BLOCKED \<or> rv = - 1)
     \<and> vh_mem t = vh_mem running_state"
proof -
  obtain t where t: "defaultExceptionHandler machine_veos 0 running_state = Some (Inr (1, 0x1000), t)"
    using running_state_handler by blast
  from default_handler_outcomes [OF t] t show ?thesis by auto
qed

theorem forbidden_syscall_refused_witness:
  "handle_syscall machine_veos (Some (defaultFilter machine_veos))
       (running_state\<lparr>os := blocking_machine\<lparr>m_sysnum := 57\<rparr>\<rparr>)
     = Some (Inr 0, running_state\<lparr>os := blocking_machine\<lparr>m_sysnum := 57\<rparr>\<rparr>)"
  using forbidden_syscall_refused [of machine_veos "running_state\<lparr>os := blocking_machine\<lparr>m_sysnum := 57\<rparr>\<rparr>"]
  by (simp add: default_filtered_syscalls_def)

lemma machine_progress: "ve_progress machine_veos h (\<lambda>w. length (m_events w))"
  unfolding ve_progress_def by (auto simp: EINTR_def split: list.split prod.split)

theorem default_handler_returns_witness:
  "\<exists>r t. defaultExceptionHandler machine_veos 0 running_state = Some (r, t)"
  by (rule default_handler_returns [OF machine_progress])

lemma machine_is_ve_machine: "ve_machine machine_veos h m_reg m_mem"
  by (simp add: ve_machine_def)

theorem doCall_convention_witness:
  "\<exists>t. doCall machine_veos 0x600000 0 (idle_state ex_call) = Some (Inr (), t)
     \<and> m_reg (os t) 12 = 0x600000 \<and> m_reg (os t) 11 = 0x10000 - 280 \<and> ve_sp (tc t) = 0x10000 - 280"
proof -
  have "args_heap (idle_state ex_call) 0 = Some ex_call" "ve_sp (tc (idle_state ex_call)) = 0x10000"
    by (simp_all add: idle_state_def idle_ctx_def new_ThreadContext_def)
  with doCall_convention [OF machine_is_ve_machine _ ex_args_facts(1) ex_args_fit(1),
      of "idle_state ex_call" 0 "0x600000"]
  show ?thesis by (auto simp: ex_args_facts)
qed

end
