(* ===== verification/Requests.thy ===== *)
theory Requests
  imports EventLoop VeExecution
begin

text \<open>
  Properties of the event loop and of the requests of VH threads: what executing a command
  leaves alone, the event loop as a function of the list of pending commands, request IDs,
  and the way of a request from its submission to its result.
\<close>

section \<open>What the execution of a command leaves alone\<close>

text \<open>
  A computation keeps a relation when it relates every state to the one it leads to, whether
  it ends normally or not.  The handlers of commands are built from a few elementary changes
  of the state; every preorder that admits these changes is kept by all handlers but that of
  \<^verbatim>\<open>close\<close>.
\<close>

definition keeps_rel :: "('s \<Rightarrow> 's \<Rightarrow> bool) \<Rightarrow> ('s, 'a) prog \<Rightarrow> bool" where
  "keeps_rel R p \<longleftrightarrow> (\<forall>s r t. p s = Some (r, t) \<longrightarrow> R s t)"

named_theorems keeps "computations that keep a relation"

lemma keeps_relI: "(\<And>s r t. p s = Some (r, t) \<Longrightarrow> R s t) \<Longrightarrow> keeps_rel R p"
  by (auto simp: keeps_rel_def)

lemma keeps_relD: "keeps_rel R p \<Longrightarrow> p s = Some (r, t) \<Longrightarrow> R s t"
  by (auto simp: keeps_rel_def)

lemma keeps_if [keeps]:
  "(b \<Longrightarrow> keeps_rel R p) \<Longrightarrow> (\<not> b \<Longrightarrow> keeps_rel R q) \<Longrightarrow> keeps_rel R (if b then p else q)"
  by simp

lemma keeps_pair [keeps]:
  "(\<And>x y. keeps_rel R (p x y)) \<Longrightarrow> keeps_rel R (case z of (x, y) \<Rightarrow> p x y)"
  by (cases z) simp

lemma keeps_let [keeps]: "(\<And>x. keeps_rel R (p x)) \<Longrightarrow> keeps_rel R (Let z p)"
  by simp

lemma keeps_option [keeps]:
  "keeps_rel R p \<Longrightarrow> (\<And>x. keeps_rel R (q x)) \<Longrightarrow> keeps_rel R (case z of None \<Rightarrow> p | Some x \<Rightarrow> q x)"
  by (cases z) simp_all

text \<open>Every preorder is kept by sequences of computations that keep it.\<close>

locale program_frame =
  fixes R :: "'s \<Rightarrow> 's \<Rightarrow> bool"
  assumes R_refl: "R s s"
    and R_trans: "R s t \<Longrightarrow> R t u \<Longrightarrow> R s u"
begin

lemma keeps_basic [keeps]:
  "keeps_rel R (returnP x)" "keeps_rel R (throwP e)" "keeps_rel R (getP g)"
  "keeps_rel R (resultP r)" "keeps_rel R (assertP b)"
  by (auto simp: keeps_rel_def assertP_def R_refl)

lemma keeps_bindP [keeps]:
  assumes "keeps_rel R m" and "\<And>x. keeps_rel R (f x)"
  shows "keeps_rel R (bindP m f)"
proof (rule keeps_relI)
  fix s r t
  assume "bindP m f s = Some (r, t)"
  then show "R s t"
    by (cases rule: bindP_eq_SomeE) (use assms in \<open>auto dest: keeps_relD intro: R_trans\<close>)
qed

lemma keeps_modifyP: "(\<And>s. R s (f s)) \<Longrightarrow> keeps_rel R (modifyP f)"
  by (simp add: keeps_rel_def)

end

locale call_frame = program_frame R
  for R :: "'os tstate \<Rightarrow> 'os tstate \<Rightarrow> bool" +
  assumes R_os: "R s (s\<lparr>os := w\<rparr>)"
    and R_vh_mem: "R s (s\<lparr>vh_mem := m\<rparr>)"
    and R_args_heap: "R s (s\<lparr>args_heap := a\<rparr>)"
    and R_ve_sp: "R s (s\<lparr>tc := (tc s)\<lparr>ve_sp := sp\<rparr>\<rparr>)"
    and R_state: "st \<noteq> VEO_STATE_EXIT \<Longrightarrow> R s (s\<lparr>tc := (tc s)\<lparr>ctx_state := st\<rparr>\<rparr>)"
begin

lemma keeps_modify_parts [keeps]:
  "keeps_rel R (modifyP (\<lambda>s. s\<lparr>vh_mem := m s\<rparr>))"
  "keeps_rel R (modifyP (\<lambda>s. s\<lparr>tc := (tc s)\<lparr>ve_sp := sp\<rparr>\<rparr>))"
  by (rule keeps_modifyP, simp add: R_vh_mem R_ve_sp)+

lemma keeps_primitive [keeps]:
  "st \<noteq> VEO_STATE_EXIT \<Longrightarrow> keeps_rel R (set_state st)"
  "keeps_rel R (os_do f)" "keeps_rel R (os_call g)"
  by (auto simp: keeps_rel_def set_state_def os_do_def os_call_def R_state R_os)

lemma keeps_filters [keeps]:
  "keeps_rel R (defaultFilter E n)" "keeps_rel R (hookCloneFilter E n)" "keeps_rel R (exitFilter E n)"
proof -
  show default: "keeps_rel R (defaultFilter E n)"
    using R_trans [OF R_os R_state] R_os R_refl
    by (auto simp: keeps_rel_def defaultFilter_eq split: if_splits)
  show "keeps_rel R (hookCloneFilter E n)" "keeps_rel R (exitFilter E n)"
    using default by (auto simp: hookCloneFilter_def exitFilter_def intro: keeps)
qed

lemma keeps_wait_exceptionP [keeps]: "keeps_rel R (wait_exceptionP E)"
  by (auto simp: keeps_rel_def wait_exceptionP_def R_os split: option.splits)

lemma keeps_handle_syscall [keeps]:
  "(\<And>n. keeps_rel R (filt n)) \<Longrightarrow> keeps_rel R (handle_syscall E (Some filt))"
  unfolding handle_syscall_def by (auto intro!: keeps)

lemma keeps_handleSingleException [keeps]:
  "(\<And>n. keeps_rel R (filt n)) \<Longrightarrow> keeps_rel R (handleSingleException E (Some filt))"
  unfolding handleSingleException_def by (intro keeps)

lemma keeps_exceptionHandler [keeps]:
  assumes "\<And>n. keeps_rel R (filt n)"
  shows "keeps_rel R (exceptionHandler E filt exc)"
proof (rule keeps_relI)
  fix s r t
  assume run: "exceptionHandler E filt exc s = Some (r, t)"
  let ?P = "\<lambda>E' F (exc :: u64) s (r :: (int \<times> u64) result \<times> 'os tstate).
    E' = E \<longrightarrow> F = filt \<longrightarrow> R s (snd r)"
  have "?P E filt exc s (r, t)"
  proof (rule exceptionHandler.raw_induct [where P = ?P, OF _ run])
    fix g E' F and exc :: u64 and s r
    assume IH: "\<And>E' F exc s r. g E' F exc s = Some r \<Longrightarrow> ?P E' F exc s r"
    assume eq: "(if ctx_state (tc s) = VEO_STATE_RUNNING
      then Option.bind (handleSingleException E' (Some F) s)
             (\<lambda>(r, s'). case r of Inl e \<Rightarrow> Some (Inl e, s')
                | Inr (rv, exc') \<Rightarrow> if rv \<noteq> 0 then Some (Inr (rv, exc'), s') else g E' F exc' s')
      else Some (Inr (VEO_HANDLER_STATUS_TERMINATED, exc), s)) = Some r"
    show "?P E' F exc s r"
    proof (intro impI)
      assume [simp]: "E' = E" "F = filt"
      show "R s (snd r)"
        using eq keeps_relD [OF keeps_handleSingleException [where filt = filt and E = E, OF assms]]
        by (auto simp: R_refl split: if_splits sum.splits bind_splits dest!: IH) (blast intro: R_trans)
    qed
  qed
  then show "R s t" by simp
qed

lemma keeps_set_registers [keeps]: "keeps_rel R (set_registers E i vs)"
  by (simp add: keeps_rel_def set_registers_eq R_os)

lemma keeps_handleCloneRequestP [keeps]: "keeps_rel R (handleCloneRequestP E c)"
  by (auto simp: keeps_rel_def handleCloneRequestP_def R_os split: option.splits)

lemma keeps_call_parts [keeps]:
  "keeps_rel R (unBlock E v)" "keeps_rel R (collectReturnValue E)"
  "keeps_rel R (readMem E dst src sz)" "keeps_rel R (writeMem E dst src sz)"
  unfolding unBlock_def collectReturnValue_def readMem_def writeMem_def
  by (auto intro!: keeps)

lemma keeps_setup_call [keeps]: "keeps_rel R (setup_call ref)"
  using R_trans [OF R_args_heap R_ve_sp]
  by (auto simp: keeps_rel_def setup_call_def R_refl split: option.splits sum.splits)

lemma keeps_copyout_call [keeps]: "keeps_rel R (copyout_call E ref)"
  using R_trans [OF R_args_heap R_trans [OF R_vh_mem R_os]]
  by (auto simp: keeps_rel_def copyout_call_def R_refl R_os split: option.splits sum.splits prod.splits)

lemma keeps_doCall [keeps]: "keeps_rel R (doCall E addr ref)"
  unfolding doCall_def by (intro keeps)

lemma keeps_executeVE [keeps]: "keeps_rel R (executeVE E)"
  unfolding executeVE_def defaultExceptionHandler_def by (intro keeps)

lemma keeps_run_vh [keeps]: "keeps_rel R (run_vh E func arg c)"
  using R_trans [OF R_vh_mem R_os]
  by (auto simp: keeps_rel_def run_vh_def split: prod.splits)

lemma keeps_run_call [keeps]: "keeps_rel R (run_call E addr ref c)"
  unfolding run_call_def by (intro keeps)

end

text \<open>Opening a context also puts the new one on the heap.\<close>

locale frame_relation = call_frame R
  for R :: "'os tstate \<Rightarrow> 'os tstate \<Rightarrow> bool" +
  assumes R_ctx_heap: "R s (s\<lparr>ctx_heap := h\<rparr>)"
begin

lemma keeps_modify_ctx_heap [keeps]: "keeps_rel R (modifyP (\<lambda>s. s\<lparr>ctx_heap := h s\<rparr>))"
  by (rule keeps_modifyP, simp add: R_ctx_heap)

lemma keeps_run_command:
  assumes "\<And>i. f \<noteq> CloseContext i"
  shows "keeps_rel R (run_command E f c)"
  using assms
  by (cases f)
    (auto simp: run_transfer_def run_open_def run_exit_def defaultExceptionHandler_def
      intro!: keeps)

text \<open>The handler of \<^verbatim>\<open>close\<close> never returns.\<close>

lemma run_command_returns:
  assumes "run_command E f c s = Some (Inr x, t)"
  shows "R s t"
proof (cases "\<exists>i. f = CloseContext i")
  case True
  with assms show ?thesis by (auto simp: run_close_def os_do_def set_state_def)
next
  case False
  then show ?thesis using keeps_relD [OF keeps_run_command assms] by blast
qed

end

text \<open>
  Two such relations: the queues, the issued IDs and the handle of the context are the same;
  and the context is not in state EXIT unless it was before.
\<close>

definition same_queues :: "'os tstate \<Rightarrow> 'os tstate \<Rightarrow> bool" where
  "same_queues s t \<longleftrightarrow>
     comq (tc t) = comq (tc s) \<and> seq_no (tc t) = seq_no (tc s)
     \<and> rem_reqid (tc t) = rem_reqid (tc s) \<and> os_handle (tc t) = os_handle (tc s)"

definition stays_open :: "'os tstate \<Rightarrow> 'os tstate \<Rightarrow> bool" where
  "stays_open s t \<longleftrightarrow> (ctx_state (tc t) = VEO_STATE_EXIT \<longrightarrow> ctx_state (tc s) = VEO_STATE_EXIT)"

interpretation queues: frame_relation same_queues
  by unfold_locales (simp_all add: same_queues_def)

interpretation open_state: frame_relation stays_open
  by unfold_locales (simp_all add: stays_open_def)

text \<open>A call leaves the other contexts alone.\<close>

interpretation contexts: call_frame "\<lambda>s t. ctx_heap t = ctx_heap s"
  by unfold_locales simp_all

lemma run_call_ctx_heap: "run_call E addr ref c s = Some (r, t) \<Longrightarrow> ctx_heap t = ctx_heap s"
  by (rule keeps_relD [OF contexts.keeps_run_call])

lemmas run_command_same_queues = queues.run_command_returns

lemma same_queues_refl [simp]: "same_queues s s"
  by (rule queues.R_refl)

section \<open>The results that commands set\<close>

lemma setResult_twice [simp]: "setResult (setResult c v st) v' st' = setResult c v' st'"
  by (simp add: setResult_def)

lemma setResult_eq [simp]: "setResult c v st = setResult c v' st' \<longleftrightarrow> v = v' \<and> st = st'"
  by (cases c) (auto simp: setResult_def)

lemma run_command_sets_result:
  assumes "run_command E f c s = Some (Inr (rv, c'), t)" and "f \<noteq> DummyReply"
  shows "\<exists>v st. c' = setResult c v st"
  using assms
  by (cases f)
    (auto simp: run_call_def run_vh_def run_transfer_def run_open_def run_exit_def run_close_def
      bindP_eq_Inr Let_def os_do_def set_state_def split: if_splits prod.splits)

lemma run_command_id:
  assumes "run_command E f c s = Some (Inr (rv, c'), t)"
  shows "cmd_id c' = cmd_id c" "cmd_handler c' = cmd_handler c"
proof -
  have "c' = c \<or> (\<exists>v st. c' = setResult c v st)"
    using assms run_command_sets_result [OF assms] by (cases "f = DummyReply") auto
  then show "cmd_id c' = cmd_id c" "cmd_handler c' = cmd_handler c"
    by (auto simp: state_simps)
qed

lemma doCall_running:
  "doCall E addr ref s = Some (Inr (), t) \<Longrightarrow> ctx_state (tc t) = VEO_STATE_RUNNING"
  by (auto simp: doCall_def bindP_eq_Inr unBlock_def set_state_def os_do_def)

lemma frame_after_block:
  "collectReturnValue E s = Some (Inr v, t) \<Longrightarrow> ctx_state (tc t) = ctx_state (tc s)"
  "copyout_call E ref s = Some (Inr (), t) \<Longrightarrow> tc t = tc s"
  by (auto simp: collectReturnValue_def copyout_call_def bindP_def assertP_def
      split: if_splits option.splits sum.splits prod.splits)

lemma run_call_outcomes:
  assumes "run_call E addr ref c s = Some (Inr (rv, c'), t)"
  shows "rv = 0 \<and> cmd_status c' = Some VEO_COMMAND_OK \<and> ctx_state (tc t) = VEO_STATE_BLOCKED
     \<or> rv = 1 \<and> cmd_status c' = Some VEO_COMMAND_EXCEPTION"
proof -
  from assms obtain s1 where s1: "doCall E addr ref s = Some (Inr (), s1)"
    and rest: "bindP (executeVE E)
       (\<lambda>(successful, status, exs).
          if \<not> successful
          then (if status = VEO_HANDLER_STATUS_EXCEPTION
                then returnP (1, setResult c exs VEO_COMMAND_EXCEPTION)
                else returnP (1, setResult c (word_of_int status) VEO_COMMAND_ERROR))
          else bindP (collectReturnValue E)
                 (\<lambda>rv. bindP (copyout_call E ref)
                 (\<lambda>_. returnP (0, setResult c rv VEO_COMMAND_OK)))) s1 = Some (Inr (rv, c'), t)"
    by (auto simp: run_call_def bindP_eq_Inr)
  from rest obtain st exs s2 where s2: "defaultExceptionHandler E 0 s1 = Some (Inr (st, exs), s2)"
    by (auto simp: executeVE_def bindP_eq_Inr)
  from defaultExceptionHandler_outcomes [OF s2 doCall_running [OF s1]] rest s2
  show ?thesis
    by (auto simp: executeVE_def bindP_eq_Inr handler_status_defs state_simps frame_after_block)
qed

text \<open>
  A call of a VE function ends in one of two ways.  Either the VE thread came back to its
  block request: the result is OK with the value it passed, and the context is BLOCKED, ready
  for the next request.  Or the hardware reported an exception: the result is EXCEPTION, and
  the handler fails.  The result ERROR, which the handler also provides for, does not occur.
\<close>

theorem call_outcomes:
  assumes "run_call E addr ref c s = Some (Inr (rv, c'), t)"
  shows "rv = 0 \<and> cmd_status c' = Some VEO_COMMAND_OK \<and> ctx_state (tc t) = VEO_STATE_BLOCKED
     \<or> rv = 1 \<and> cmd_status c' = Some VEO_COMMAND_EXCEPTION"
  by (rule run_call_outcomes [OF assms])

text \<open>
  Opening a context never reports a failure of the VE code that should create the thread.
  Whether or not the VE stopped at its clone request, a handler that returns has set the
  result OK; the exception recorded on the unexpected path is overwritten.
\<close>

theorem open_context_reports_ok:
  assumes "run_open E addr ref c s = Some (Inr (rv, c'), t)"
  shows "rv = 0 \<and> cmd_status c' = Some VEO_COMMAND_OK"
  using assms
  by (auto simp: run_open_def bindP_eq_Inr Let_def state_simps split: if_splits)

section \<open>The event loop as a function of the pending commands\<close>

text \<open>
  What remains in the queues when command \<open>c'\<close> has been executed with return code \<open>rv\<close>: it is
  completed, and after a failure the queue is closed and the pending commands are completed
  as unfinished.
\<close>

definition complete_command :: "int \<Rightarrow> cmd \<Rightarrow> 'os tstate \<Rightarrow> 'os tstate" where
  "complete_command rv c' s =
     (let q = comq (tc s);
          pending = map (\<lambda>c. setResult c 0 VEO_COMMAND_UNFINISHED) (bq_queue (request q))
      in if rv = 0
         then set_comq (q\<lparr>completion := (completion q)\<lparr>bq_queue := bq_queue (completion q) @ [c']\<rparr>\<rparr>) s
         else s\<lparr>tc := (tc s)\<lparr>ctx_state := VEO_STATE_EXIT,
            comq := q\<lparr>request := \<lparr>bq_queue = [], bq_state = VEO_QUEUE_CLOSED\<rparr>,
                      completion := (completion q)\<lparr>bq_queue :=
                        bq_queue (completion q) @ c' # pending\<rparr>\<rparr>\<rparr>\<rparr>)"

lemma finish_command_eq:
  "finish_command rv c s =
     Some (Inr (if rv = 0 then LoopContinue else LoopEnded), complete_command rv c s)"
  by (simp add: finish_command_def complete_command_def set_comq_def set_state_def setCompletion_eq
      pushCompletion_def setRequestStatus_def setStatus_def bq_push_def Let_def)

definition set_pending :: "cmd list \<Rightarrow> 'os tstate \<Rightarrow> 'os tstate" where
  "set_pending cs s =
     set_comq ((comq (tc s))\<lparr>request := (request (comq (tc s)))\<lparr>bq_queue := cs\<rparr>\<rparr>) s"

definition pending :: "'os tstate \<Rightarrow> cmd list" where
  "pending s = bq_queue (request (comq (tc s)))"

definition completed :: "'os tstate \<Rightarrow> cmd list" where
  "completed s = bq_queue (completion (comq (tc s)))"

lemma queue_views [simp]:
  "pending (set_pending cs s) = cs"
  "completed (set_pending cs s) = completed s"
  "ctx_state (tc (set_pending cs s)) = ctx_state (tc s)"
  "rem_reqid (tc (set_pending cs s)) = rem_reqid (tc s)"
  "rem_reqid (tc (complete_command rv c s)) = rem_reqid (tc s)"
  "pending (complete_command rv c s) = (if rv = 0 then pending s else [])"
  "completed (complete_command rv c s) =
     completed s @ c # (if rv = 0 then []
                        else map (\<lambda>c. setResult c 0 VEO_COMMAND_UNFINISHED) (pending s))"
  "ctx_state (tc (complete_command rv c s)) = (if rv = 0 then ctx_state (tc s) else VEO_STATE_EXIT)"
  by (simp_all add: pending_def completed_def set_pending_def complete_command_def set_comq_def Let_def)

lemma same_queues_views:
  "same_queues s t \<Longrightarrow> pending t = pending s \<and> completed t = completed s"
  by (simp add: same_queues_def pending_def completed_def)

lemma eventLoop_iter_eq:
  fixes s :: "'os tstate"
  shows "eventLoop_iter E s =
     (if ctx_state (tc s) \<noteq> VEO_STATE_BLOCKED then Some (Inr LoopEnded, s)
      else case pending s of
             [] \<Rightarrow> Some (Inr LoopWaiting, s)
           | c # cs \<Rightarrow>
               bindP (run_command E (cmd_handler c) c)
                 (\<lambda>(rv, c') t. Some (Inr (if rv = 0 then LoopContinue else LoopEnded),
                                    complete_command rv c' t)) (set_pending cs s))"
proof -
  have "(\<lambda>(rv, c'). finish_command rv c') = (\<lambda>(rv, c') (t :: 'os tstate).
      Some (Inr (if rv = 0 then LoopContinue else LoopEnded), complete_command rv c' t))"
    by (auto simp: fun_eq_iff finish_command_eq)
  then show ?thesis
    by (simp add: eventLoop_iter_def popRequest_eq pending_def set_pending_def split: list.split)
qed

text \<open>The commands of a list one after the other.\<close>

fun process_requests :: "'os veos \<Rightarrow> cmd list \<Rightarrow> ('os tstate, loop_status) prog" where
  "process_requests E [] s =
     Some (Inr (if ctx_state (tc s) = VEO_STATE_BLOCKED then LoopWaiting else LoopEnded), s)"
| "process_requests E (c # cs) s =
     (if ctx_state (tc s) \<noteq> VEO_STATE_BLOCKED then Some (Inr LoopEnded, s)
      else case run_command E (cmd_handler c) c (set_pending cs s) of
             None \<Rightarrow> None
           | Some (Inl e, t) \<Rightarrow> Some (Inl e, t)
           | Some (Inr (rv, c'), t) \<Rightarrow>
               (if rv = 0 then process_requests E cs (complete_command rv c' t)
                else Some (Inr LoopEnded, complete_command rv c' t)))"

lemma eventLoop_process:
  "pending s = cs \<Longrightarrow> eventLoop E s = process_requests E cs s"
proof (induction cs arbitrary: s)
  case Nil
  then show ?case by (subst eventLoop.simps) (simp add: eventLoop_iter_eq)
next
  case (Cons c cs)
  show ?case
  proof (cases "run_command E (cmd_handler c) c (set_pending cs s)")
    case None
    with Cons.prems show ?thesis by (subst eventLoop.simps) (simp add: eventLoop_iter_eq)
  next
    case (Some x)
    then obtain r t where r: "run_command E (cmd_handler c) c (set_pending cs s) = Some (r, t)"
      by (cases x) auto
    show ?thesis
    proof (cases r)
      case (Inl e)
      with r Cons.prems show ?thesis by (subst eventLoop.simps) (simp add: eventLoop_iter_eq)
    next
      case (Inr y)
      obtain rv c' where y: "y = (rv, c')" by (cases y)
      from run_command_same_queues [OF r [unfolded Inr]] have "pending t = cs"
        by (simp add: same_queues_views)
      then have "eventLoop E (complete_command 0 c' t) = process_requests E cs (complete_command 0 c' t)"
        by (intro Cons.IH) simp
      with r Inr y Cons.prems show ?thesis by (subst eventLoop.simps) (simp add: eventLoop_iter_eq)
    qed
  qed
qed

text \<open>
  C12: the event loop executes the pending requests one after the other in their order, each
  completed before the next one starts, until it has to wait for more, the context is no
  longer BLOCKED, or a command fails.  In particular it goes on for ever only if a command
  does.
\<close>

theorem eventLoop_in_order:
  "eventLoop E s = process_requests E (bq_queue (request (comq (tc s)))) s"
  using eventLoop_process [OF refl] by (simp add: pending_def)

text \<open>
  When a command fails, the context ends in an orderly way: its state is EXIT, the failed
  command is completed with its own result, every pending request is completed as unfinished
  in its order, none is lost, and the queue refuses new requests.
\<close>

theorem failed_command_drains:
  assumes "ctx_state (tc s) = VEO_STATE_BLOCKED"
    and "bq_queue (request (comq (tc s))) = c # cs"
    and "run_command E (cmd_handler c) c (set_pending cs s) = Some (Inr (rv, c'), t)" and "rv \<noteq> 0"
  shows "\<exists>u. eventLoop E s = Some (Inr LoopEnded, u)
     \<and> ctx_state (tc u) = VEO_STATE_EXIT
     \<and> request (comq (tc u)) = \<lparr>bq_queue = [], bq_state = VEO_QUEUE_CLOSED\<rparr>
     \<and> bq_queue (completion (comq (tc u))) =
         bq_queue (completion (comq (tc s)))
         @ c' # map (\<lambda>c. setResult c 0 VEO_COMMAND_UNFINISHED) cs"
proof -
  have same: "pending t = cs" "completed t = completed s"
    using run_command_same_queues [OF assms(3)] by (simp_all add: same_queues_views)
  have "eventLoop E s = Some (Inr LoopEnded, complete_command rv c' t)"
    using assms by (simp add: eventLoop_process [OF assms(2) [folded pending_def]])
  moreover have "request (comq (tc (complete_command rv c' t)))
      = \<lparr>bq_queue = [], bq_state = VEO_QUEUE_CLOSED\<rparr>"
    using assms(4) by (simp add: complete_command_def Let_def)
  moreover have "completed (complete_command rv c' t)
      = completed s @ c' # map (\<lambda>c. setResult c 0 VEO_COMMAND_UNFINISHED) cs"
    using assms(4) by (simp add: same)
  ultimately show ?thesis
    using assms(4) by (intro exI [of _ "complete_command rv c' t"]) (simp add: completed_def)
qed

section \<open>Request IDs\<close>

lemma fetch_id_eq:
  "fetch_id n = (if n = VEO_REQUEST_ID_INVALID then (0, 1) else (n, n + 1))"
  by (subst fetch_id.simps, subst fetch_id.simps) (simp add: VEO_REQUEST_ID_INVALID_def)

text \<open>The counter as a number modulo \<open>2 ^ 64 - 1\<close>: the invalid ID counts as zero.\<close>

definition id_position :: "u64 \<Rightarrow> nat" where
  "id_position n = (if n = VEO_REQUEST_ID_INVALID then 0 else unat n)"

lemma unat_invalid: "unat (- 1 :: u64) = 2 ^ 64 - 1"
  by (simp add: unsigned_minus_1_eq_mask mask_eq_exp_minus_1)

lemma id_position_less: "id_position n < 2 ^ 64 - 1"
proof (cases "n = VEO_REQUEST_ID_INVALID")
  case False
  then have "unat n \<noteq> unat (- 1 :: u64)"
    by (simp only: VEO_REQUEST_ID_INVALID_def word_unat_eq_iff not_False_eq_True)
  then have "unat n \<noteq> 2 ^ 64 - 1" unfolding unat_invalid .
  then show ?thesis
    using False unat_u64_less [of n] by (simp add: id_position_def)
qed (simp add: id_position_def)

lemma fetch_id_position:
  "unat (fst (fetch_id n)) = id_position n"
  "id_position (snd (fetch_id n)) = (id_position n + 1) mod (2 ^ 64 - 1)"
proof -
  show "unat (fst (fetch_id n)) = id_position n"
    by (simp add: fetch_id_eq id_position_def)
  show "id_position (snd (fetch_id n)) = (id_position n + 1) mod (2 ^ 64 - 1)"
  proof (cases "n = VEO_REQUEST_ID_INVALID")
    case True
    then show ?thesis
      by (simp add: fetch_id_eq id_position_def VEO_REQUEST_ID_INVALID_def)
  next
    case False
    have less: "unat n < 2 ^ 64 - 1"
      using id_position_less [of n] False by (simp add: id_position_def)
    then have "unat (n + 1) = unat n + 1"
      by (simp add: unat_word_ariths)
    moreover have "n + 1 = VEO_REQUEST_ID_INVALID \<longleftrightarrow> unat n + 1 = 2 ^ 64 - 1"
      unfolding word_unat_eq_iff VEO_REQUEST_ID_INVALID_def unat_invalid calculation ..
    ultimately show ?thesis
      using less False by (auto simp: fetch_id_eq id_position_def)
  qed
qed

fun issue_ids :: "nat \<Rightarrow> u64 \<Rightarrow> u64 list" where
  "issue_ids 0 n = []"
| "issue_ids (Suc k) n = fst (fetch_id n) # issue_ids k (snd (fetch_id n))"

lemma length_issue_ids [simp]: "length (issue_ids k n) = k"
  by (induction k arbitrary: n) auto

lemma issue_ids_nth:
  "j < k \<Longrightarrow> unat (issue_ids k n ! j) = (id_position n + j) mod (2 ^ 64 - 1)"
proof (induction k arbitrary: n j)
  case (Suc k)
  then show ?case
    using id_position_less [of n]
    by (cases j) (simp_all add: fetch_id_position mod_simps add.commute add.left_commute)
qed simp

lemma issue_ids_distinct:
  assumes "k < 2 ^ 64"
  shows "distinct (issue_ids k n)"
  unfolding distinct_conv_nth length_issue_ids
proof (intro allI impI)
  fix i j
  assume ij: "i < k" "j < k" "i \<noteq> j"
  have "(id_position n + i) mod (2 ^ 64 - 1) \<noteq> (id_position n + j) mod (2 ^ 64 - 1)"
    using ij assms id_position_less [of n]
    by (cases "id_position n + i < 2 ^ 64 - 1"; cases "id_position n + j < 2 ^ 64 - 1")
      (auto simp: le_mod_geq not_less)
  with ij show "issue_ids k n ! i \<noteq> issue_ids k n ! j"
    using issue_ids_nth [of i k n] issue_ids_nth [of j k n] by auto
qed

lemma issue_ids_valid: "VEO_REQUEST_ID_INVALID \<notin> set (issue_ids k n)"
proof
  assume "VEO_REQUEST_ID_INVALID \<in> set (issue_ids k n)"
  then obtain j where "j < k" "issue_ids k n ! j = VEO_REQUEST_ID_INVALID"
    by (auto simp: in_set_conv_nth)
  then have "(id_position n + j) mod (2 ^ 64 - 1) = unat (- 1 :: u64)"
    using issue_ids_nth [of j k n] by (simp only: VEO_REQUEST_ID_INVALID_def)
  then have "(id_position n + j) mod (2 ^ 64 - 1) = 2 ^ 64 - 1" unfolding unat_invalid .
  then show False
    using mod_less_divisor [of "2 ^ 64 - 1" "id_position n + j"] by simp
qed

text \<open>The state after an ID has been issued.\<close>

definition issued :: "'os tstate \<Rightarrow> 'os tstate" where
  "issued s = s\<lparr>tc := (tc s)\<lparr>seq_no := snd (fetch_id (seq_no (tc s))),
     rem_reqid := insert (fst (fetch_id (seq_no (tc s)))) (rem_reqid (tc s))\<rparr>\<rparr>"

lemma issueRequestID_eq:
  "issueRequestID s = Some (Inr (fst (fetch_id (seq_no (tc s)))), issued s)"
  by (simp add: issueRequestID_def issued_def split: prod.split)

lemma issued_fields [simp]:
  "comq (tc (issued s)) = comq (tc s)" "ctx_state (tc (issued s)) = ctx_state (tc s)"
  "seq_no (tc (issued s)) = snd (fetch_id (seq_no (tc s)))"
  "rem_reqid (tc (issued s)) = insert (fst (fetch_id (seq_no (tc s)))) (rem_reqid (tc s))"
  by (simp_all add: issued_def)

fun issue_many :: "nat \<Rightarrow> ('os tstate, u64 list) prog" where
  "issue_many 0 = returnP []"
| "issue_many (Suc k) =
     bindP issueRequestID (\<lambda>i. bindP (issue_many k) (\<lambda>is. returnP (i # is)))"

lemma issue_many_eq:
  "\<exists>t. issue_many k s = Some (Inr (issue_ids k (seq_no (tc s))), t)
     \<and> rem_reqid (tc t) = rem_reqid (tc s) \<union> set (issue_ids k (seq_no (tc s)))"
proof (induction k arbitrary: s)
  case (Suc k)
  from Suc.IH [of "issued s"] show ?case
    by (auto simp: issueRequestID_eq)
qed simp

text \<open>
  C36: request IDs are unique: fewer than \<open>2 ^ 64\<close> successive calls of \<^verbatim>\<open>issueRequestID\<close> give
  pairwise different IDs, even when the counter wraps around, none of them is the invalid ID,
  and each is recorded as outstanding.
\<close>

theorem request_ids_unique:
  assumes "k < 2 ^ 64"
  shows "\<exists>ids t. issue_many k s = Some (Inr ids, t) \<and> length ids = k \<and> distinct ids
     \<and> VEO_REQUEST_ID_INVALID \<notin> set ids \<and> rem_reqid (tc t) = rem_reqid (tc s) \<union> set ids"
  using issue_many_eq [of k s] issue_ids_distinct [OF assms] issue_ids_valid [of k] by auto

section \<open>Submitting a request\<close>

lemma submit_eq:
  "submit f s =
     (let i = fst (fetch_id (seq_no (tc s)))
      in if bq_state (request (comq (tc s))) = VEO_QUEUE_READY
         then Some (Inr i, set_pending (pending s @ [new_Command i f]) (issued s))
         else Some (Inr VEO_REQUEST_ID_INVALID, issued s))"
  by (simp add: submit_def issueRequestID_eq push_request_def pushRequest_def bq_push_def
      set_pending_def pending_def Let_def set_comq_def issued_def)

lemma fetch_id_valid: "fst (fetch_id n) \<noteq> VEO_REQUEST_ID_INVALID"
  by (simp add: fetch_id_eq VEO_REQUEST_ID_INVALID_def)

text \<open>
  A context in state EXIT takes no request: every request function gives the invalid ID,
  \<^verbatim>\<open>close\<close> succeeds, and none of them changes anything.
\<close>

theorem exited_context_refuses:
  assumes "ctx_state (tc s) = VEO_STATE_EXIT"
  shows "callAsync addr ref s = Some (Inr VEO_REQUEST_ID_INVALID, s)
     \<and> callVHAsync func arg s = Some (Inr VEO_REQUEST_ID_INVALID, s)
     \<and> callOpenContext addr ref s = Some (Inr VEO_REQUEST_ID_INVALID, s)
     \<and> asyncReadMem dst src sz s = Some (Inr VEO_REQUEST_ID_INVALID, s)
     \<and> asyncWriteMem dst src sz s = Some (Inr VEO_REQUEST_ID_INVALID, s)
     \<and> close E s = Some (Inr 0, s)"
  using assms
  by (simp_all add: callAsync_def callVHAsync_def callOpenContext_def asyncReadMem_def
      asyncWriteMem_def close_def)

section \<open>Waiting for a result\<close>

text \<open>
  Executing the first requests of a context, provided that all of them succeed and leave the
  context BLOCKED.
\<close>

fun serve :: "'os veos \<Rightarrow> cmd list \<Rightarrow> 'os tstate \<Rightarrow> 'os tstate option" where
  "serve E [] s = (if ctx_state (tc s) = VEO_STATE_BLOCKED then Some s else None)"
| "serve E (c # cs) s =
     (if ctx_state (tc s) \<noteq> VEO_STATE_BLOCKED then None
      else case run_command E (cmd_handler c) c (set_pending (tl (pending s)) s) of
             Some (Inr (rv, c'), t) \<Rightarrow>
               (if rv = 0 then serve E cs (complete_command 0 c' t) else None)
           | _ \<Rightarrow> None)"

lemma take_completion_absent:
  "i \<notin> cmd_id ` set (completed s) \<Longrightarrow> take_completion i s = None"
  by (simp add: take_completion_def waitCompletion_def bq_wait_def tryFindNoLock_def
      find_loop_absent completed_def)

definition set_completed :: "cmd list \<Rightarrow> 'os tstate \<Rightarrow> 'os tstate" where
  "set_completed cs s =
     set_comq ((comq (tc s))\<lparr>completion := (completion (comq (tc s)))\<lparr>bq_queue := cs\<rparr>\<rparr>) s"

lemma set_completed_views [simp]:
  "completed (set_completed cs s) = cs" "pending (set_completed cs s) = pending s"
  "ctx_state (tc (set_completed cs s)) = ctx_state (tc s)"
  "rem_reqid (tc (set_completed cs s)) = rem_reqid (tc s)"
  by (simp_all add: set_completed_def completed_def pending_def set_comq_def)

lemma take_completion_first:
  assumes "completed s = xs @ c # ys" and "cmd_id c = i" and "i \<notin> cmd_id ` set xs"
  shows "take_completion i s = Some (Inr c, set_completed (xs @ ys) s)"
  using assms
  by (simp add: take_completion_def waitCompletion_def bq_wait_def tryFindNoLock_def
      find_loop_first completed_def set_completed_def)

lemma await_continue:
  assumes "i \<notin> cmd_id ` set (completed s)"
    and "eventLoop_iter E s = Some (Inr LoopContinue, t)"
  shows "await E i s = await E i t"
  using assms by (subst await.simps) (simp add: take_completion_absent)

lemma await_serve:
  assumes "serve E pre s = Some t" and "pending s = pre @ rest"
    and "i \<notin> cmd_id ` set (completed s @ pre)"
  shows "await E i s = await E i t \<and> pending t = rest \<and> ctx_state (tc t) = VEO_STATE_BLOCKED
     \<and> map cmd_id (completed t) = map cmd_id (completed s @ pre)
     \<and> rem_reqid (tc t) = rem_reqid (tc s)"
  using assms
proof (induction pre arbitrary: s)
  case (Cons c pre)
  let ?s = "set_pending (pre @ rest) s"
  obtain c' u where run: "run_command E (cmd_handler c) c ?s = Some (Inr (0, c'), u)"
    and rest: "serve E pre (complete_command 0 c' u) = Some t"
    and blocked: "ctx_state (tc s) = VEO_STATE_BLOCKED"
    using Cons.prems by (auto split: if_splits option.splits sum.splits prod.splits)
  have u: "pending u = pre @ rest" "completed u = completed s" "rem_reqid (tc u) = rem_reqid (tc s)"
    using run_command_same_queues [OF run]
    by (simp_all add: same_queues_views) (simp add: same_queues_def set_pending_def set_comq_def)
  let ?v = "complete_command 0 c' u"
  have v: "rem_reqid (tc ?v) = rem_reqid (tc s)" "cmd_id c' = cmd_id c"
    using u(3) run_command_id [OF run] by (simp_all add: complete_command_def set_comq_def Let_def)
  have "eventLoop_iter E s = Some (Inr LoopContinue, ?v)"
    using Cons.prems(2) run blocked by (simp add: eventLoop_iter_eq)
  then have "await E i s = await E i ?v"
    using Cons.prems(3) by (intro await_continue) auto
  with Cons.IH [OF rest] show ?case
    using Cons.prems(3) u v by auto
qed (auto split: if_splits)

text \<open>\<^verbatim>\<open>rem_reqid.erase(reqid)\<close>: the ID is no longer outstanding.\<close>

definition forget :: "u64 \<Rightarrow> 'os tstate \<Rightarrow> 'os tstate" where
  "forget i s = s\<lparr>tc := (tc s)\<lparr>rem_reqid := rem_reqid (tc s) - {i}\<rparr>\<rparr>"

lemma forget_views [simp]:
  "pending (forget i s) = pending s" "completed (forget i s) = completed s"
  "ctx_state (tc (forget i s)) = ctx_state (tc s)"
  "rem_reqid (tc (forget i s)) = rem_reqid (tc s) - {i}"
  by (simp_all add: forget_def pending_def completed_def)

lemma callWaitResult_eq:
  "i \<in> rem_reqid (tc s) \<Longrightarrow> callWaitResult E i s = bindP (await E i) read_result (forget i s)"
  by (simp add: callWaitResult_def forget_def)

lemma read_result_set [simp]: "read_result (setResult c v st) s = Some (Inr (st, Some v), s)"
  by (simp add: read_result_def getRetval_def getStatus_def setResult_def)

lemma await_own_command:
  assumes "pending t = c # post" and "ctx_state (tc t) = VEO_STATE_BLOCKED"
    and "cmd_id c \<notin> cmd_id ` set (completed t)"
    and run: "run_command E (cmd_handler c) c (set_pending post t) = Some (Inr (rv, c'), u)"
  shows "await E (cmd_id c) t =
     Some (Inr c', set_completed (completed t @ (if rv = 0 then []
       else map (\<lambda>c. setResult c 0 VEO_COMMAND_UNFINISHED) post)) (complete_command rv c' u))"
proof -
  let ?u = "complete_command rv c' u"
  let ?rest = "if rv = 0 then [] else map (\<lambda>c. setResult c 0 VEO_COMMAND_UNFINISHED) post"
  have u: "completed u = completed t" "pending u = post"
    using run_command_same_queues [OF run] by (simp_all add: same_queues_views)
  have taken: "take_completion (cmd_id c) ?u = Some (Inr c', set_completed (completed t @ ?rest) ?u)"
    using u assms(3) run_command_id(1) [OF run]
    by (intro take_completion_first) auto
  have iter: "eventLoop_iter E t =
      Some (Inr (if rv = 0 then LoopContinue else LoopEnded), ?u)"
    using assms(1,2) run by (simp add: eventLoop_iter_eq)
  have found: "await E (cmd_id c) ?u = Some (Inr c', set_completed (completed t @ ?rest) ?u)"
    by (subst await.simps) (simp add: taken)
  show ?thesis
    using found taken iter
    by (subst await.simps) (auto simp: take_completion_absent [OF assms(3)])
qed

text \<open>
  C9: a thread that waits for its request gets the result which the command of that very
  request set, as soon as the requests before it have been executed, whatever is queued
  behind it; the ID is used up.  This is so for a failed command too, after which the
  context is in state EXIT.
\<close>

theorem wait_delivers_own_result:
  assumes "i \<in> rem_reqid (tc s)"
    and "bq_queue (request (comq (tc s))) = pre @ c # post" and "cmd_id c = i"
    and "i \<notin> cmd_id ` set (bq_queue (completion (comq (tc s))) @ pre)"
    and "serve E pre (forget i s) = Some t"
    and "run_command E (cmd_handler c) c (set_pending post t) = Some (Inr (rv, setResult c v st), u)"
  shows "\<exists>w. callWaitResult E i s = Some (Inr (st, Some v), w)
     \<and> rem_reqid (tc w) = rem_reqid (tc s) - {i}
     \<and> bq_queue (request (comq (tc w))) = (if rv = 0 then post else [])
     \<and> map cmd_id (bq_queue (completion (comq (tc w)))) =
         map cmd_id (bq_queue (completion (comq (tc s))) @ pre @ (if rv = 0 then [] else post))
     \<and> (rv \<noteq> 0 \<longrightarrow> ctx_state (tc w) = VEO_STATE_EXIT)"
proof -
  note views = pending_def [symmetric] completed_def [symmetric]
  have t: "await E i (forget i s) = await E i t" "pending t = c # post"
    "ctx_state (tc t) = VEO_STATE_BLOCKED" "map cmd_id (completed t) = map cmd_id (completed s @ pre)"
    "rem_reqid (tc t) = rem_reqid (tc s) - {i}"
    using await_serve [OF assms(5), of "c # post" i] assms(2,4) by (auto simp: views)
  have fresh: "i \<notin> cmd_id ` set (completed t)"
    using arg_cong [OF t(4), of set] assms(4) by (auto simp: views)
  let ?rest = "if rv = 0 then [] else map (\<lambda>c. setResult c 0 VEO_COMMAND_UNFINISHED) post"
  let ?w = "set_completed (completed t @ ?rest) (complete_command rv (setResult c v st) u)"
  have "await E i t = Some (Inr (setResult c v st), ?w)"
    using await_own_command [OF t(2,3) _ assms(6)] fresh assms(3) by simp
  then have "callWaitResult E i s = Some (Inr (st, Some v), ?w)"
    using t(1) by (simp add: callWaitResult_eq [OF assms(1)])
  moreover have "same_queues (set_pending post t) u"
    by (rule run_command_same_queues [OF assms(6)])
  then have "rem_reqid (tc u) = rem_reqid (tc t)" "pending u = post"
    by (simp_all add: same_queues_views) (simp add: same_queues_def)
  then have "rem_reqid (tc ?w) = rem_reqid (tc s) - {i}" "pending ?w = (if rv = 0 then post else [])"
    using t(5) by simp_all
  moreover have "map cmd_id (completed ?w) = map cmd_id (completed s @ pre @ (if rv = 0 then [] else post))"
    using t(4) by (simp add: state_simps comp_def)
  ultimately show ?thesis
    unfolding views by (intro exI [of _ ?w] conjI) simp_all
qed

lemma callPeekResult_unknown:
  "i \<notin> rem_reqid (tc s) \<Longrightarrow> callPeekResult i s = Some (Inr (VEO_COMMAND_ERROR, None), s)"
  by (simp add: callPeekResult_def)

lemma callWaitResult_unknown:
  "i \<notin> rem_reqid (tc s) \<Longrightarrow> callWaitResult E i s = Some (Inr (VEO_COMMAND_ERROR, None), s)"
  by (simp add: callWaitResult_def)

lemma callPeekResult_unfinished:
  assumes "i \<in> rem_reqid (tc s)" and "i \<notin> cmd_id ` set (completed s)"
  shows "callPeekResult i s = Some (Inr (VEO_COMMAND_UNFINISHED, None), s)"
  using assms
  by (simp add: callPeekResult_def peekCompletion_def tryFind_def tryFindNoLock_def
      find_loop_absent set_comq_def completed_def)

lemma callPeekResult_found:
  assumes "i \<in> rem_reqid (tc s)" and "completed s = xs @ setResult c v st # ys"
    and "cmd_id c = i" and "i \<notin> cmd_id ` set xs"
  shows "callPeekResult i s = Some (Inr (st, Some v), forget i (set_completed (xs @ ys) s))"
  using assms
  by (simp add: callPeekResult_def peekCompletion_def tryFind_def tryFindNoLock_def completed_def
      find_loop_first state_simps forget_def set_completed_def set_comq_def)

text \<open>
  Peeking never waits.  As long as the request is not completed it gives UNFINISHED and
  changes nothing.
\<close>

theorem peek_unfinished:
  assumes "i \<in> rem_reqid (tc s)" and "i \<notin> cmd_id ` set (bq_queue (completion (comq (tc s))))"
  shows "callPeekResult i s = Some (Inr (VEO_COMMAND_UNFINISHED, None), s)"
  using assms by (intro callPeekResult_unfinished) (simp_all add: completed_def)

text \<open>
  A result is handed out exactly once.  Peeking at a completed request gives its status
  and value and takes it out of the completion queue, every other result staying there in
  order; from then on both peeking and waiting for that ID give ERROR and change nothing.
\<close>

theorem result_handed_out_once:
  assumes "i \<in> rem_reqid (tc s)"
    and "bq_queue (completion (comq (tc s))) = xs @ setResult c v st # ys"
    and "cmd_id c = i" and "i \<notin> cmd_id ` set xs"
  shows "\<exists>t. callPeekResult i s = Some (Inr (st, Some v), t)
     \<and> bq_queue (completion (comq (tc t))) = xs @ ys
     \<and> callPeekResult i t = Some (Inr (VEO_COMMAND_ERROR, None), t)
     \<and> callWaitResult E i t = Some (Inr (VEO_COMMAND_ERROR, None), t)"
proof -
  let ?t = "forget i (set_completed (xs @ ys) s)"
  have "completed ?t = xs @ ys" by simp
  then show ?thesis
    using callPeekResult_found [OF assms(1) _ assms(3,4)] assms(2)
      callPeekResult_unknown [of i ?t] callWaitResult_unknown [of i ?t E]
    by (simp add: completed_def)
qed

section \<open>Calls from submission to result\<close>

lemma set_pending_same: "pending s = cs \<Longrightarrow> set_pending cs s = s"
  by (auto simp: set_pending_def set_comq_def pending_def)

lemma set_pending_twice [simp]: "set_pending cs (set_pending ds s) = set_pending cs s"
  by (simp add: set_pending_def set_comq_def)

lemma forget_set_pending: "forget i (set_pending cs s) = set_pending cs (forget i s)"
  by (simp add: forget_def set_pending_def set_comq_def)

lemma issued_views [simp]: "pending (issued s) = pending s" "completed (issued s) = completed s"
  by (simp_all add: pending_def completed_def)

lemma submitted_state:
  assumes "bq_state (request (comq (tc s))) = VEO_QUEUE_READY"
  shows "submit f s = Some (Inr (fst (fetch_id (seq_no (tc s)))),
     set_pending (pending s @ [new_Command (fst (fetch_id (seq_no (tc s)))) f]) (issued s))"
  using assms by (simp add: submit_eq Let_def)

lemma wait_after_submit:
  fixes f :: closure and s :: "'os tstate"
  defines "i \<equiv> fst (fetch_id (seq_no (tc s)))"
  defines "s1 \<equiv> set_pending [new_Command i f] (issued s)"
  assumes "ctx_state (tc s) = VEO_STATE_BLOCKED" and "pending s = []"
    and "i \<notin> cmd_id ` set (completed s)"
    and "run_command E f (new_Command i f) (forget i (issued s)) = Some (Inr (rv, setResult c v st), u)"
  shows "callWaitResult E i s1 = Some (Inr (st, Some v),
     set_completed (completed s) (complete_command rv (setResult c v st) u))"
proof -
  have "set_pending [] (forget i s1) = forget i (issued s)"
    using assms(4) by (simp add: s1_def forget_set_pending set_pending_same)
  then have "await E i (forget i s1) =
      Some (Inr (setResult c v st), set_completed (completed s) (complete_command rv (setResult c v st) u))"
    using await_own_command [of "forget i s1" "new_Command i f" "[]" E rv "setResult c v st" u] assms
    by (simp add: state_simps)
  moreover have "i \<in> rem_reqid (tc s1)" by (simp add: s1_def i_def)
  ultimately show ?thesis by (simp add: callWaitResult_eq)
qed

text \<open>
  A call from submission to result.  On an idle context \<^verbatim>\<open>callAsync\<close> gives a valid ID at
  once; waiting for that ID runs the call and gives the value its handler recorded, with
  status OK when the VE function came back (the context is then idle again and ready for the
  next call) and EXCEPTION when it did not (the context is then in state EXIT).
\<close>

theorem call_then_wait:
  assumes "ctx_state (tc s) = VEO_STATE_BLOCKED" and "addr \<noteq> 0"
    and "request (comq (tc s)) = \<lparr>bq_queue = [], bq_state = VEO_QUEUE_READY\<rparr>"
    and "i = fst (fetch_id (seq_no (tc s)))"
    and "i \<notin> cmd_id ` set (bq_queue (completion (comq (tc s))))"
    and "run_call E addr ref (new_Command i (CallFunction addr ref)) (forget i (issued s))
         = Some (Inr (rv, c'), u)"
  shows "\<exists>s1 v st w. callAsync addr ref s = Some (Inr i, s1) \<and> i \<noteq> VEO_REQUEST_ID_INVALID
     \<and> c' = setResult (new_Command i (CallFunction addr ref)) v st
     \<and> callWaitResult E i s1 = Some (Inr (st, Some v), w)
     \<and> bq_queue (request (comq (tc w))) = [] \<and> completed w = completed s
     \<and> (st = VEO_COMMAND_OK \<and> ctx_state (tc w) = VEO_STATE_BLOCKED
        \<or> st = VEO_COMMAND_EXCEPTION \<and> ctx_state (tc w) = VEO_STATE_EXIT)"
proof -
  let ?c = "new_Command i (CallFunction addr ref)"
  let ?s1 = "set_pending [?c] (issued s)"
  let ?w = "set_completed (completed s) (complete_command rv c' u)"
  have run: "run_command E (CallFunction addr ref) ?c (forget i (issued s)) = Some (Inr (rv, c'), u)"
    using assms(6) by simp
  obtain v st where c': "c' = setResult ?c v st"
    using run_command_sets_result [OF run] by auto
  have idle: "pending s = []" using assms(3) by (simp add: pending_def)
  have "callAsync addr ref s = Some (Inr i, ?s1)"
    using assms(1,2,3,4) idle by (simp add: callAsync_def submitted_state)
  moreover have "callWaitResult E i ?s1 = Some (Inr (st, Some v), ?w)"
    using wait_after_submit [OF assms(1) idle, of E "CallFunction addr ref" rv ?c v st u]
      assms(4,5) run c' by (simp add: completed_def)
  moreover have "rv = 0 \<and> st = VEO_COMMAND_OK \<and> ctx_state (tc u) = VEO_STATE_BLOCKED
      \<or> rv = 1 \<and> st = VEO_COMMAND_EXCEPTION"
    using run_call_outcomes [OF assms(6)] c' by (auto simp: state_simps)
  moreover have "pending u = []"
    using run_command_same_queues [OF run] idle by (simp add: same_queues_views)
  moreover have "i \<noteq> VEO_REQUEST_ID_INVALID" using assms(4) fetch_id_valid by simp
  moreover note c'
  ultimately show ?thesis
    unfolding pending_def [symmetric]
    by (intro exI [of _ ?s1] exI [of _ v] exI [of _ st] exI [of _ ?w] conjI) auto
qed

section \<open>Closing a context\<close>

lemma await_stranded:
  assumes "i \<notin> cmd_id ` set (completed s)" and "ctx_state (tc s) \<noteq> VEO_STATE_BLOCKED"
  shows "await E i s = None"
  using assms by (subst await.simps) (simp add: take_completion_absent eventLoop_iter_eq)

lemma callWaitResult_stranded:
  assumes "i \<in> rem_reqid (tc s)" and "i \<notin> cmd_id ` set (completed s)"
    and "ctx_state (tc s) \<noteq> VEO_STATE_BLOCKED"
  shows "callWaitResult E i s = None"
proof -
  have "await E i (forget i s) = None"
    using assms(2,3) by (intro await_stranded) simp_all
  then show ?thesis by (simp add: callWaitResult_eq [OF assms(1)])
qed

text \<open>The state in which the handler of \<^verbatim>\<open>close\<close> ends the pseudo thread.\<close>

definition closed_state :: "'os veos \<Rightarrow> u64 \<Rightarrow> 'os tstate \<Rightarrow> 'os tstate" where
  "closed_state E i s =
     s\<lparr>os := process_thread_cleanup E (os_handle (tc s)) (- 1) (os s),
       tc := (tc s)\<lparr>ctx_state := VEO_STATE_EXIT,
         comq := pushCompletion (comq (tc s)) (setResult (new_Command i DummyReply) 0 0)\<rparr>\<rparr>"

lemma run_close_eq: "run_close E i s = Some (Inl ThreadExit, closed_state E i s)"
  by (simp add: run_close_def os_do_def set_state_def closed_state_def)

lemma closed_state_views [simp]:
  "pending (closed_state E i s) = pending s"
  "completed (closed_state E i s) = completed s @ [setResult (new_Command i DummyReply) 0 0]"
  "ctx_state (tc (closed_state E i s)) = VEO_STATE_EXIT"
  "rem_reqid (tc (closed_state E i s)) = rem_reqid (tc s)"
  by (simp_all add: closed_state_def pending_def completed_def pushCompletion_def bq_push_def)

lemma await_close:
  assumes "pending s = new_Command i (CloseContext i) # post"
    and "ctx_state (tc s) = VEO_STATE_BLOCKED" and "i \<notin> cmd_id ` set (completed s)"
  shows "await E i s = Some (Inr (setResult (new_Command i DummyReply) 0 0),
     set_completed (completed s) (closed_state E i (set_pending post s)))"
proof -
  let ?t = "closed_state E i (set_pending post s)"
  have "eventLoop_iter E s = Some (Inl ThreadExit, ?t)"
    using assms(1,2) by (simp add: eventLoop_iter_eq run_close_eq state_simps)
  moreover have "take_completion i ?t = Some (Inr (setResult (new_Command i DummyReply) 0 0),
      set_completed (completed s) ?t)"
    using take_completion_first [of ?t "completed s" _ "[]" i] assms(3) by (simp add: state_simps)
  ultimately show ?thesis
    by (subst await.simps) (simp add: take_completion_absent [OF assms(3)])
qed

lemma close_eq:
  assumes "ctx_state (tc s) \<noteq> VEO_STATE_EXIT" and "bq_state (request (comq (tc s))) = VEO_QUEUE_READY"
  defines "i \<equiv> fst (fetch_id (seq_no (tc s)))"
  shows "close E s = bindP (await E i)
     (\<lambda>c. bindP (resultP (getRetval c)) (\<lambda>v. returnP (sint (ucast v :: u32))))
     (set_pending (pending s @ [new_Command i (CloseContext i)]) (issued s))"
  using assms
  by (simp add: close_def issueRequestID_eq push_request_def pushRequest_def bq_push_def
      set_pending_def pending_def issued_def set_comq_def)

text \<open>
  C37: closing a context executes the requests that are already queued first; then the thread
  on the VE side is cleaned up, \<^verbatim>\<open>close\<close> returns zero, and the context is in state EXIT, in
  which it takes no request.
\<close>

theorem close_after_pending:
  assumes "ctx_state (tc s) = VEO_STATE_BLOCKED"
    and "bq_state (request (comq (tc s))) = VEO_QUEUE_READY"
    and "i = fst (fetch_id (seq_no (tc s)))"
    and "i \<notin> cmd_id ` set (completed s @ pending s)"
    and "serve E (pending s) (set_pending (pending s @ [new_Command i (CloseContext i)]) (issued s)) = Some t"
  shows "\<exists>u. close E s = Some (Inr 0, u) \<and> ctx_state (tc u) = VEO_STATE_EXIT
     \<and> pending u = [] \<and> map cmd_id (completed u) = map cmd_id (completed s @ pending s)
     \<and> os u = process_thread_cleanup E (os_handle (tc t)) (- 1) (os t)"
proof -
  let ?s = "set_pending (pending s @ [new_Command i (CloseContext i)]) (issued s)"
  let ?u = "set_completed (completed t) (closed_state E i (set_pending [] t))"
  have t: "await E i ?s = await E i t" "pending t = [new_Command i (CloseContext i)]"
    "ctx_state (tc t) = VEO_STATE_BLOCKED" "map cmd_id (completed t) = map cmd_id (completed s @ pending s)"
    using await_serve [OF assms(5), of "[new_Command i (CloseContext i)]" i] assms(4) by auto
  have "i \<notin> cmd_id ` set (completed t)"
    using arg_cong [OF t(4), of set] assms(4) by auto
  then have "await E i ?s = Some (Inr (setResult (new_Command i DummyReply) 0 0), ?u)"
    using await_close [OF t(2,3), of E] t(1) by simp
  then have "close E s = Some (Inr 0, ?u)"
    using close_eq [of s E] assms(1-3) by (simp add: getRetval_def state_simps)
  moreover have "os ?u = process_thread_cleanup E (os_handle (tc t)) (- 1) (os t)"
    by (simp add: set_completed_def closed_state_def set_pending_def set_comq_def)
  ultimately show ?thesis
    using t(4) by (intro exI [of _ ?u] conjI) simp_all
qed

text \<open>
  Requests queued behind a \<^verbatim>\<open>close\<close> are stranded.  When the pseudo thread has executed the
  close command it ends without completing them, although the queue stays open: waiting for
  such a request never returns, and peeking gives UNFINISHED for ever.
\<close>

theorem close_strands_later_requests:
  assumes "ctx_state (tc s) = VEO_STATE_BLOCKED"
    and "pending s = new_Command i (CloseContext i) # post"
    and "c \<in> set post" and "cmd_id c \<in> rem_reqid (tc s)"
    and "cmd_id c \<notin> cmd_id ` set (completed s)" and "cmd_id c \<noteq> i"
  shows "\<exists>t. eventLoop E s = Some (Inl ThreadExit, t) \<and> pending t = post
     \<and> callWaitResult E (cmd_id c) t = None
     \<and> callPeekResult (cmd_id c) t = Some (Inr (VEO_COMMAND_UNFINISHED, None), t)"
proof -
  let ?t = "closed_state E i (set_pending post s)"
  have "eventLoop E s = Some (Inl ThreadExit, ?t)"
    using assms(1,2) by (simp add: eventLoop_process run_close_eq state_simps)
  moreover have "callWaitResult E (cmd_id c) ?t = None"
    using assms(4-6) by (intro callWaitResult_stranded) (auto simp: state_simps)
  moreover have "callPeekResult (cmd_id c) ?t = Some (Inr (VEO_COMMAND_UNFINISHED, None), ?t)"
    using assms(4-6) by (intro callPeekResult_unfinished) (auto simp: state_simps)
  ultimately show ?thesis by (intro exI [of _ ?t]) simp
qed

section \<open>The first steps of a child context\<close>

text \<open>
  What becomes of a new context, whatever VH threads have already queued for it: if its
  VE thread reaches the first block request, the stack pointer is taken from that request and
  the event loop serves the queue; if it does not, the context is in state EXIT but nothing
  that was queued is completed, so that waiting for it never returns.
\<close>

theorem child_context_start:
  fixes E :: "'os veos"
  assumes "defaultExceptionHandler E 0 (s\<lparr>tc := thread_started newhdl (tc s)\<rparr>)
      = Some (Inr (status, exs), t)"
  shows "status = VEO_HANDLER_STATUS_BLOCK_REQUESTED
       \<and> (vedl_get_syscall_args E newhdl (os t) 0 = VE_SYSVE_VEO_BLOCK \<longrightarrow>
          startEventLoop E newhdl s = process_requests E (pending s)
            (t\<lparr>tc := (tc t)\<lparr>ve_sp := vedl_get_syscall_args E newhdl (os t) 5\<rparr>\<rparr>))
     \<or> status = VEO_HANDLER_STATUS_EXCEPTION
       \<and> (\<exists>u. startEventLoop E newhdl s = Some (Inr LoopEnded, u)
            \<and> ctx_state (tc u) = VEO_STATE_EXIT \<and> pending u = pending s
            \<and> (\<forall>i \<in> rem_reqid (tc s) - cmd_id ` set (completed s). callWaitResult E i u = None))"
proof -
  let ?s1 = "s\<lparr>tc := thread_started newhdl (tc s)\<rparr>"
  have "ctx_state (tc ?s1) = VEO_STATE_RUNNING" by (simp add: thread_started_def)
  note out = defaultExceptionHandler_outcomes [OF assms this]
  have same: "same_queues ?s1 t" "os_handle (tc t) = newhdl"
    using out by (auto simp: same_but_ve_def same_queues_def thread_started_def)
  have views: "pending t = pending s" "completed t = completed s" "rem_reqid (tc t) = rem_reqid (tc s)"
    using same(1) by (simp_all add: same_queues_def pending_def completed_def thread_started_def)
  have start: "startEventLoop E newhdl s =
      (if status = VEO_HANDLER_STATUS_BLOCK_REQUESTED
       then bindP (collectReturnValue E) (\<lambda>_. eventLoop E) t
       else Some (Inr LoopEnded, t\<lparr>tc := (tc t)\<lparr>ctx_state := VEO_STATE_EXIT\<rparr>\<rparr>))"
    using assms by (simp add: startEventLoop_def set_state_def)
  show ?thesis
  proof (cases "status = VEO_HANDLER_STATUS_BLOCK_REQUESTED")
    case True
    let ?t = "t\<lparr>tc := (tc t)\<lparr>ve_sp := vedl_get_syscall_args E newhdl (os t) 5\<rparr>\<rparr>"
    have "pending ?t = pending s" using views(1) by (simp add: pending_def)
    then have "eventLoop E ?t = process_requests E (pending s) ?t" by (rule eventLoop_process)
    moreover have "collectReturnValue E t = Some (Inr (vedl_get_syscall_args E newhdl (os t) 1), ?t)"
      if "vedl_get_syscall_args E newhdl (os t) 0 = VE_SYSVE_VEO_BLOCK"
      using that same(2) by (simp add: collectReturnValue_def)
    ultimately have "startEventLoop E newhdl s = process_requests E (pending s) ?t"
      if "vedl_get_syscall_args E newhdl (os t) 0 = VE_SYSVE_VEO_BLOCK"
      using that True start by simp
    with True show ?thesis by blast
  next
    case False
    let ?u = "t\<lparr>tc := (tc t)\<lparr>ctx_state := VEO_STATE_EXIT\<rparr>\<rparr>"
    have u: "pending ?u = pending s" "completed ?u = completed s" "rem_reqid (tc ?u) = rem_reqid (tc s)"
      using views by (simp_all add: pending_def completed_def)
    have "callWaitResult E i ?u = None" if "i \<in> rem_reqid (tc s) - cmd_id ` set (completed s)" for i
      by (rule callWaitResult_stranded) (use that u in simp_all)
    then show ?thesis
      using False out start u(1) by (intro disjI2) auto
  qed
qed

section \<open>Ending the VE process\<close>

text \<open>
  The exit command of the main context.  When the VE process has reached \<^verbatim>\<open>exit_group\<close>, the
  command is reported OK, but the context stays in state RUNNING with an open queue and no
  thread behind it: a call made later is accepted with a valid ID and waiting for it never
  returns.
\<close>

theorem exit_leaves_context_open:
  fixes E :: "'os veos"
  assumes "run_exit E addr ref c s = Some (Inr (rv, c'), t)"
    and "doCall E addr ref s = Some (Inr (), s1)"
    and "exceptionHandler E (exitFilter E) 0 s1 = Some (Inr (nr E NR_ve_exit_group, exs), s2)"
    and "nr E NR_ve_exit_group \<notin> {1, - 1}"
    and "bq_state (request (comq (tc s))) = VEO_QUEUE_READY" and "addr' \<noteq> 0"
    and "fst (fetch_id (seq_no (tc s))) \<notin> cmd_id ` set (completed s)"
  shows "rv = 0 \<and> cmd_status c' = Some VEO_COMMAND_OK \<and> ctx_state (tc t) = VEO_STATE_RUNNING
     \<and> eventLoop E t = Some (Inr LoopEnded, t)
     \<and> (\<exists>i u. callAsync addr' ref' t = Some (Inr i, u) \<and> i \<noteq> VEO_REQUEST_ID_INVALID
              \<and> callWaitResult E i u = None)"
proof -
  have "run_command E (ExitProc addr ref) c s = Some (Inr (rv, c'), t)"
    using assms(1) by simp
  then have same: "same_queues s t" by (rule run_command_same_queues)
  have "ctx_state (tc s2) = VEO_STATE_RUNNING"
    using exit_filter.exceptionHandler_state [OF assms(3) doCall_running [OF assms(2)]] assms(4)
    by (auto simp: handler_status_defs)
  moreover have res: "rv = 0" "cmd_status c' = Some VEO_COMMAND_OK" "tc t = tc s2"
    using assms(1,2,3)
    by (auto simp: run_exit_def bindP_eq_Inr state_simps frame_after_block split: if_splits)
  ultimately have running: "ctx_state (tc t) = VEO_STATE_RUNNING" by simp
  let ?i = "fst (fetch_id (seq_no (tc t)))"
  let ?u = "set_pending (pending t @ [new_Command ?i (CallFunction addr' ref')]) (issued t)"
  have "callAsync addr' ref' t = Some (Inr ?i, ?u)"
    using assms(5,6) same running by (simp add: callAsync_def submitted_state same_queues_def)
  moreover have "callWaitResult E ?i ?u = None"
    using assms(7) same running
    by (intro callWaitResult_stranded) (simp_all add: same_queues_views, simp add: same_queues_def)
  moreover have "eventLoop E t = Some (Inr LoopEnded, t)"
    using running by (subst eventLoop.simps) (simp add: eventLoop_iter_eq)
  ultimately show ?thesis
    using res running fetch_id_valid by blast
qed

section \<open>Attributes\<close>

text \<open>
  The stack size of an attribute object is at least 4 MiB however it came about: by
  default, or by any sequence of attempts to set it, of which those below the minimum are
  refused with EINVAL and leave it alone.
\<close>

theorem stacksize_at_least_minimum:
  fixes sizes :: "u64 list"
  defines "try_set \<equiv> \<lambda>n attr. case setStacksize attr n of Inl e \<Rightarrow> attr | Inr attr' \<Rightarrow> attr'"
  shows "VEO_STACK_MIN \<le> stacksize (fold try_set sizes new_ThreadContextAttr)
     \<and> (\<forall>attr n. (n < VEO_STACK_MIN \<longrightarrow>
           setStacksize attr n = Inl (VEOException ''invalid stack size of VEO context'' 22))
         \<and> (VEO_STACK_MIN \<le> n \<longrightarrow> stacksize (try_set n attr) = n))"
proof -
  have "VEO_STACK_MIN \<le> stacksize (fold try_set sizes attr)" if "VEO_STACK_MIN \<le> stacksize attr" for attr
    using that
    by (induction sizes arbitrary: attr) (auto simp: try_set_def setStacksize_def not_less)
  then show ?thesis
    by (auto simp: try_set_def setStacksize_def EINVAL_def new_ThreadContextAttr_def
        VEO_DEFAULT_STACK_SIZE_def VEO_STACK_MIN_def not_less)
qed

end
