(* ===== verification/Interleaving.thy ===== *)
theory Interleaving
  imports Requests
begin

text \<open>
  One context used by any number of VH threads at once, next to its pseudo thread.  The
  functions of \<^verbatim>\<open>ThreadContext\<close> are cut into the steps that are atomic in the program: a test
  of \<^verbatim>\<open>state\<close>, one \<^verbatim>\<open>__atomic_fetch_add\<close>, a section under \<^verbatim>\<open>req_mtx\<close>, an access to the atomic
  queue state, and one operation of a queue under its mutex.  Steps of different threads may
  follow each other in any order.

  Calls that return at once and change nothing (a null address, a result that is not there,
  \<^verbatim>\<open>close()\<close> in state EXIT) need no step.  What a command does on the VE is left open here: any return code, result and state of the
  context other than EXIT.  A few logs record what has happened; no step depends on them.
\<close>

section \<open>Threads\<close>

text \<open>
  What a VH thread asks for: one of the asynchronous requests, \<^verbatim>\<open>close()\<close>, or \<^verbatim>\<open>exitProc()\<close> of the
  process, which works like \<^verbatim>\<open>close()\<close>.
\<close>

datatype req = Plain closure | Close | Exit u64 nat

fun req_handler :: "req \<Rightarrow> u64 \<Rightarrow> closure" where
  "req_handler (Plain f) i = f"
| "req_handler Close i = CloseContext i"
| "req_handler (Exit addr ref) i = ExitProc addr ref"

fun valid_req :: "req \<Rightarrow> bool" where
  "valid_req (Plain (CloseContext i)) = False"
| "valid_req (Plain (ExitProc addr ref)) = False"
| "valid_req (Plain DummyReply) = False"
| "valid_req r = True"

text \<open>
  Where a VH thread is: outside of the library, after the test of the state, after the
  atomic increment, after the insertion in \<^verbatim>\<open>rem_reqid\<close>, inside \<^verbatim>\<open>pushRequest\<close> after the queue was
  found open, after the function has returned an ID, or in \<^verbatim>\<open>waitCompletion\<close>, called by
  \<^verbatim>\<open>callWaitResult\<close> or by \<^verbatim>\<open>close\<close>.
\<close>

datatype vh_pc =
    VhIdle
  | VhChecked req
  | VhFetched req u64
  | VhIssued req u64
  | VhPushing req u64
  | VhReturned u64
  | VhWaiting u64
  | VhClosing u64

text \<open>
  Where the pseudo thread is: at the head of the loop of \<^verbatim>\<open>eventLoop\<close>, executing a command, on
  the way out after a failed command (state set; queue closed; draining, with the command
  just popped), in the close handler before it posts its reply, or at its end.
\<close>

datatype pt_pc =
    PtLoop
  | PtRunning cmd
  | PtFailed cmd
  | PtClosed cmd
  | PtDraining "cmd option"
  | PtClosing u64
  | PtEnded

record world =
  wq :: "closure comm_queue"
  wstate :: veo_context_state
  wseq :: u64
  wrem :: "u64 set"
  wvh :: "nat \<Rightarrow> vh_pc"
  wpt :: pt_pc
  issued_log :: "u64 list"
  pushed_log :: "u64 list"
  done_log :: "cmd list"
  taken_log :: "cmd list"

definition goto :: "nat \<Rightarrow> vh_pc \<Rightarrow> world \<Rightarrow> world" where
  "goto t pc w = w\<lparr>wvh := (wvh w)(t := pc)\<rparr>"

text \<open>
  Where a refused push leads: \<^verbatim>\<open>callVHAsync\<close> returns the ID, \<^verbatim>\<open>close\<close> and \<^verbatim>\<open>exitProc\<close> wait for the
  invalid ID, the others return it.
\<close>

fun refused :: "req \<Rightarrow> u64 \<Rightarrow> vh_pc" where
  "refused (Plain (CallVH f a)) i = VhReturned i"
| "refused (Plain f) i = VhReturned VEO_REQUEST_ID_INVALID"
| "refused Close i = VhClosing VEO_REQUEST_ID_INVALID"
| "refused (Exit addr ref) i = VhClosing VEO_REQUEST_ID_INVALID"

fun accepted :: "req \<Rightarrow> u64 \<Rightarrow> vh_pc" where
  "accepted (Plain f) i = VhReturned i"
| "accepted Close i = VhClosing i"
| "accepted (Exit addr ref) i = VhClosing i"

section \<open>Steps\<close>

inductive vh_step :: "nat \<Rightarrow> world \<Rightarrow> world \<Rightarrow> bool" for t where
  check: "wvh w t = VhIdle \<Longrightarrow> valid_req r \<Longrightarrow> wstate w \<noteq> VEO_STATE_EXIT \<Longrightarrow>
    vh_step t w (goto t (VhChecked r) w)"
| check_exit: "wvh w t = VhIdle \<Longrightarrow> wstate w = VEO_STATE_EXIT \<Longrightarrow>
    vh_step t w (goto t (VhReturned VEO_REQUEST_ID_INVALID) w)"
| fetch_again: "wvh w t = VhChecked r \<Longrightarrow> wseq w = VEO_REQUEST_ID_INVALID \<Longrightarrow>
    vh_step t w (w\<lparr>wseq := wseq w + 1\<rparr>)"
| fetch: "wvh w t = VhChecked r \<Longrightarrow> wseq w \<noteq> VEO_REQUEST_ID_INVALID \<Longrightarrow>
    vh_step t w (goto t (VhFetched r (wseq w))
      (w\<lparr>wseq := wseq w + 1, issued_log := issued_log w @ [wseq w]\<rparr>))"
| record_id: "wvh w t = VhFetched r i \<Longrightarrow>
    vh_step t w (goto t (VhIssued r i) (w\<lparr>wrem := insert i (wrem w)\<rparr>))"
| found_open: "wvh w t = VhIssued r i \<Longrightarrow> bq_state (request (wq w)) = VEO_QUEUE_READY \<Longrightarrow>
    vh_step t w (goto t (VhPushing r i) w)"
| found_closed: "wvh w t = VhIssued r i \<Longrightarrow> bq_state (request (wq w)) \<noteq> VEO_QUEUE_READY \<Longrightarrow>
    vh_step t w (goto t (refused r i) w)"
| push: "wvh w t = VhPushing r i \<Longrightarrow>
    vh_step t w (goto t (accepted r i)
      (w\<lparr>wq := (wq w)\<lparr>request := bq_push (request (wq w)) (new_Command i (req_handler r i))\<rparr>,
         pushed_log := pushed_log w @ [i]\<rparr>))"
| resume: "wvh w t = VhReturned i \<Longrightarrow> vh_step t w (goto t VhIdle w)"
| peek: "wvh w t = VhIdle \<Longrightarrow> i \<in> wrem w \<Longrightarrow> peekCompletion (wq w) i = (Some c, q') \<Longrightarrow>
    vh_step t w (w\<lparr>wq := q', wrem := wrem w - {i}, taken_log := taken_log w @ [c]\<rparr>)"
| wait_begin: "wvh w t = VhIdle \<Longrightarrow> i \<in> wrem w \<Longrightarrow>
    vh_step t w (goto t (VhWaiting i) (w\<lparr>wrem := wrem w - {i}\<rparr>))"
| wait_end: "wvh w t = VhWaiting i \<Longrightarrow> waitCompletion (wq w) i = Some (c, q') \<Longrightarrow>
    vh_step t w (goto t VhIdle (w\<lparr>wq := q', taken_log := taken_log w @ [c]\<rparr>))"
| close_end: "wvh w t = VhClosing i \<Longrightarrow> waitCompletion (wq w) i = Some (c, q') \<Longrightarrow>
    vh_step t w (goto t VhIdle (w\<lparr>wq := q', taken_log := taken_log w @ [c]\<rparr>))"

definition complete :: "cmd \<Rightarrow> world \<Rightarrow> world" where
  "complete c w = w\<lparr>wq := pushCompletion (wq w) c, done_log := done_log w @ [c]\<rparr>"

inductive pt_step :: "world \<Rightarrow> world \<Rightarrow> bool" where
  leave: "wpt w = PtLoop \<Longrightarrow> wstate w \<noteq> VEO_STATE_BLOCKED \<Longrightarrow> pt_step w (w\<lparr>wpt := PtEnded\<rparr>)"
| pop: "wpt w = PtLoop \<Longrightarrow> wstate w = VEO_STATE_BLOCKED \<Longrightarrow> popRequest (wq w) = Some (c, q') \<Longrightarrow>
    pt_step w (w\<lparr>wq := q', wpt := PtRunning c\<rparr>)"
| succeed: "wpt w = PtRunning c \<Longrightarrow> (\<And>j. cmd_handler c \<noteq> CloseContext j) \<Longrightarrow> st' \<noteq> VEO_STATE_EXIT \<Longrightarrow>
    pt_step w (complete (setResult c v st) (w\<lparr>wpt := PtLoop, wstate := st'\<rparr>))"
| fail: "wpt w = PtRunning c \<Longrightarrow> (\<And>j. cmd_handler c \<noteq> CloseContext j) \<Longrightarrow>
    pt_step w (w\<lparr>wpt := PtFailed (setResult c v st), wstate := VEO_STATE_EXIT\<rparr>)"
| shut: "wpt w = PtFailed c \<Longrightarrow>
    pt_step w (w\<lparr>wpt := PtClosed c, wq := setRequestStatus (wq w) VEO_QUEUE_CLOSED\<rparr>)"
| report: "wpt w = PtClosed c \<Longrightarrow> pt_step w (complete c (w\<lparr>wpt := PtDraining None\<rparr>))"
| drain: "wpt w = PtDraining None \<Longrightarrow> popNoWait (request (wq w)) = (Some c, r') \<Longrightarrow>
    pt_step w (w\<lparr>wq := (wq w)\<lparr>request := r'\<rparr>,
                 wpt := PtDraining (Some (setResult c 0 VEO_COMMAND_UNFINISHED))\<rparr>)"
| drained: "wpt w = PtDraining (Some c) \<Longrightarrow> pt_step w (complete c (w\<lparr>wpt := PtDraining None\<rparr>))"
| finish: "wpt w = PtDraining None \<Longrightarrow> popNoWait (request (wq w)) = (None, r') \<Longrightarrow>
    pt_step w (w\<lparr>wpt := PtEnded\<rparr>)"
| cleanup: "wpt w = PtRunning c \<Longrightarrow> cmd_handler c = CloseContext i \<Longrightarrow>
    pt_step w (w\<lparr>wpt := PtClosing i, wstate := VEO_STATE_EXIT\<rparr>)"
| reply: "wpt w = PtClosing i \<Longrightarrow>
    pt_step w (complete (setResult (new_Command i DummyReply) 0 0) (w\<lparr>wpt := PtEnded\<rparr>))"

definition step :: "world \<Rightarrow> world \<Rightarrow> bool" where
  "step w w' \<longleftrightarrow> pt_step w w' \<or> (\<exists>t. vh_step t w w')"

text \<open>A context that has reached its first block request.\<close>

definition fresh_world :: world where
  "fresh_world =
     \<lparr>wq = new_CommQueue, wstate = VEO_STATE_BLOCKED, wseq = 0, wrem = {}, wvh = (\<lambda>_. VhIdle),
      wpt = PtLoop, issued_log = [], pushed_log = [], done_log = [], taken_log = []\<rparr>"

inductive reach :: "world \<Rightarrow> bool" where
  init: "reach fresh_world"
| more: "reach w \<Longrightarrow> step w w' \<Longrightarrow> reach w'"

section \<open>Invariants\<close>

text \<open>The ID of the command that the pseudo thread holds.\<close>

fun current :: "pt_pc \<Rightarrow> u64 list" where
  "current (PtRunning c) = [cmd_id c]"
| "current (PtFailed c) = [cmd_id c]"
| "current (PtClosed c) = [cmd_id c]"
| "current (PtDraining (Some c)) = [cmd_id c]"
| "current (PtClosing i) = [i]"
| "current pt = []"

text \<open>The ID that a VH thread has fetched but not yet pushed.\<close>

fun in_flight :: "vh_pc \<Rightarrow> (req \<times> u64) option" where
  "in_flight (VhFetched r i) = Some (r, i)"
| "in_flight (VhIssued r i) = Some (r, i)"
| "in_flight (VhPushing r i) = Some (r, i)"
| "in_flight pc = None"

definition pending_ids :: "world \<Rightarrow> u64 list" where
  "pending_ids w = map cmd_id (bq_queue (request (wq w)))"

definition completed_ids :: "world \<Rightarrow> u64 list" where
  "completed_ids w = map cmd_id (bq_queue (completion (wq w)))"

text \<open>
  Requests are executed in the order of the pushes; each executed one is in the completion
  queue or was taken from it; close commands carry their own ID.
\<close>

definition fifo :: "world \<Rightarrow> bool" where
  "fifo w \<longleftrightarrow> pushed_log w = map cmd_id (done_log w) @ current (wpt w) @ pending_ids w"

definition accounted :: "world \<Rightarrow> bool" where
  "accounted w \<longleftrightarrow> mset (done_log w) = mset (bq_queue (completion (wq w))) + mset (taken_log w)"

definition own_close :: "cmd \<Rightarrow> bool" where
  "own_close c \<longleftrightarrow> (\<forall>j. cmd_handler c = CloseContext j \<longrightarrow> j = cmd_id c)"

fun pc_valid :: "vh_pc \<Rightarrow> bool" where
  "pc_valid (VhChecked r) = valid_req r"
| "pc_valid (VhFetched r i) = valid_req r"
| "pc_valid (VhIssued r i) = valid_req r"
| "pc_valid (VhPushing r i) = valid_req r"
| "pc_valid pc = True"

definition close_ids :: "world \<Rightarrow> bool" where
  "close_ids w \<longleftrightarrow> (\<forall>c \<in> set (bq_queue (request (wq w))). own_close c)
     \<and> (\<forall>c. wpt w = PtRunning c \<longrightarrow> own_close c)
     \<and> (\<forall>t. pc_valid (wvh w t))"

text \<open>IDs in flight are issued, not yet pushed, and belong to one thread.\<close>

definition owned :: "world \<Rightarrow> bool" where
  "owned w \<longleftrightarrow> distinct (pushed_log w) \<and> set (pushed_log w) \<subseteq> set (issued_log w)
     \<and> (\<forall>t r i. in_flight (wvh w t) = Some (r, i) \<longrightarrow> i \<in> set (issued_log w) - set (pushed_log w))
     \<and> (\<forall>t t' r r' i. in_flight (wvh w t) = Some (r, i) \<longrightarrow> in_flight (wvh w t') = Some (r', i) \<longrightarrow> t = t')"

lemmas view_defs = pending_ids_def completed_ids_def goto_def complete_def

lemma refused_cases: "\<exists>j. refused r i = VhReturned j \<or> refused r i = VhClosing j"
  by (cases "(r, i)" rule: refused.cases) auto

lemma accepted_cases: "\<exists>j. accepted r i = VhReturned j \<or> accepted r i = VhClosing j"
  by (cases "(r, i)" rule: accepted.cases) auto

lemma refused_accepted_flight [simp]:
  "in_flight (refused r i) = None" "in_flight (accepted r i) = None"
  "pc_valid (refused r i)" "pc_valid (accepted r i)"
  using refused_cases [of r i] accepted_cases [of r i] by auto

lemma peekCompletion_views:
  assumes "peekCompletion q i = (Some c, q')"
  shows "request q' = request q" "cmd_id c = i"
    "mset (bq_queue (completion q)) = add_mset c (mset (bq_queue (completion q')))"
proof -
  obtain r where r: "tryFindNoLock (completion q) i = (Some c, r)" "q' = q\<lparr>completion := r\<rparr>"
    using assms by (auto simp: peekCompletion_def tryFind_def split: prod.splits)
  from bq.find_key_SomeD [OF r(1)] r(2) show "request q' = request q" "cmd_id c = i"
    "mset (bq_queue (completion q)) = add_mset c (mset (bq_queue (completion q')))"
    by simp_all
qed

lemma waitCompletion_peek:
  "waitCompletion q i = Some (c, q') \<Longrightarrow> peekCompletion q i = (Some c, q')"
  by (auto simp: waitCompletion_def bq_wait_def peekCompletion_def tryFind_def
      split: option.splits prod.splits)

lemmas take_views = peekCompletion_views peekCompletion_views [OF waitCompletion_peek]

lemma fifo_vh:
  assumes "vh_step t w w'" and "fifo w" shows "fifo w'"
  using assms
  by (cases rule: vh_step.cases)
    (auto simp: fifo_def view_defs take_views bq_push_def new_Command_def)

lemma fifo_pt:
  assumes "pt_step w w'" and "fifo w" and "close_ids w" shows "fifo w'"
  using assms
  by (cases rule: pt_step.cases)
    (auto simp: fifo_def view_defs state_simps popRequest_eq popNoWait_def pushCompletion_def
      setRequestStatus_def setStatus_def close_ids_def own_close_def split: list.splits)

lemma accounted_vh:
  assumes "vh_step t w w'" and "accounted w" shows "accounted w'"
  using assms
  by (cases rule: vh_step.cases)
    (auto simp: accounted_def view_defs take_views(2,5) dest: take_views(3,6))

lemma accounted_pt:
  assumes "pt_step w w'" and "accounted w" shows "accounted w'"
  using assms
  by (cases rule: pt_step.cases)
    (auto simp: accounted_def view_defs state_simps popRequest_eq popNoWait_def pushCompletion_def
      setRequestStatus_def setStatus_def split: list.splits)

lemma own_close_new [simp]: "valid_req r \<Longrightarrow> own_close (new_Command i (req_handler r i))"
  by (cases r rule: valid_req.cases) (auto simp: own_close_def new_Command_def)

lemma close_ids_vh:
  assumes "vh_step t w w'" and "close_ids w" shows "close_ids w'"
proof -
  have "pc_valid (wvh w t)" using assms(2) by (simp add: close_ids_def)
  with assms show ?thesis
    by (cases rule: vh_step.cases) (auto simp: close_ids_def view_defs take_views bq_push_def)
qed

lemma close_ids_pt:
  assumes "pt_step w w'" and "close_ids w" shows "close_ids w'"
  using assms
  by (cases rule: pt_step.cases)
    (auto simp: close_ids_def view_defs state_simps popRequest_eq popNoWait_def pushCompletion_def
      setRequestStatus_def setStatus_def split: list.splits)

text \<open>The IDs issued are those of the sequential counter, in its order.\<close>

fun counter_after :: "nat \<Rightarrow> u64 \<Rightarrow> u64" where
  "counter_after 0 n = n"
| "counter_after (Suc k) n = counter_after k (snd (fetch_id n))"

definition counted :: "world \<Rightarrow> bool" where
  "counted w \<longleftrightarrow> issued_log w = issue_ids (length (issued_log w)) 0
     \<and> fetch_id (wseq w) = fetch_id (counter_after (length (issued_log w)) 0)"

lemma counter_after_snoc: "counter_after (Suc k) n = snd (fetch_id (counter_after k n))"
  by (induction k arbitrary: n) simp_all

lemma issue_ids_snoc:
  "issue_ids (Suc k) n = issue_ids k n @ [fst (fetch_id (counter_after k n))]"
  by (induction k arbitrary: n) simp_all

lemma counted_vh:
  assumes "vh_step t w w'" and "counted w" shows "counted w'"
  using assms(1)
proof (cases rule: vh_step.cases)
  case (fetch r)
  let ?k = "length (issued_log w)"
  have "fetch_id (counter_after ?k 0) = (wseq w, wseq w + 1)"
    using assms(2) fetch by (simp add: counted_def fetch_id_eq)
  then have "issue_ids (Suc ?k) 0 = issue_ids ?k 0 @ [wseq w]"
    "counter_after (Suc ?k) 0 = wseq w + 1"
    unfolding issue_ids_snoc counter_after_snoc by simp_all
  moreover have "issued_log w = issue_ids ?k 0"
    using assms(2) by (simp add: counted_def)
  moreover have "issued_log w' = issued_log w @ [wseq w]" "wseq w' = wseq w + 1"
    using fetch by (simp_all add: goto_def)
  ultimately show ?thesis
    by (simp add: counted_def del: issue_ids.simps counter_after.simps)
qed (use assms(2) in \<open>auto simp: counted_def goto_def fetch_id_eq VEO_REQUEST_ID_INVALID_def\<close>)

lemma counted_pt:
  assumes "pt_step w w'" and "counted w" shows "counted w'"
  using assms by (cases rule: pt_step.cases) (auto simp: counted_def complete_def)

lemma logs_pt:
  assumes "pt_step w w'"
  shows "issued_log w' = issued_log w" "pushed_log w' = pushed_log w" "wvh w' = wvh w"
  using assms by (cases rule: pt_step.cases; simp add: complete_def)+

lemma owned_pt: "pt_step w w' \<Longrightarrow> owned w \<Longrightarrow> owned w'"
  by (simp add: owned_def logs_pt)

lemma owned_narrow:
  assumes own: "owned w"
    and "issued_log w' = issued_log w" and "pushed_log w' = pushed_log w"
    and narrow: "\<And>t. in_flight (wvh w' t) = in_flight (wvh w t) \<or> in_flight (wvh w' t) = None"
  shows "owned w'"
proof -
  have keep: "in_flight (wvh w t) = Some x" if "in_flight (wvh w' t) = Some x" for t x
    using narrow [of t] that by auto
  show ?thesis
    using own assms(2,3) unfolding owned_def by (metis keep)
qed

lemma owned_vh:
  assumes "vh_step t w w'" and "owned w" and "distinct (issued_log w')"
  shows "owned w'"
  using assms(1)
proof (cases rule: vh_step.cases)
  case (fetch r)
  with assms(2,3) show ?thesis
    unfolding owned_def goto_def by (auto split: if_splits)
next
  case (push r i)
  have flight: "in_flight (wvh w' t') = (if t' = t then None else in_flight (wvh w t'))" for t'
    using push by (simp add: goto_def)
  have mine: "in_flight (wvh w t) = Some (r, i)" using push by simp
  then have "i \<in> set (issued_log w) - set (pushed_log w)"
    using assms(2) unfolding owned_def by blast
  moreover have "j \<noteq> i" if "in_flight (wvh w t') = Some (r', j)" "t' \<noteq> t" for t' r' j
    using assms(2) mine that unfolding owned_def by blast
  moreover have "pushed_log w' = pushed_log w @ [i]" "issued_log w' = issued_log w"
    using push by (simp_all add: goto_def)
  ultimately show ?thesis
    using assms(2) unfolding owned_def flight by (auto split: if_splits)
qed (rule owned_narrow [OF assms(2)]; simp add: goto_def)+

section \<open>What holds in every interleaving\<close>

lemma reach_close_ids: "reach w \<Longrightarrow> close_ids w"
proof (induction rule: reach.induct)
  case (more w w')
  then show ?case using close_ids_vh close_ids_pt unfolding step_def by blast
qed (simp add: close_ids_def fresh_world_def state_simps)

lemma reach_fifo: "reach w \<Longrightarrow> fifo w"
proof (induction rule: reach.induct)
  case (more w w')
  then show ?case using fifo_vh fifo_pt reach_close_ids unfolding step_def by blast
qed (simp add: fifo_def pending_ids_def fresh_world_def state_simps)

lemma reach_accounted: "reach w \<Longrightarrow> accounted w"
proof (induction rule: reach.induct)
  case (more w w')
  then show ?case using accounted_vh accounted_pt unfolding step_def by blast
qed (simp add: accounted_def completed_ids_def fresh_world_def state_simps)

lemma reach_counted: "reach w \<Longrightarrow> counted w"
proof (induction rule: reach.induct)
  case (more w w')
  then show ?case using counted_vh counted_pt unfolding step_def by blast
qed (simp add: counted_def fresh_world_def)

lemma issued_log_grows:
  assumes "step w w'" shows "\<exists>ids. issued_log w' = issued_log w @ ids"
proof (cases "pt_step w w'")
  case False
  with assms obtain t where "vh_step t w w'" by (auto simp: step_def)
  then show ?thesis by (cases rule: vh_step.cases) (auto simp: goto_def)
qed (simp add: logs_pt)

lemma reach_owned: "reach w \<Longrightarrow> distinct (issued_log w) \<Longrightarrow> owned w"
proof (induction rule: reach.induct)
  case (more w w')
  have "distinct (issued_log w)"
    using issued_log_grows [OF more.hyps(2)] more.prems by auto
  then show ?case
    using more owned_vh owned_pt unfolding step_def by blast
qed (simp add: owned_def fresh_world_def)

lemma reach_issued:
  assumes "reach w"
  shows "length (issued_log w) < 2 ^ 64 \<Longrightarrow> distinct (issued_log w)"
    and "VEO_REQUEST_ID_INVALID \<notin> set (issued_log w)"
proof -
  have log: "issued_log w = issue_ids (length (issued_log w)) 0"
    using reach_counted [OF assms] by (simp add: counted_def)
  show "length (issued_log w) < 2 ^ 64 \<Longrightarrow> distinct (issued_log w)"
    by (subst log) (rule issue_ids_distinct)
  show "VEO_REQUEST_ID_INVALID \<notin> set (issued_log w)"
    by (subst log) (rule issue_ids_valid)
qed

text \<open>The places where an accepted request can be.\<close>

definition places_of :: "world \<Rightarrow> u64 list" where
  "places_of w = map cmd_id (taken_log w) @ completed_ids w @ current (wpt w) @ pending_ids w"

lemma reach_places:
  assumes "reach w" and "length (issued_log w) < 2 ^ 64"
  shows "distinct (places_of w)" "set (places_of w) = set (pushed_log w)"
    "set (pushed_log w) \<subseteq> set (issued_log w)"
proof -
  have own: "owned w" using reach_owned [OF assms(1) reach_issued(1) [OF assms]] .
  have "mset (map cmd_id (done_log w)) = mset (completed_ids w) + mset (map cmd_id (taken_log w))"
    using reach_accounted [OF assms(1)] by (simp add: accounted_def completed_ids_def)
  then have "mset (places_of w) = mset (pushed_log w)"
    using reach_fifo [OF assms(1)] by (simp add: places_of_def fifo_def)
  then have "distinct (places_of w) = distinct (pushed_log w)" "set (places_of w) = set (pushed_log w)"
    by (rule mset_eq_imp_distinct_iff, rule mset_eq_setD)
  with own show "distinct (places_of w)" "set (places_of w) = set (pushed_log w)"
      "set (pushed_log w) \<subseteq> set (issued_log w)"
    unfolding owned_def by blast+
qed

text \<open>
  C4: however the threads interleave, requests are executed and completed in the order in
  which they entered the queue: the IDs pushed so far are those completed, followed by the
  one in execution, followed by those still waiting, in this order.
\<close>

theorem completion_order_is_push_order:
  assumes "reach w"
  shows "pushed_log w = map cmd_id (done_log w) @ current (wpt w) @ map cmd_id (bq_queue (request (wq w)))"
  using reach_fifo [OF assms] by (simp add: fifo_def pending_ids_def)

text \<open>
  C3: however the threads interleave, no accepted request is lost or duplicated and no result
  is handed out twice: as long as fewer than \<open>2 ^ 64\<close> IDs were issued, every accepted ID is in
  exactly one place, handed out, in the completion queue, in execution or in the request
  queue, and there only once; none is the invalid ID; and the commands handed out, with their
  results, are those that were posted and are not in the completion queue any more.
\<close>

theorem each_request_in_one_place:
  assumes "reach w" and "length (issued_log w) < 2 ^ 64"
  defines "places \<equiv> map cmd_id (taken_log w) @ map cmd_id (bq_queue (completion (wq w)))
                    @ current (wpt w) @ map cmd_id (bq_queue (request (wq w)))"
  shows "distinct places \<and> set places = set (pushed_log w)
     \<and> set (pushed_log w) \<subseteq> set (issued_log w) \<and> VEO_REQUEST_ID_INVALID \<notin> set places
     \<and> mset (done_log w) = mset (bq_queue (completion (wq w))) + mset (taken_log w)"
proof -
  have "places = places_of w"
    by (simp add: places_def places_of_def completed_ids_def pending_ids_def)
  with reach_places [OF assms(1,2)] reach_issued(2) [OF assms(1)] reach_accounted [OF assms(1)]
  show ?thesis by (auto simp: accounted_def)
qed

section \<open>When the pseudo thread has ended\<close>

inductive leads_to :: "world \<Rightarrow> world \<Rightarrow> bool" where
  now: "leads_to w w"
| later: "leads_to w w' \<Longrightarrow> step w' w'' \<Longrightarrow> leads_to w w''"

lemma leads_to_reach: "leads_to w w' \<Longrightarrow> reach w \<Longrightarrow> reach w'"
  by (induction rule: leads_to.induct) (auto intro: reach.more)

lemma ended_step:
  assumes "step w w'" and "wpt w = PtEnded" and "i \<notin> set (completed_ids w)"
  shows "wpt w' = PtEnded \<and> i \<notin> set (completed_ids w')"
proof -
  have "\<not> pt_step w w'" using assms(2) by (auto elim: pt_step.cases)
  with assms(1) obtain t where "vh_step t w w'" by (auto simp: step_def)
  then show ?thesis
  proof (cases rule: vh_step.cases)
    case (peek j c q')
    then show ?thesis
      using assms(2,3) peekCompletion_views(3) [OF peek(4), THEN arg_cong, of set_mset]
      by (auto simp: completed_ids_def)
  next
    case (wait_end j c q')
    then show ?thesis
      using assms(2,3) peekCompletion_views(3) [OF waitCompletion_peek [OF wait_end(3)], THEN arg_cong, of set_mset]
      by (auto simp: view_defs)
  next
    case (close_end j c q')
    then show ?thesis
      using assms(2,3) peekCompletion_views(3) [OF waitCompletion_peek [OF close_end(3)], THEN arg_cong, of set_mset]
      by (auto simp: view_defs)
  qed (use assms(2,3) in \<open>simp_all add: view_defs\<close>)
qed

lemma ended_for_ever:
  assumes "leads_to w w'" and "wpt w = PtEnded" and "i \<notin> set (completed_ids w)"
  shows "wpt w' = PtEnded \<and> i \<notin> set (completed_ids w')"
  using assms by (induction rule: leads_to.induct) (blast dest: ended_step)+

lemma waitCompletion_absent: "i \<notin> set (completed_ids w) \<Longrightarrow> waitCompletion (wq w) i = None"
  by (simp add: completed_ids_def waitCompletion_def bq_wait_def tryFindNoLock_def find_loop_absent)

lemma ended_waiting_step:
  assumes "step w w'" and "wpt w = PtEnded" and "i \<notin> set (completed_ids w)"
    and "wvh w t = VhWaiting i \<or> wvh w t = VhClosing i"
  shows "wvh w' t = wvh w t"
proof -
  have "\<not> pt_step w w'" using assms(2) by (auto elim: pt_step.cases)
  with assms(1) obtain t' where "vh_step t' w w'" by (auto simp: step_def)
  then show ?thesis
    using assms(4) waitCompletion_absent [OF assms(3)]
    by (cases rule: vh_step.cases; cases "t' = t") (auto simp: goto_def)
qed

lemma ended_waiting:
  assumes "leads_to w w'" and "wpt w = PtEnded" and "i \<notin> set (completed_ids w)"
    and "wvh w t = VhWaiting i \<or> wvh w t = VhClosing i"
  shows "wvh w' t = wvh w t"
  using assms
proof (induction rule: leads_to.induct)
  case (later w w' w'')
  then have "wvh w' t = wvh w t" by blast
  with later.prems ended_for_ever [OF later.hyps(1) later.prems(1,2)] ended_waiting_step [OF later.hyps(2)]
  show ?case by metis
qed simp

text \<open>
  Once the pseudo thread has ended, a result that is not in the completion queue never
  gets there: a thread waiting for it stays where it is in every continuation.
\<close>

theorem waiting_for_ended_thread:
  assumes "wpt w = PtEnded" and "i \<notin> cmd_id ` set (bq_queue (completion (wq w)))"
    and "wvh w t = VhWaiting i \<or> wvh w t = VhClosing i"
    and "leads_to w w'"
  shows "wvh w' t = wvh w t \<and> waitCompletion (wq w') i = None"
proof -
  have "i \<notin> set (completed_ids w)" using assms(2) by (simp add: completed_ids_def)
  from ended_waiting [OF assms(4,1) this assms(3)] ended_for_ever [OF assms(4,1) this]
  show ?thesis by (simp add: waitCompletion_absent)
qed

section \<open>Races with a failing command\<close>

text \<open>
  The test of the context state, the test of the queue state and the push are separate steps.
  The following runs are possible; each starts with a request of thread 0 that fails while
  thread 1 is on its way through a request of its own.
\<close>

definition stranded :: "world \<Rightarrow> u64 \<Rightarrow> bool" where
  "stranded w i \<longleftrightarrow> (\<forall>w'. leads_to w w' \<longrightarrow> i \<notin> set (completed_ids w'))"

lemma strandedI: "wpt w = PtEnded \<Longrightarrow> i \<notin> set (completed_ids w) \<Longrightarrow> stranded w i"
  using ended_for_ever by (auto simp: stranded_def)

lemma reach_vh: "reach w \<Longrightarrow> vh_step t w w' \<Longrightarrow> reach w'"
  using reach.more step_def by blast

lemma reach_pt: "reach w \<Longrightarrow> pt_step w w' \<Longrightarrow> reach w'"
  using reach.more step_def by blast

text \<open>A thread that has issued its ID.\<close>

definition issuing :: "nat \<Rightarrow> req \<Rightarrow> world \<Rightarrow> world" where
  "issuing t r w = goto t (VhIssued r (wseq w))
     (w\<lparr>wseq := wseq w + 1, issued_log := issued_log w @ [wseq w], wrem := insert (wseq w) (wrem w)\<rparr>)"

lemma reach_issuing:
  assumes "reach w" and "wvh w t = VhIdle" and "valid_req r" and "wstate w \<noteq> VEO_STATE_EXIT"
    and "wseq w \<noteq> VEO_REQUEST_ID_INVALID"
  shows "reach (issuing t r w)"
proof -
  let ?w1 = "goto t (VhChecked r) w"
  let ?w2 = "goto t (VhFetched r (wseq ?w1))
    (?w1\<lparr>wseq := wseq ?w1 + 1, issued_log := issued_log ?w1 @ [wseq ?w1]\<rparr>)"
  let ?w3 = "goto t (VhIssued r (wseq w)) (?w2\<lparr>wrem := insert (wseq w) (wrem ?w2)\<rparr>)"
  have "reach ?w1"
    using reach_vh [OF assms(1) vh_step.check] assms(2-4) by blast
  then have "reach ?w2"
    by (rule reach_vh [OF _ vh_step.fetch]) (use assms(5) in \<open>simp_all add: goto_def\<close>)
  then have "reach ?w3"
    by (rule reach_vh [OF _ vh_step.record_id]) (simp add: goto_def)
  moreover have "?w3 = issuing t r w" by (simp add: issuing_def goto_def)
  ultimately show ?thesis by simp
qed

definition pushing :: "nat \<Rightarrow> req \<Rightarrow> u64 \<Rightarrow> world \<Rightarrow> world" where
  "pushing t r i w = goto t (accepted r i)
      (w\<lparr>wq := (wq w)\<lparr>request := bq_push (request (wq w)) (new_Command i (req_handler r i))\<rparr>,
         pushed_log := pushed_log w @ [i]\<rparr>)"

lemma reach_pushing: "reach w \<Longrightarrow> wvh w t = VhPushing r i \<Longrightarrow> reach (pushing t r i w)"
  unfolding pushing_def by (rule reach_vh [OF _ vh_step.push])

text \<open>The only request fails, and the pseudo thread ends.\<close>

lemma reach_failure:
  assumes "reach w" and "wpt w = PtLoop" and "wstate w = VEO_STATE_BLOCKED"
    and "bq_queue (request (wq w)) = [c]" and "\<And>j. cmd_handler c \<noteq> CloseContext j"
  shows "\<exists>w'. reach w' \<and> wpt w' = PtEnded \<and> wstate w' = VEO_STATE_EXIT \<and> wvh w' = wvh w
     \<and> wrem w' = wrem w \<and> pushed_log w' = pushed_log w
     \<and> request (wq w') = \<lparr>bq_queue = [], bq_state = VEO_QUEUE_CLOSED\<rparr>
     \<and> completed_ids w' = completed_ids w @ [cmd_id c]"
proof -
  let ?q = "(wq w)\<lparr>request := (request (wq w))\<lparr>bq_queue := []\<rparr>\<rparr>"
  let ?c = "setResult c 1 VEO_COMMAND_ERROR"
  let ?w1 = "w\<lparr>wq := ?q, wpt := PtRunning c\<rparr>"
  let ?w2 = "?w1\<lparr>wpt := PtFailed ?c, wstate := VEO_STATE_EXIT\<rparr>"
  let ?w3 = "?w2\<lparr>wpt := PtClosed ?c, wq := setRequestStatus (wq ?w2) VEO_QUEUE_CLOSED\<rparr>"
  let ?w4 = "complete ?c (?w3\<lparr>wpt := PtDraining None\<rparr>)"
  let ?w5 = "?w4\<lparr>wpt := PtEnded\<rparr>"
  have "reach ?w1"
    by (rule reach_pt [OF assms(1) pt_step.pop]) (use assms(2-4) in \<open>simp_all add: popRequest_eq\<close>)
  then have "reach ?w2"
    by (rule reach_pt [OF _ pt_step.fail]) (use assms(5) in simp_all)
  then have "reach ?w3" by (rule reach_pt [OF _ pt_step.shut]) simp
  then have "reach ?w4" by (rule reach_pt [OF _ pt_step.report]) simp
  then have "reach ?w5"
    by (rule reach_pt [OF _ pt_step.finish])
      (simp_all add: complete_def popNoWait_def state_simps)
  then show ?thesis
    by (intro exI [of _ ?w5])
      (simp add: complete_def completed_ids_def state_simps setRequestStatus_def setStatus_def)
qed

text \<open>Thread 0 has pushed a transfer and thread 1 has issued its ID: the common beginning.\<close>

lemma reach_race_start:
  assumes "valid_req r"
  shows "\<exists>w c. reach w \<and> wpt w = PtLoop \<and> wstate w = VEO_STATE_BLOCKED
     \<and> bq_queue (request (wq w)) = [c] \<and> cmd_id c = 0 \<and> (\<forall>j. cmd_handler c \<noteq> CloseContext j)
     \<and> bq_state (request (wq w)) = VEO_QUEUE_READY
     \<and> wvh w 1 = VhIssued r 1 \<and> 1 \<in> wrem w \<and> pushed_log w = [0] \<and> completed_ids w = []"
proof -
  let ?r = "Plain (ReadMem 0 0 8)"
  let ?w1 = "issuing 0 ?r fresh_world"
  let ?w2 = "goto 0 (VhPushing ?r 0) ?w1"
  let ?w3 = "pushing 0 ?r 0 ?w2"
  let ?w4 = "issuing 1 r ?w3"
  have "reach ?w1"
    by (rule reach_issuing [OF reach.init]) (simp_all add: fresh_world_def VEO_REQUEST_ID_INVALID_def)
  then have "reach ?w2"
    by (rule reach_vh [OF _ vh_step.found_open])
      (simp_all add: issuing_def goto_def fresh_world_def state_simps)
  then have "reach ?w3"
    by (rule reach_pushing) (simp add: goto_def)
  then have "reach ?w4"
    by (rule reach_issuing)
      (use assms in \<open>simp_all add: pushing_def issuing_def goto_def fresh_world_def VEO_REQUEST_ID_INVALID_def\<close>)
  then show ?thesis
    by (intro exI [of _ ?w4] exI [of _ "new_Command 0 (ReadMem 0 0 8)"])
      (simp add: pushing_def issuing_def goto_def fresh_world_def state_simps completed_ids_def)
qed

text \<open>
  C39: a request can be accepted and lost.  There is a run in which a thread finds the queue
  open, another request fails and the pseudo thread closes and drains the queue and ends, and
  only then the first thread pushes: its function returns a valid ID, the command stays in the
  request queue, and no continuation ever completes it.
\<close>

theorem request_lost_by_race:
  "\<exists>w t i. reach w \<and> wpt w = PtEnded \<and> wvh w t = VhReturned i \<and> i \<noteq> VEO_REQUEST_ID_INVALID
     \<and> i \<in> wrem w \<and> i \<in> cmd_id ` set (bq_queue (request (wq w))) \<and> stranded w i"
proof -
  let ?r = "Plain (CallFunction 1 0)"
  obtain w c where w: "reach w" "wpt w = PtLoop" "wstate w = VEO_STATE_BLOCKED"
      "bq_queue (request (wq w)) = [c]" "cmd_id c = 0" "\<And>j. cmd_handler c \<noteq> CloseContext j"
      "bq_state (request (wq w)) = VEO_QUEUE_READY"
      "wvh w 1 = VhIssued ?r 1" "1 \<in> wrem w" "completed_ids w = []"
    using reach_race_start [of ?r] by auto
  let ?w1 = "goto 1 (VhPushing ?r 1) w"
  have "reach ?w1" by (rule reach_vh [OF w(1) vh_step.found_open]) (use w in simp_all)
  then obtain w2 where w2: "reach w2" "wpt w2 = PtEnded" "wvh w2 1 = VhPushing ?r 1" "1 \<in> wrem w2"
      "completed_ids w2 = [0]"
    using reach_failure [of ?w1 c] w by (auto simp: goto_def completed_ids_def)
  let ?w3 = "pushing 1 ?r 1 w2"
  have "stranded ?w3 1"
    by (rule strandedI) (use w2 in \<open>simp_all add: pushing_def view_defs\<close>)
  moreover have "reach ?w3" by (rule reach_pushing) (use w2 in simp_all)
  ultimately show ?thesis
    using w2
    by (intro exI [of _ ?w3] exI [of _ 1])
      (simp add: pushing_def goto_def state_simps VEO_REQUEST_ID_INVALID_def)
qed

text \<open>
  What a refused push leads to.  There are runs in which the queue is already closed when
  thread 1 looks at it, although the context was not in state EXIT when the thread began.
  \<^verbatim>\<open>callVHAsync\<close> then returns a valid ID for a command that was never queued and whose result
  never comes; \<^verbatim>\<open>close\<close> waits for the invalid ID, for which no completion ever arrives.
\<close>

theorem refused_push_misreported:
  "(\<exists>w i. reach w \<and> wvh w 1 = VhReturned i \<and> i \<noteq> VEO_REQUEST_ID_INVALID \<and> i \<in> wrem w
      \<and> i \<notin> set (pushed_log w) \<and> stranded w i)
   \<and> (\<exists>w. reach w \<and> wvh w 1 = VhClosing VEO_REQUEST_ID_INVALID \<and> stranded w VEO_REQUEST_ID_INVALID)"
proof -
  have closed: "\<exists>w. reach w \<and> wvh w 1 = refused r 1 \<and> 1 \<in> wrem w \<and> pushed_log w = [0]
      \<and> stranded w 1 \<and> stranded w VEO_REQUEST_ID_INVALID" if v: "valid_req r" for r
  proof -
    obtain u c where u: "reach u" "wpt u = PtLoop" "wstate u = VEO_STATE_BLOCKED"
        "bq_queue (request (wq u)) = [c]" "cmd_id c = 0" "\<And>j. cmd_handler c \<noteq> CloseContext j"
        "wvh u 1 = VhIssued r 1" "1 \<in> wrem u" "pushed_log u = [0]" "completed_ids u = []"
      using reach_race_start [OF v] by auto
    obtain w where w: "reach w" "wpt w = PtEnded" "wvh w 1 = VhIssued r 1" "1 \<in> wrem w"
        "completed_ids w = [0]" "pushed_log w = [0]" "bq_state (request (wq w)) = VEO_QUEUE_CLOSED"
      using reach_failure [OF u(1-4,6)] u by auto
    let ?w = "goto 1 (refused r 1) w"
    have "reach ?w" by (rule reach_vh [OF w(1) vh_step.found_closed]) (use w in simp_all)
    moreover have "stranded ?w 1" "stranded ?w VEO_REQUEST_ID_INVALID"
      by (rule strandedI; use w in \<open>simp add: view_defs VEO_REQUEST_ID_INVALID_def\<close>)+
    ultimately show ?thesis
      using w by (intro exI [of _ ?w]) (simp add: goto_def)
  qed
  from closed [of "Plain (CallVH 1 0)"] closed [of Close] show ?thesis
    by (auto simp: VEO_REQUEST_ID_INVALID_def)
qed

section \<open>The sequential functions as runs\<close>

text \<open>The shared part of a world is that of a context.\<close>

definition represents :: "world \<Rightarrow> 'os tstate \<Rightarrow> bool" where
  "represents w s \<longleftrightarrow> wq w = comq (tc s) \<and> wstate w = ctx_state (tc s)
     \<and> wseq w = seq_no (tc s) \<and> wrem w = rem_reqid (tc s)"

lemma leads_vh: "leads_to w w' \<Longrightarrow> vh_step t w' w'' \<Longrightarrow> leads_to w w''"
  using leads_to.later step_def by blast

lemma leads_pt: "leads_to w w' \<Longrightarrow> pt_step w' w'' \<Longrightarrow> leads_to w w''"
  using leads_to.later step_def by blast

lemma leads_issuing:
  assumes "wvh w t = VhIdle" and "valid_req r" and "wstate w \<noteq> VEO_STATE_EXIT"
  shows "\<exists>w'. leads_to w w' \<and> wvh w' = (wvh w)(t := VhIssued r (fst (fetch_id (wseq w))))
     \<and> wseq w' = snd (fetch_id (wseq w)) \<and> wrem w' = insert (fst (fetch_id (wseq w))) (wrem w)
     \<and> wq w' = wq w \<and> wstate w' = wstate w \<and> wpt w' = wpt w"
proof -
  let ?i = "fst (fetch_id (wseq w))"
  let ?w1 = "goto t (VhChecked r) w"
  have w1: "leads_to w ?w1"
    using leads_vh [OF leads_to.now vh_step.check] assms by blast
  obtain w2 where w2: "leads_to w w2" "wvh w2 t = VhChecked r" "wseq w2 = ?i"
      "w2 = ?w1\<lparr>wseq := ?i\<rparr>"
  proof (cases "wseq w = VEO_REQUEST_ID_INVALID")
    case True
    have "vh_step t ?w1 (?w1\<lparr>wseq := wseq ?w1 + 1\<rparr>)"
      by (rule vh_step.fetch_again) (use True in \<open>simp_all add: goto_def\<close>)
    from leads_vh [OF w1 this] that [of "?w1\<lparr>wseq := ?i\<rparr>"] True show ?thesis
      by (simp add: goto_def fetch_id_eq VEO_REQUEST_ID_INVALID_def)
  next
    case False
    with w1 that [of "?w1\<lparr>wseq := ?i\<rparr>"] show ?thesis by (simp add: goto_def fetch_id_eq)
  qed
  let ?w3 = "goto t (VhFetched r ?i) (w2\<lparr>wseq := wseq w2 + 1, issued_log := issued_log w2 @ [?i]\<rparr>)"
  have "vh_step t w2 ?w3"
    using vh_step.fetch [OF w2(2)] fetch_id_valid w2(3) by simp
  then have w3: "leads_to w ?w3" by (rule leads_vh [OF w2(1)])
  let ?w4 = "goto t (VhIssued r ?i) (?w3\<lparr>wrem := insert ?i (wrem ?w3)\<rparr>)"
  have "leads_to w ?w4"
    by (rule leads_vh [OF w3 vh_step.record_id]) (simp add: goto_def)
  then show ?thesis
    using w2(4) by (intro exI [of _ ?w4]) (simp add: goto_def fetch_id_eq)
qed

text \<open>
  The sequential model of a request is one of its interleavings: when a request function
  of the sequential model gives the ID \<open>i\<close> and a new state, a thread that executes the steps
  of the request without interruption returns \<open>i\<close> and leaves the shared data in that state.
\<close>

theorem submit_is_a_run:
  assumes "represents w s" and "wvh w t = VhIdle" and "ctx_state (tc s) \<noteq> VEO_STATE_EXIT"
    and "valid_req (Plain f)" and "\<And>g a. f \<noteq> CallVH g a" and "submit f s = Some (Inr i, s')"
  shows "\<exists>w'. leads_to w w' \<and> represents w' s' \<and> wvh w' = (wvh w)(t := VhReturned i) \<and> wpt w' = wpt w"
proof -
  let ?i = "fst (fetch_id (seq_no (tc s)))"
  obtain w1 where w1: "leads_to w w1" "wvh w1 = (wvh w)(t := VhIssued (Plain f) ?i)"
      "wseq w1 = snd (fetch_id (seq_no (tc s)))" "wrem w1 = insert ?i (rem_reqid (tc s))"
      "wq w1 = comq (tc s)" "wstate w1 = ctx_state (tc s)" "wpt w1 = wpt w"
    using leads_issuing [of w t "Plain f"] assms(1-4) by (auto simp: represents_def)
  show ?thesis
  proof (cases "bq_state (request (comq (tc s))) = VEO_QUEUE_READY")
    case True
    let ?w2 = "goto t (VhPushing (Plain f) ?i) w1"
    have w2: "leads_to w ?w2"
      by (rule leads_vh [OF w1(1) vh_step.found_open]) (use w1 True in simp_all)
    have "vh_step t ?w2 (pushing t (Plain f) ?i ?w2)"
      unfolding pushing_def by (rule vh_step.push) (simp add: goto_def)
    with w2 have "leads_to w (pushing t (Plain f) ?i ?w2)" by (rule leads_vh)
    moreover have "i = ?i" "s' = set_pending (pending s @ [new_Command ?i f]) (issued s)"
      using assms(6) True by (auto simp: submitted_state)
    ultimately show ?thesis
      using w1 by (intro exI [of _ "pushing t (Plain f) ?i ?w2"])
        (simp add: pushing_def goto_def represents_def set_pending_def set_comq_def pending_def
          issued_def bq_push_def)
  next
    case False
    let ?w2 = "goto t (VhReturned VEO_REQUEST_ID_INVALID) w1"
    have "refused (Plain f) ?i = VhReturned VEO_REQUEST_ID_INVALID"
      using assms(5) by (cases f) auto
    then have "vh_step t w1 ?w2"
      using vh_step.found_closed [of w1 t "Plain f" ?i] w1 False by simp
    then have "leads_to w ?w2" by (rule leads_vh [OF w1(1)])
    moreover have "i = VEO_REQUEST_ID_INVALID" "s' = issued s"
      using assms(6) False by (simp_all add: submit_eq)
    ultimately show ?thesis
      using w1 by (intro exI [of _ ?w2]) (simp add: goto_def represents_def)
  qed
qed

lemma leads_drain:
  assumes "leads_to w0 w" and "wpt w = PtDraining None"
  shows "\<exists>w'. leads_to w0 w' \<and> wpt w' = PtEnded \<and> wq w' = setCompletion (wq w)
     \<and> wvh w' = wvh w \<and> wstate w' = wstate w \<and> wseq w' = wseq w \<and> wrem w' = wrem w"
  using assms
proof (induction "bq_queue (request (wq w))" arbitrary: w)
  case Nil
  have "leads_to w0 (w\<lparr>wpt := PtEnded\<rparr>)"
    by (rule leads_pt [OF Nil.prems(1) pt_step.finish]) (use Nil in \<open>simp_all add: popNoWait_def\<close>)
  moreover have "setCompletion (wq w) = wq w" using Nil(1) by (simp add: setCompletion_eq)
  ultimately show ?case by (intro exI [of _ "w\<lparr>wpt := PtEnded\<rparr>"]) simp
next
  case (Cons c cs)
  let ?c = "setResult c 0 VEO_COMMAND_UNFINISHED"
  let ?w1 = "w\<lparr>wq := (wq w)\<lparr>request := (request (wq w))\<lparr>bq_queue := cs\<rparr>\<rparr>, wpt := PtDraining (Some ?c)\<rparr>"
  let ?w2 = "complete ?c (?w1\<lparr>wpt := PtDraining None\<rparr>)"
  have "leads_to w0 ?w1"
    by (rule leads_pt [OF Cons.prems(1) pt_step.drain])
      (use Cons(2) [symmetric] Cons.prems in \<open>simp_all add: popNoWait_def\<close>)
  then have "leads_to w0 ?w2" by (rule leads_pt [OF _ pt_step.drained]) simp
  moreover have "setCompletion (wq ?w2) = setCompletion (wq w)"
    using Cons(2) [symmetric]
    by (simp add: setCompletion_eq complete_def pushCompletion_def bq_push_def)
  ultimately show ?case
    using Cons.hyps(1) [of ?w2] by (simp add: complete_def state_simps)
qed

lemma leads_failure:
  assumes "leads_to w0 w" and "wpt w = PtRunning c" and "\<And>j. cmd_handler c \<noteq> CloseContext j"
  shows "\<exists>w'. leads_to w0 w' \<and> wpt w' = PtEnded \<and> wstate w' = VEO_STATE_EXIT
     \<and> wq w' = setCompletion (pushCompletion (setRequestStatus (wq w) VEO_QUEUE_CLOSED) (setResult c v st))
     \<and> wvh w' = wvh w \<and> wseq w' = wseq w \<and> wrem w' = wrem w"
proof -
  let ?c = "setResult c v st"
  let ?w2 = "w\<lparr>wpt := PtFailed ?c, wstate := VEO_STATE_EXIT\<rparr>"
  let ?w3 = "?w2\<lparr>wpt := PtClosed ?c, wq := setRequestStatus (wq ?w2) VEO_QUEUE_CLOSED\<rparr>"
  let ?w4 = "complete ?c (?w3\<lparr>wpt := PtDraining None\<rparr>)"
  have "leads_to w0 ?w2" by (rule leads_pt [OF assms(1) pt_step.fail]) (use assms in simp_all)
  then have "leads_to w0 ?w3" by (rule leads_pt [OF _ pt_step.shut]) simp
  then have "leads_to w0 ?w4" by (rule leads_pt [OF _ pt_step.report]) simp
  from leads_drain [OF this] show ?thesis by (auto simp: complete_def)
qed

lemma represents_complete_command:
  assumes "represents w t"
  shows "rv = 0 \<Longrightarrow> represents (complete c (w\<lparr>wpt := PtLoop\<rparr>)) (complete_command rv c t)"
    and "rv \<noteq> 0 \<Longrightarrow> comq (tc (complete_command rv c t))
       = setCompletion (pushCompletion (setRequestStatus (wq w) VEO_QUEUE_CLOSED) c)"
  using assms
  by (simp_all add: represents_def complete_def complete_command_def set_comq_def Let_def
      pushCompletion_def bq_push_def setCompletion_eq setRequestStatus_def setStatus_def)

lemma complete_command_seq_no [simp]: "seq_no (tc (complete_command rv c s)) = seq_no (tc s)"
  by (simp add: complete_command_def set_comq_def Let_def)

text \<open>
  The sequential model of the event loop is one of its interleavings: an iteration that
  returns is a sequence of steps of the pseudo thread, with the same queues, state and IDs at
  the end, and the thread is at the head of its loop or at its end accordingly.
\<close>

theorem event_loop_iteration_is_a_run:
  assumes rep: "represents w s" and "wpt w = PtLoop"
    and "\<forall>c \<in> set (pending s). cmd_handler c \<noteq> DummyReply"
    and "eventLoop_iter E s = Some (Inr st, s')"
  shows "\<exists>w'. leads_to w w' \<and> represents w' s' \<and> wvh w' = wvh w
     \<and> wpt w' = (if st = LoopEnded then PtEnded else PtLoop)"
proof (cases "ctx_state (tc s) = VEO_STATE_BLOCKED \<and> pending s \<noteq> []")
  case False
  show ?thesis
  proof (cases "ctx_state (tc s) = VEO_STATE_BLOCKED")
    case True
    with False assms show ?thesis
      by (intro exI [of _ w]) (auto simp: eventLoop_iter_eq intro: leads_to.now)
  next
    case False
    have "leads_to w (w\<lparr>wpt := PtEnded\<rparr>)"
      by (rule leads_pt [OF leads_to.now pt_step.leave]) (use assms False in \<open>simp_all add: represents_def\<close>)
    with assms False show ?thesis
      by (intro exI [of _ "w\<lparr>wpt := PtEnded\<rparr>"]) (auto simp: eventLoop_iter_eq represents_def)
  qed
next
  case True
  then obtain c cs where cs: "pending s = c # cs" by (auto simp: neq_Nil_conv)
  obtain rv c' t where run: "run_command E (cmd_handler c) c (set_pending cs s) = Some (Inr (rv, c'), t)"
    and st: "st = (if rv = 0 then LoopContinue else LoopEnded)" and s': "s' = complete_command rv c' t"
    using assms(4) True cs by (auto simp: eventLoop_iter_eq bindP_eq_Inr)
  obtain v sta where c': "c' = setResult c v sta"
    using run_command_sets_result [OF run] assms(3) cs by auto
  have not_close: "cmd_handler c \<noteq> CloseContext j" for j
    using run by (auto simp: run_close_eq)
  have "same_queues (set_pending cs s) t" "stays_open (set_pending cs s) t"
    using run_command_same_queues [OF run] open_state.run_command_returns [OF run] .
  then have t: "comq (tc t) = comq (tc (set_pending cs s))" "seq_no (tc t) = seq_no (tc s)"
      "rem_reqid (tc t) = rem_reqid (tc s)" "ctx_state (tc t) \<noteq> VEO_STATE_EXIT"
    using True by (auto simp: same_queues_def stays_open_def set_pending_def set_comq_def)
  let ?w1 = "w\<lparr>wq := comq (tc t), wpt := PtRunning c\<rparr>"
  have w1: "leads_to w ?w1"
    by (rule leads_pt [OF leads_to.now pt_step.pop])
      (use assms(1,2) True cs t(1) in \<open>simp_all add: represents_def popRequest_eq pending_def
        set_pending_def set_comq_def\<close>)
  show ?thesis
  proof (cases "rv = 0")
    case ok: True
    let ?w2 = "complete c' (?w1\<lparr>wpt := PtLoop, wstate := ctx_state (tc t)\<rparr>)"
    have "leads_to w ?w2"
      unfolding c' by (rule leads_pt [OF w1 pt_step.succeed]) (use not_close t(4) in simp_all)
    moreover have "represents ?w2 s'"
      using represents_complete_command(1) [of "?w1\<lparr>wstate := ctx_state (tc t)\<rparr>" t rv c'] ok s' rep t
      by (simp add: represents_def complete_def)
    ultimately show ?thesis
      using st ok by (intro exI [of _ ?w2]) (simp add: complete_def)
  next
    case False
    obtain w2 where w2: "leads_to w w2" "wpt w2 = PtEnded" "wstate w2 = VEO_STATE_EXIT"
        "wq w2 = setCompletion (pushCompletion (setRequestStatus (wq ?w1) VEO_QUEUE_CLOSED) c')"
        "wvh w2 = wvh w" "wseq w2 = wseq w" "wrem w2 = wrem w"
      using leads_failure [OF w1 _ not_close, of v sta] c' by auto
    have "represents w2 s'"
      using represents_complete_command(2) [of "?w1\<lparr>wstate := ctx_state (tc t)\<rparr>" t rv c'] False s' rep t w2
      by (simp add: represents_def)
    then show ?thesis
      using w2 st False by (intro exI [of _ w2]) simp
  qed
qed

end
