(* ===== verification/Request_Examples.thy ===== *)
theory Request_Examples
  imports Examples Interleaving
begin

text \<open>
  The properties of requests, of the event loop and of interleavings on concrete inputs.
\<close>

section \<open>Commands on the example machine\<close>

text \<open>A call without arguments, started on any machine, and a handler that stops at once.\<close>

lemma scripted_handler:
  assumes "ctx_state (tc s) = VEO_STATE_RUNNING" and "m_events (os s) = (0, 0, 0x1000) # es"
    and "F (g (os_handle (tc s)) ((os s)\<lparr>m_events := es\<rparr>)) (s\<lparr>os := (os s)\<lparr>m_events := es\<rparr>\<rparr>)
         = Some (Inr (True, flag), t)"
    and "flag \<noteq> 0"
  shows "exceptionHandler (scripted g) F exc s = Some (Inr (flag, 0x1000), t)"
proof -
  have "wait_exception (scripted g) h (os s) = Some (Inr 0x1000, (os s)\<lparr>m_events := es\<rparr>)" for h
    by (subst wait_exception.simps) (simp add: assms(2) VEO_EXCEPTION_MASK_def)
  then show ?thesis
    using assms
    by (subst exceptionHandler.simps)
      (simp add: handleSingleException_def wait_exceptionP_def handle_syscall_def is_error_exs_def)
qed

lemma machine_handler:
  assumes "ctx_state (tc s) = VEO_STATE_RUNNING" and "m_events (os s) = (0, 0, 0x1000) # es"
    and "F (m_sysnum (os s)) (s\<lparr>os := (os s)\<lparr>m_events := es\<rparr>\<rparr>) = Some (Inr (True, flag), t)"
    and "flag \<noteq> 0"
  shows "exceptionHandler machine_veos F exc s = Some (Inr (flag, 0x1000), t)"
  using scripted_handler [where g = "\<lambda>h w. m_sysnum w", OF assms(1,2)] assms(3,4)
  by (simp add: scripted_machine)

lemma scripted_doCall:
  assumes "args_heap s ref = Some ca" and "arguments ca = map Some as"
    and "int (image_size as) \<le> INT_MAX" and "\<not> list_ex flag_out as"
  shows "\<exists>t. doCall (scripted g) addr ref s = Some (Inr (), t) \<and> ctx_state (tc t) = VEO_STATE_RUNNING
     \<and> os_handle (tc t) = os_handle (tc s) \<and> m_events (os t) = m_events (os s)
     \<and> m_sysnum (os t) = m_sysnum (os s) \<and> m_sysargs (os t) = m_sysargs (os s)
     \<and> m_clone (os t) = m_clone (os s)
     \<and> (\<exists>ca. args_heap t ref = Some ca \<and> \<not> copied_out ca) \<and> vh_mem t = vh_mem s"
proof -
  have regs: "m_events (put_registers (scripted g) h i vs w) = m_events w
      \<and> m_sysnum (put_registers (scripted g) h i vs w) = m_sysnum w
      \<and> m_sysargs (put_registers (scripted g) h i vs w) = m_sysargs w
      \<and> m_clone (put_registers (scripted g) h i vs w) = m_clone w" for h i vs and w :: machine
    by (induction vs arbitrary: i w) simp_all
  show ?thesis
    using doCall_eq [OF assms(1-3), of "scripted g" addr] assms(4)
    by (simp add: copyin_def set_up_def regs)
qed

lemmas machine_doCall = scripted_doCall [where g = "\<lambda>h w. m_sysnum w", unfolded scripted_machine]

lemma raw_args_facts:
  "arguments raw_args = map Some []" "int (image_size []) \<le> INT_MAX" "\<not> list_ex flag_out []"
  by (simp_all add: raw_args_def image_size_def data_size_def slot_off_def PARAM_AREA_OFFSET_def INT_MAX_def)

lemma machine_default_block:
  "m_sysnum (os s) = 316 \<Longrightarrow> m_sysargs (os s) = block_args \<Longrightarrow>
     defaultFilter machine_veos 316 s = Some (Inr (True, 1), s\<lparr>tc := (tc s)\<lparr>ctx_state := VEO_STATE_BLOCKED\<rparr>\<rparr>)"
  by (simp add: defaultFilter_eq default_filtered_syscalls_def is_veo_block_def NR_ve_sysve_def
      block_args_def handler_status_defs)

lemma machine_run_call:
  assumes "args_heap s ref = Some a" and "arguments a = map Some as"
    and "int (image_size as) \<le> INT_MAX" and "\<not> list_ex flag_out as"
    and "m_events (os s) = (0, 0, 0x1000) # es"
    and "m_sysnum (os s) = 316" and "m_sysargs (os s) = block_args"
  shows "\<exists>t. run_call machine_veos addr ref c s = Some (Inr (0, setResult c 42 VEO_COMMAND_OK), t)
     \<and> ctx_state (tc t) = VEO_STATE_BLOCKED \<and> vh_mem t = vh_mem s"
proof -
  obtain s1 ca where s1: "doCall machine_veos addr ref s = Some (Inr (), s1)"
      "ctx_state (tc s1) = VEO_STATE_RUNNING" "m_events (os s1) = (0, 0, 0x1000) # es"
      "m_sysnum (os s1) = 316" "m_sysargs (os s1) = block_args" "args_heap s1 ref = Some ca"
      "\<not> copied_out ca" "vh_mem s1 = vh_mem s"
    using machine_doCall [OF assms(1-4), of addr] assms(5-7) by auto
  let ?s2 = "s1\<lparr>os := (os s1)\<lparr>m_events := es\<rparr>, tc := (tc s1)\<lparr>ctx_state := VEO_STATE_BLOCKED\<rparr>\<rparr>"
  have "defaultExceptionHandler machine_veos 0 s1 = Some (Inr (1, 0x1000), ?s2)"
    unfolding defaultExceptionHandler_def
    by (rule machine_handler [where es = es]) (use s1 in \<open>simp_all add: machine_default_block\<close>)
  then show ?thesis
    using s1
    by (simp add: run_call_def executeVE_def handler_status_defs collectReturnValue_def
        block_args_def copyout_call_def copyout_def VE_SYSVE_VEO_BLOCK_def)
qed

definition ex_events :: "(int \<times> int \<times> u64) list \<Rightarrow> machine tstate" where
  "ex_events es = (idle_state raw_args)\<lparr>os := blocking_machine\<lparr>m_events := es\<rparr>\<rparr>"

lemma ex_events_sel [simp]:
  "tc (ex_events es) = idle_ctx" "args_heap (ex_events es) 0 = Some raw_args"
  "os (ex_events es) = blocking_machine\<lparr>m_events := es\<rparr>"
  "pending (ex_events es) = []" "completed (ex_events es) = []"
  by (simp_all add: ex_events_def idle_state_def pending_def completed_def idle_ctx_def
      new_ThreadContext_def state_simps)

lemma idle_ctx_sel [simp]:
  "comq idle_ctx = new_CommQueue" "ctx_state idle_ctx = VEO_STATE_BLOCKED" "seq_no idle_ctx = 0"
  "rem_reqid idle_ctx = {}" "ve_sp idle_ctx = 0x10000"
  by (simp_all add: idle_ctx_def new_ThreadContext_def)

lemma fetch_first [simp]: "fetch_id 0 = (0, 1)"
  by (simp add: fetch_id_eq VEO_REQUEST_ID_INVALID_def)

section \<open>Calls\<close>

theorem call_outcomes_witness:
  "\<exists>rv c' t. run_call machine_veos 0x600000 0 (new_Command 0 DummyReply) (ex_events [(0, 0, 0x1000)])
       = Some (Inr (rv, c'), t)
     \<and> (rv = 0 \<and> cmd_status c' = Some VEO_COMMAND_OK \<and> ctx_state (tc t) = VEO_STATE_BLOCKED
        \<or> rv = 1 \<and> cmd_status c' = Some VEO_COMMAND_EXCEPTION)"
proof -
  obtain t where run: "run_call machine_veos 0x600000 0 (new_Command 0 DummyReply) (ex_events [(0, 0, 0x1000)])
      = Some (Inr (0, setResult (new_Command 0 DummyReply) 42 VEO_COMMAND_OK), t)"
    using machine_run_call [of "ex_events [(0, 0, 0x1000)]" 0 raw_args "[]" "[]" "0x600000" "new_Command 0 DummyReply"]
      raw_args_facts
    by auto
  from call_outcomes [OF run] run show ?thesis by blast
qed

theorem call_then_wait_witness:
  "\<exists>s1 w. callAsync 0x600000 0 (ex_events [(0, 0, 0x1000)]) = Some (Inr 0, s1)
     \<and> callWaitResult machine_veos 0 s1 = Some (Inr (VEO_COMMAND_OK, Some 42), w)
     \<and> ctx_state (tc w) = VEO_STATE_BLOCKED"
proof -
  let ?s = "ex_events [(0, 0, 0x1000)]" and ?c = "new_Command 0 (CallFunction 0x600000 0)"
  have "os (forget 0 (issued ?s)) = os ?s" "args_heap (forget 0 (issued ?s)) = args_heap ?s"
    by (simp_all add: forget_def issued_def)
  then obtain t where run: "run_call machine_veos 0x600000 0 ?c (forget 0 (issued ?s))
      = Some (Inr (0, setResult ?c 42 VEO_COMMAND_OK), t)"
    using machine_run_call [of "forget 0 (issued ?s)" 0 raw_args "[]" "[]" "0x600000" ?c] raw_args_facts by auto
  have "request (comq (tc ?s)) = \<lparr>bq_queue = [], bq_state = VEO_QUEUE_READY\<rparr>"
    by (simp add: new_CommQueue_def new_BlockingQueue_def)
  from call_then_wait [OF _ _ this _ _ run] show ?thesis
    by (auto simp: state_simps command_state_defs)
qed

lemma machine_clone [simp]:
  "handleCloneRequestP machine_veos c s =
     Some (Inr (m_clone (os s), if m_clone (os s) < 0 then c else thread_started 7 c), s)"
  by (simp add: handleCloneRequestP_def handleCloneRequest_def)

text \<open>Opening a context on a machine that stops at two block requests.\<close>

lemma machine_run_open:
  assumes "args_heap s ref = Some a" and "arguments a = map Some as"
    and "int (image_size as) \<le> INT_MAX" and "\<not> list_ex flag_out as"
    and "m_events (os s) = [(0, 0, 0x1000), (0, 0, 0x1000)]"
    and "m_sysnum (os s) = 316" and "m_sysargs (os s) = block_args"
  shows "\<exists>t. run_open machine_veos addr ref c s = Some (Inr (0, setResult c
     (if m_clone (os s) < 0 then word_of_int (m_clone (os s)) else 0x5000) VEO_COMMAND_OK), t)"
proof -
  obtain s1 where s1: "doCall machine_veos addr ref s = Some (Inr (), s1)"
      "ctx_state (tc s1) = VEO_STATE_RUNNING" "m_events (os s1) = [(0, 0, 0x1000), (0, 0, 0x1000)]"
      "m_sysnum (os s1) = 316" "m_sysargs (os s1) = block_args" "m_clone (os s1) = m_clone (os s)"
    using machine_doCall [OF assms(1-4), of addr] assms(5-7) by auto
  let ?s2 = "s1\<lparr>os := (os s1)\<lparr>m_events := [(0, 0, 0x1000)]\<rparr>, tc := (tc s1)\<lparr>ctx_state := VEO_STATE_BLOCKED\<rparr>\<rparr>"
  have s2: "exceptionHandler machine_veos (hookCloneFilter machine_veos) 0 s1 = Some (Inr (1, 0x1000), ?s2)"
    by (rule machine_handler [where es = "[(0, 0, 0x1000)]"])
      (use s1 in \<open>simp_all add: machine_default_block hookCloneFilter_def\<close>)
  let ?s3 = "?s2\<lparr>tc := (tc ?s2)\<lparr>ctx_state := VEO_STATE_RUNNING\<rparr>\<rparr>"
  have s4: "defaultExceptionHandler machine_veos 0x1000 ?s3 = Some (Inr (1, 0x1000),
      ?s3\<lparr>os := (os ?s3)\<lparr>m_events := []\<rparr>, tc := (tc ?s3)\<lparr>ctx_state := VEO_STATE_BLOCKED\<rparr>\<rparr>)"
    unfolding defaultExceptionHandler_def
    by (rule machine_handler [where es = "[]"]) (use s1 in \<open>simp_all add: machine_default_block\<close>)
  show ?thesis
    using s1 s2 s4
    by (simp add: run_open_def os_call_def is_clone_request_def unBlock_def os_do_def set_state_def
        handler_status_defs Let_def)
qed

theorem open_context_reports_ok_witness:
  "\<exists>rv c' t. run_open machine_veos 0x700000 0 (new_Command 0 DummyReply)
       (ex_events [(0, 0, 0x1000), (0, 0, 0x1000)]) = Some (Inr (rv, c'), t)
     \<and> rv = 0 \<and> cmd_status c' = Some VEO_COMMAND_OK"
proof -
  let ?s = "ex_events [(0, 0, 0x1000), (0, 0, 0x1000)]" and ?c = "new_Command 0 DummyReply"
  obtain c' t where run: "run_open machine_veos 0x700000 0 ?c ?s = Some (Inr (0, c'), t)"
    using machine_run_open [of ?s 0 raw_args "[]" "0x700000" ?c] raw_args_facts by auto
  from open_context_reports_ok [OF run] run show ?thesis by blast
qed

theorem exit_leaves_context_open_witness:
  "\<exists>c' t i u. run_exit machine_veos 0x800000 0 (new_Command 9 DummyReply)
       ((ex_events [(0, 0, 0x1000)])\<lparr>os := blocking_machine\<lparr>m_events := [(0, 0, 0x1000)], m_sysnum := 231\<rparr>\<rparr>)
       = Some (Inr (0, c'), t)
     \<and> ctx_state (tc t) = VEO_STATE_RUNNING
     \<and> callAsync 0x600000 0 t = Some (Inr i, u) \<and> callWaitResult machine_veos i u = None"
proof -
  let ?s = "(ex_events [(0, 0, 0x1000)])\<lparr>os := blocking_machine\<lparr>m_events := [(0, 0, 0x1000)], m_sysnum := 231\<rparr>\<rparr>"
  let ?c = "new_Command 9 DummyReply"
  obtain s1 ca where s1: "doCall machine_veos 0x800000 0 ?s = Some (Inr (), s1)"
      "ctx_state (tc s1) = VEO_STATE_RUNNING" "m_events (os s1) = [(0, 0, 0x1000)]"
      "m_sysnum (os s1) = 231" "args_heap s1 0 = Some ca" "\<not> copied_out ca"
    using machine_doCall [of ?s 0 raw_args "[]" "0x800000"] raw_args_facts by auto
  have s2: "exceptionHandler machine_veos (exitFilter machine_veos) 0 s1
      = Some (Inr (nr machine_veos NR_ve_exit_group, 0x1000), s1\<lparr>os := (os s1)\<lparr>m_events := []\<rparr>\<rparr>)"
    by (rule machine_handler [where es = "[]"]) (use s1 in \<open>simp_all add: exitFilter_def\<close>)
  have "\<exists>c' t. run_exit machine_veos 0x800000 0 ?c ?s = Some (Inr (0, c'), t)"
    using s1 s2 by (simp add: run_exit_def copyout_call_def copyout_def)
  then obtain c' t where run: "run_exit machine_veos 0x800000 0 ?c ?s = Some (Inr (0, c'), t)" by blast
  have side: "nr machine_veos NR_ve_exit_group \<notin> {1, - 1}"
      "bq_state (request (comq (tc ?s))) = VEO_QUEUE_READY" "(0x600000 :: u64) \<noteq> 0"
      "fst (fetch_id (seq_no (tc ?s))) \<notin> cmd_id ` set (completed ?s)"
    by (simp_all add: state_simps completed_def)
  from exit_leaves_context_open [OF run s1(1) s2 side, of 0] run show ?thesis by blast
qed

section \<open>The event loop\<close>

definition ex_failing :: "machine tstate" where
  "ex_failing = set_pending [new_Command 0 (ReadMem 0x100 0 8), new_Command 1 (CallVH 3 4)] (ex_events [])"

theorem failed_command_drains_witness:
  "\<exists>u. eventLoop machine_veos ex_failing = Some (Inr LoopEnded, u)
     \<and> ctx_state (tc u) = VEO_STATE_EXIT
     \<and> map cmd_status (bq_queue (completion (comq (tc u))))
         = [Some VEO_COMMAND_ERROR, Some VEO_COMMAND_UNFINISHED]"
proof -
  let ?c = "new_Command 0 (ReadMem 0x100 0 8)" and ?d = "new_Command 1 (CallVH 3 4)"
  have s: "ctx_state (tc ex_failing) = VEO_STATE_BLOCKED" "bq_queue (request (comq (tc ex_failing))) = [?c, ?d]"
    by (simp_all add: ex_failing_def set_pending_def set_comq_def)
  have run: "\<exists>t. run_command machine_veos (cmd_handler ?c) ?c (set_pending [?d] ex_failing)
      = Some (Inr (- 1, setResult ?c (- 1) VEO_COMMAND_ERROR), t)"
    by (simp add: state_simps run_transfer_def readMem_def os_call_def set_pending_def ex_failing_def
        set_comq_def)
  then obtain t where "run_command machine_veos (cmd_handler ?c) ?c (set_pending [?d] ex_failing)
      = Some (Inr (- 1, setResult ?c (- 1) VEO_COMMAND_ERROR), t)" by blast
  from failed_command_drains [OF s this] show ?thesis
    by (auto simp: state_simps ex_failing_def set_pending_def set_comq_def)
qed

theorem request_ids_unique_witness:
  "\<exists>ids t. issue_many 3 ((ex_events [])\<lparr>tc := idle_ctx\<lparr>seq_no := - 2\<rparr>\<rparr>) = Some (Inr ids, t)
     \<and> length ids = 3 \<and> distinct ids \<and> VEO_REQUEST_ID_INVALID \<notin> set ids"
  using request_ids_unique [of 3 "(ex_events [])\<lparr>tc := idle_ctx\<lparr>seq_no := - 2\<rparr>\<rparr>"] by auto

theorem exited_context_refuses_witness:
  "callAsync 1 0 ((ex_events [])\<lparr>tc := idle_ctx\<lparr>ctx_state := VEO_STATE_EXIT\<rparr>\<rparr>)
     = Some (Inr VEO_REQUEST_ID_INVALID, (ex_events [])\<lparr>tc := idle_ctx\<lparr>ctx_state := VEO_STATE_EXIT\<rparr>\<rparr>)"
  using exited_context_refuses [of "(ex_events [])\<lparr>tc := idle_ctx\<lparr>ctx_state := VEO_STATE_EXIT\<rparr>\<rparr>"] by simp

lemma machine_run_vh [simp]:
  "run_vh machine_veos f a c s = Some (Inr (0, setResult c (f + a) VEO_COMMAND_OK), s)"
  by (simp add: run_vh_def)

definition ex_two :: "machine tstate" where
  "ex_two = (ex_events [])\<lparr>tc := idle_ctx\<lparr>rem_reqid := {0, 1}, comq :=
     new_CommQueue\<lparr>request := \<lparr>bq_queue = [new_Command 0 (CallVH 3 4), new_Command 1 (CallVH 5 6)],
                              bq_state = VEO_QUEUE_READY\<rparr>\<rparr>\<rparr>\<rparr>"

lemma ex_two_sel [simp]:
  "rem_reqid (tc ex_two) = {0, 1}" "ctx_state (tc ex_two) = VEO_STATE_BLOCKED"
  "bq_queue (request (comq (tc ex_two))) = [new_Command 0 (CallVH 3 4), new_Command 1 (CallVH 5 6)]"
  "pending ex_two = [new_Command 0 (CallVH 3 4), new_Command 1 (CallVH 5 6)]"
  "bq_queue (completion (comq (tc ex_two))) = []" "completed ex_two = []"
  by (simp_all add: ex_two_def pending_def completed_def state_simps)

theorem wait_delivers_own_result_witness:
  "\<exists>w. callWaitResult machine_veos 1 ex_two = Some (Inr (VEO_COMMAND_OK, Some 11), w)
     \<and> rem_reqid (tc w) = {0} \<and> map cmd_id (bq_queue (completion (comq (tc w)))) = [0]"
proof -
  let ?c = "new_Command 0 (CallVH 3 4)" and ?d = "new_Command 1 (CallVH 5 6)"
  obtain t where t: "serve machine_veos [?c] (forget 1 ex_two) = Some t"
    by (simp add: state_simps)
  have "bq_queue (request (comq (tc ex_two))) = [?c] @ ?d # []" "cmd_id ?d = 1"
    "1 \<notin> cmd_id ` set (bq_queue (completion (comq (tc ex_two))) @ [?c])" "1 \<in> rem_reqid (tc ex_two)"
    by (simp_all add: state_simps)
  moreover have "run_command machine_veos (cmd_handler ?d) ?d (set_pending [] t)
      = Some (Inr (0, setResult ?d 11 VEO_COMMAND_OK), set_pending [] t)"
    by (simp add: state_simps)
  ultimately show ?thesis
    using wait_delivers_own_result [of 1 ex_two "[?c]" ?d "[]" machine_veos t 0 11 VEO_COMMAND_OK "set_pending [] t"] t
    by (auto simp: state_simps)
qed

theorem peek_unfinished_witness:
  "callPeekResult 0 ex_two = Some (Inr (VEO_COMMAND_UNFINISHED, None), ex_two)"
  by (rule peek_unfinished) simp_all

definition ex_done :: "machine tstate" where
  "ex_done = set_completed [setResult (new_Command 7 DummyReply) 1 2, setResult (new_Command 0 (CallVH 3 4)) 7 0] ex_two"

theorem result_handed_out_once_witness:
  "\<exists>t. callPeekResult 0 ex_done = Some (Inr (0, Some 7), t)
     \<and> callWaitResult machine_veos 0 t = Some (Inr (VEO_COMMAND_ERROR, None), t)"
  using result_handed_out_once [of 0 ex_done "[setResult (new_Command 7 DummyReply) 1 2]"
      "new_Command 0 (CallVH 3 4)" 7 0 "[]" machine_veos]
  by (auto simp: ex_done_def set_completed_def set_comq_def state_simps)

theorem close_after_pending_witness:
  "\<exists>u. close machine_veos (ex_events []) = Some (Inr 0, u) \<and> ctx_state (tc u) = VEO_STATE_EXIT"
proof -
  let ?s = "ex_events []"
  obtain t where "serve machine_veos (pending ?s)
      (set_pending (pending ?s @ [new_Command 0 (CloseContext 0)]) (issued ?s)) = Some t"
    by simp
  with close_after_pending [of ?s 0 machine_veos t] show ?thesis
    by (auto simp: state_simps)
qed

theorem close_strands_later_requests_witness:
  "\<exists>t. eventLoop machine_veos (set_pending [new_Command 5 (CloseContext 5), new_Command 1 (CallVH 5 6)] ex_two)
       = Some (Inl ThreadExit, t) \<and> callWaitResult machine_veos 1 t = None"
  using close_strands_later_requests [of "set_pending [new_Command 5 (CloseContext 5), new_Command 1 (CallVH 5 6)] ex_two"
      5 "[new_Command 1 (CallVH 5 6)]" "new_Command 1 (CallVH 5 6)" machine_veos]
  by (auto simp: state_simps)

theorem child_context_start_witness:
  "\<exists>u. startEventLoop machine_veos 3 ((ex_events [(0, 0, 0x2000)])) = Some (Inr LoopEnded, u)
     \<and> ctx_state (tc u) = VEO_STATE_EXIT"
proof -
  let ?s = "ex_events [(0, 0, 0x2000)]"
  let ?s1 = "?s\<lparr>tc := thread_started 3 (tc ?s)\<rparr>"
  have "wait_exception machine_veos h (os ?s1) = Some (Inr 0x2000, (os ?s1)\<lparr>m_events := []\<rparr>)" for h
    by (subst wait_exception.simps) (simp add: VEO_EXCEPTION_MASK_def)
  then have "defaultExceptionHandler machine_veos 0 ?s1
      = Some (Inr (- 1, 0x2000), ?s1\<lparr>os := (os ?s1)\<lparr>m_events := []\<rparr>\<rparr>)"
    unfolding defaultExceptionHandler_def
    by (subst exceptionHandler.simps)
      (simp add: handleSingleException_def wait_exceptionP_def thread_started_def is_error_exs_def
        os_do_def handler_status_defs)
  from child_context_start [OF this] show ?thesis
    by (auto simp: handler_status_defs)
qed

theorem stacksize_at_least_minimum_witness:
  "VEO_STACK_MIN \<le> stacksize (fold
     (\<lambda>n attr. case setStacksize attr n of Inl e \<Rightarrow> attr | Inr attr' \<Rightarrow> attr') [4096, 0x800000] new_ThreadContextAttr)"
  using stacksize_at_least_minimum [of "[4096, 0x800000]"] by simp

section \<open>Interleavings\<close>

theorem completion_order_is_push_order_witness:
  "\<exists>w. reach w \<and> pushed_log w = [0]
     \<and> map cmd_id (done_log w) @ current (wpt w) @ map cmd_id (bq_queue (request (wq w))) = [0]"
proof -
  obtain w where "reach w" "pushed_log w = [0]"
    using reach_race_start [of Close] by auto
  with completion_order_is_push_order [of w] show ?thesis by auto
qed

theorem each_request_in_one_place_witness:
  "distinct (map cmd_id (taken_log fresh_world) @ map cmd_id (bq_queue (completion (wq fresh_world))))
     \<and> set (pushed_log fresh_world) \<subseteq> set (issued_log fresh_world)"
  using each_request_in_one_place [OF reach.init] by (simp add: fresh_world_def)

theorem waiting_for_ended_thread_witness:
  "\<exists>w :: world. wvh w 1 = VhClosing VEO_REQUEST_ID_INVALID \<and> waitCompletion (wq w) VEO_REQUEST_ID_INVALID = None"
proof -
  let ?w = "fresh_world\<lparr>wpt := PtEnded, wvh := (\<lambda>_. VhClosing VEO_REQUEST_ID_INVALID)\<rparr>"
  have "wvh ?w 1 = wvh ?w 1 \<and> waitCompletion (wq ?w) VEO_REQUEST_ID_INVALID = None"
    by (rule waiting_for_ended_thread [OF _ _ _ leads_to.now]) (simp_all add: fresh_world_def state_simps)
  then show ?thesis by (intro exI [of _ ?w]) simp
qed

theorem submit_is_a_run_witness:
  "\<exists>w'. leads_to fresh_world w' \<and> wvh w' 0 = VhReturned 0"
proof -
  have rep: "represents fresh_world (ex_events [])"
    by (simp add: represents_def fresh_world_def)
  have sub: "submit (CallFunction 1 0) (ex_events [])
      = Some (Inr 0, set_pending [new_Command 0 (CallFunction 1 0)] (issued (ex_events [])))"
    by (simp add: submitted_state state_simps)
  have "\<exists>w'. leads_to fresh_world w' \<and> represents w' (set_pending [new_Command 0 (CallFunction 1 0)]
      (issued (ex_events []))) \<and> wvh w' = (wvh fresh_world)(0 := VhReturned 0) \<and> wpt w' = wpt fresh_world"
    by (rule submit_is_a_run [OF rep _ _ _ _ sub]) (simp_all add: fresh_world_def)
  then show ?thesis by auto
qed

theorem event_loop_iteration_is_a_run_witness:
  "\<exists>w w'. leads_to w w' \<and> map cmd_id (bq_queue (completion (wq w'))) = [0] \<and> wpt w' = PtLoop"
proof -
  let ?w = "fresh_world\<lparr>wq := comq (tc ex_two), wrem := {0, 1}\<rparr>"
  obtain s' where s': "eventLoop_iter machine_veos ex_two = Some (Inr LoopContinue, s')"
      "map cmd_id (completed s') = [0]"
    by (simp add: eventLoop_iter_eq state_simps)
  have "represents ?w ex_two"
    by (simp add: represents_def fresh_world_def) (simp add: ex_two_def)
  then have "\<exists>w'. leads_to ?w w' \<and> represents w' s' \<and> wvh w' = wvh ?w
      \<and> wpt w' = (if LoopContinue = LoopEnded then PtEnded else PtLoop)"
    by (rule event_loop_iteration_is_a_run [OF _ _ _ s'(1)]) (simp_all add: fresh_world_def state_simps)
  then obtain w' where w': "leads_to ?w w'" "represents w' s'" "wpt w' = PtLoop" by auto
  moreover have "map cmd_id (bq_queue (completion (wq w'))) = [0]"
    using w'(2) s'(2) by (simp add: represents_def completed_def)
  ultimately show ?thesis by (intro exI [of _ ?w] exI [of _ w']) simp
qed

end
