(* ===== verification/C_Strings.thy ===== *)
theory C_Strings
  imports Veo_Prelude
begin

text \<open>
  The functions of the C and C++ libraries on character strings that the program uses:
  \<^verbatim>\<open>strlen\<close>, \<^verbatim>\<open>std::getline\<close> with a separator, \<^verbatim>\<open>std::stoi\<close>, the conversion \<^verbatim>\<open>%d\<close> of \<^verbatim>\<open>snprintf\<close>
  and \<^verbatim>\<open>sscanf\<close>, \<^verbatim>\<open>basename\<close> and \<^verbatim>\<open>dirname\<close>.  The lemmas show that what is printed is read back.
\<close>

section \<open>Definitions\<close>

text \<open>\<^verbatim>\<open>strlen\<close>: no result if there is no NUL.\<close>

partial_function (option) strlen_from :: "memory \<Rightarrow> u64 \<Rightarrow> nat \<Rightarrow> nat option" where
  "strlen_from m p n = (if m (p + of_nat n) = 0 then Some n else strlen_from m p (Suc n))"

text \<open>\<^verbatim>\<open>std::getline(ss, buffer, ' ')\<close> until it fails: the tokens between single spaces.\<close>

function split_spaces :: "string \<Rightarrow> string list" where
  "split_spaces str =
     (if str = [] then []
      else takeWhile (\<lambda>c. c \<noteq> CHR '' '') str
           # split_spaces (drop 1 (dropWhile (\<lambda>c. c \<noteq> CHR '' '') str)))"
  by pat_completeness auto
termination
proof (relation "measure length", simp)
  fix str :: string
  assume "str \<noteq> []"
  moreover have "length (dropWhile (\<lambda>c. c \<noteq> CHR '' '') str) \<le> length str"
    by (rule length_dropWhile_le)
  ultimately show "(drop 1 (dropWhile (\<lambda>c. c \<noteq> CHR '' '') str), str) \<in> measure length"
    by (cases str) auto
qed

declare split_spaces.simps [simp del]

text \<open>Numbers are read as white space, an optional sign and digits; what follows is ignored.\<close>

definition is_space :: "char \<Rightarrow> bool" where
  "is_space c \<longleftrightarrow> c = CHR '' '' \<or> (9 \<le> (of_char c :: nat) \<and> (of_char c :: nat) \<le> 13)"

definition is_digit :: "char \<Rightarrow> bool" where
  "is_digit c \<longleftrightarrow> 48 \<le> (of_char c :: nat) \<and> (of_char c :: nat) \<le> 57"

definition digits_value :: "string \<Rightarrow> int" where
  "digits_value ds = foldl (\<lambda>n c. 10 * n + (of_char c - 48)) 0 ds"

definition scan_int :: "string \<Rightarrow> int option" where
  "scan_int str =
     (let body = dropWhile is_space str;
          neg = (body \<noteq> [] \<and> hd body = CHR ''-'');
          rest = (if body \<noteq> [] \<and> (hd body = CHR ''-'' \<or> hd body = CHR ''+'') then tl body else body);
          ds = takeWhile is_digit rest
      in if ds = [] then None
         else Some (if neg then - digits_value ds else digits_value ds))"

text \<open>\<^verbatim>\<open>std::stoi\<close>\<close>

definition stoi :: "string \<Rightarrow> int result" where
  "stoi str =
     (case scan_int str of
        None \<Rightarrow> Inl (StdException ''invalid_argument'')
      | Some v \<Rightarrow> if in_int_range v then Inr v else Inl (StdException ''out_of_range''))"

text \<open>
  \<^verbatim>\<open>sscanf(str, "<prefix>%d", &n)\<close>: the number if the conversion is done; a number that does not
  fit an \<^verbatim>\<open>int\<close> has no meaning.
\<close>

definition sscanf_int :: "string \<Rightarrow> string \<Rightarrow> int option result" where
  "sscanf_int prefix str =
     (if take (length prefix) str \<noteq> prefix then Inr None
      else case scan_int (drop (length prefix) str) of
             None \<Rightarrow> Inr None
           | Some v \<Rightarrow> if in_int_range v then Inr (Some v) else Inl UndefinedBehaviour)"

text \<open>\<^verbatim>\<open>basename\<close> and \<^verbatim>\<open>dirname\<close> of \<^verbatim>\<open>libgen.h\<close>.\<close>

definition strip_slashes :: "string \<Rightarrow> string" where
  "strip_slashes str = rev (dropWhile (\<lambda>c. c = CHR ''/'') (rev str))"

definition basename :: "string \<Rightarrow> string" where
  "basename str =
     (let path = strip_slashes str
      in if str = [] then ''.''
         else if path = [] then ''/''
         else rev (takeWhile (\<lambda>c. c \<noteq> CHR ''/'') (rev path)))"

definition dirname :: "string \<Rightarrow> string" where
  "dirname str =
     (let path = strip_slashes str;
          parent = rev (dropWhile (\<lambda>c. c \<noteq> CHR ''/'') (rev path))
      in if str = [] then ''.''
         else if path = [] then ''/''
         else if parent = [] then ''.''
         else if strip_slashes parent = [] then ''/''
         else strip_slashes parent)"

text \<open>The conversion \<^verbatim>\<open>%d\<close> of \<^verbatim>\<open>snprintf\<close>.\<close>

fun print_nat :: "nat \<Rightarrow> string" where
  "print_nat n = (if n < 10 then [char_of (48 + n)] else print_nat (n div 10) @ [char_of (48 + n mod 10)])"

declare print_nat.simps [simp del]

definition print_int :: "int \<Rightarrow> string" where
  "print_int i = (if i < 0 then CHR ''-'' # print_nat (nat (- i)) else print_nat (nat i))"

text \<open>Words with single spaces between them.\<close>

fun join_spaces :: "string list \<Rightarrow> string" where
  "join_spaces [] = []"
| "join_spaces [t] = t"
| "join_spaces (t # ts) = t @ CHR '' '' # join_spaces ts"

section \<open>Decimal numbers\<close>

lemma is_digit_char: "d < 10 \<Longrightarrow> is_digit (char_of (48 + d :: nat))"
  by (simp add: is_digit_def)

lemma print_nat_digits: "list_all is_digit (print_nat n)"
proof (induction n rule: print_nat.induct)
  case (1 n)
  then show ?case by (subst print_nat.simps) (auto simp: is_digit_char)
qed

lemma print_nat_nonempty [simp]: "print_nat n \<noteq> []"
  by (subst print_nat.simps) simp

lemma digits_value_snoc: "digits_value (ds @ [c]) = 10 * digits_value ds + (of_char c - 48)"
  by (simp add: digits_value_def)

lemma of_char_int: "(of_char c :: int) = int (of_char c)"
  by (simp add: of_char_def)

lemma digits_value_print: "digits_value (print_nat n) = int n"
proof (induction n rule: print_nat.induct)
  case (1 n)
  show ?case
  proof (cases "n < 10")
    case True
    then show ?thesis
      by (subst print_nat.simps) (simp add: digits_value_def of_char_int)
  next
    case False
    have "print_nat n = print_nat (n div 10) @ [char_of (48 + n mod 10)]"
      using False by (subst print_nat.simps) simp
    then show ?thesis
      using 1 [OF False]
      by (simp add: digits_value_snoc of_char_int) (metis mult_div_mod_eq of_nat_add of_nat_mult of_nat_numeral)
  qed
qed

lemma is_digit_not: "is_digit c \<Longrightarrow> \<not> is_space c \<and> c \<noteq> CHR ''-'' \<and> c \<noteq> CHR ''+'' \<and> c \<noteq> CHR '' ''"
  by (auto simp: is_digit_def is_space_def)

lemma takeWhile_digits:
  "list_all is_digit ds \<Longrightarrow> rest = [] \<or> \<not> is_digit (hd rest) \<Longrightarrow> takeWhile is_digit (ds @ rest) = ds"
  by (induction ds) (cases rest, auto)

lemma print_nat_hd: "is_digit (hd (print_nat n))"
  using print_nat_digits [of n] by (cases "print_nat n") auto

lemma scan_int_digits:
  assumes "list_all is_digit ds" and "ds \<noteq> []" and "rest = [] \<or> \<not> is_digit (hd rest)"
  shows "scan_int (ds @ rest) = Some (digits_value ds)"
    and "scan_int (CHR ''-'' # ds @ rest) = Some (- digits_value ds)"
proof -
  have tw: "takeWhile is_digit (ds @ rest) = ds" by (rule takeWhile_digits [OF assms(1,3)])
  obtain c cs where ds: "ds = c # cs" "is_digit c" using assms(1,2) by (cases ds) auto
  have "dropWhile is_space (ds @ rest) = ds @ rest"
    using ds is_digit_not by simp
  then show "scan_int (ds @ rest) = Some (digits_value ds)"
    using tw assms(2) ds is_digit_not [OF ds(2)] by (simp add: scan_int_def)
  have "\<not> is_space (CHR ''-'')" by (simp add: is_space_def)
  then show "scan_int (CHR ''-'' # ds @ rest) = Some (- digits_value ds)"
    using tw assms(2) by (simp add: scan_int_def)
qed

lemma scan_int_print:
  assumes "rest = [] \<or> \<not> is_digit (hd rest)"
  shows "scan_int (print_int i @ rest) = Some i"
  using scan_int_digits [OF print_nat_digits print_nat_nonempty assms]
  by (auto simp: print_int_def digits_value_print)

lemma stoi_print_tail:
  assumes "rest = [] \<or> \<not> is_digit (hd rest)"
  shows "stoi (print_int i @ rest) =
     (if in_int_range i then Inr i else Inl (StdException ''out_of_range''))"
  by (simp add: stoi_def scan_int_print [OF assms])

lemma sscanf_print:
  assumes "in_int_range i"
  shows "sscanf_int prefix (prefix @ print_int i) = Inr (Some i)"
  using assms scan_int_print [of "[]" i] by (simp add: sscanf_int_def)

lemma stoi_print_nat: "int n \<le> INT_MAX \<Longrightarrow> stoi (print_nat n) = Inr (int n)"
  using stoi_print_tail [of "[]" "int n"] by (simp add: print_int_def in_int_range_def INT_MIN_def)

section \<open>Words\<close>

lemma join_spaces_nonempty: "ts \<noteq> [] \<Longrightarrow> \<forall>t \<in> set ts. t \<noteq> [] \<Longrightarrow> join_spaces ts \<noteq> []"
  by (cases ts rule: join_spaces.cases) auto

lemma split_spaces_Nil [simp]: "split_spaces [] = []"
  by (simp add: split_spaces.simps)

lemma split_spaces_word:
  assumes "t \<noteq> []" and "CHR '' '' \<notin> set t"
  shows "split_spaces t = [t]"
proof -
  have tw: "takeWhile (\<lambda>c. c \<noteq> CHR '' '') t = t" and dw: "dropWhile (\<lambda>c. c \<noteq> CHR '' '') t = []"
    using assms(2) by (auto simp: takeWhile_eq_all_conv dropWhile_eq_Nil_conv)
  show ?thesis
    by (subst split_spaces.simps) (simp only: tw dw assms(1) if_False drop_Nil split_spaces_Nil)
qed

text \<open>
  Splitting undoes joining: a list of non-empty words without spaces, written with single
  spaces between them, is read back as that list.
\<close>

lemma split_join:
  "\<forall>t \<in> set ts. t \<noteq> [] \<and> CHR '' '' \<notin> set t \<Longrightarrow> split_spaces (join_spaces ts) = ts"
proof (induction ts rule: join_spaces.induct)
  case (2 t)
  then show ?case by (simp add: split_spaces_word)
next
  case (3 t t' ts)
  then have "takeWhile (\<lambda>c. c \<noteq> CHR '' '') (t @ CHR '' '' # join_spaces (t' # ts)) = t"
    "dropWhile (\<lambda>c. c \<noteq> CHR '' '') (t @ CHR '' '' # join_spaces (t' # ts)) = CHR '' '' # join_spaces (t' # ts)"
    by (auto simp: takeWhile_append dropWhile_append)
  with 3 show ?case by (subst split_spaces.simps) simp
qed simp

section \<open>Paths\<close>

lemma strip_slashes_file: "f \<noteq> [] \<Longrightarrow> CHR ''/'' \<notin> set f \<Longrightarrow> strip_slashes (d @ f) = d @ f"
  by (cases f rule: rev_cases) (auto simp: strip_slashes_def)

text \<open>The last component of a path, and what is before it.\<close>

lemma basename_file:
  assumes "f \<noteq> []" and "CHR ''/'' \<notin> set f"
  shows "basename (d @ CHR ''/'' # f) = f"
proof -
  have "strip_slashes (d @ CHR ''/'' # f) = d @ CHR ''/'' # f"
    using strip_slashes_file [OF assms, of "d @ ''/''"] by simp
  moreover have "takeWhile (\<lambda>c. c \<noteq> CHR ''/'') (rev f @ CHR ''/'' # rev d) = rev f"
    using assms(2) by (subst takeWhile_append) auto
  ultimately show ?thesis by (simp add: basename_def)
qed

lemma dirname_file:
  assumes "f \<noteq> []" and "CHR ''/'' \<notin> set f" and "d \<noteq> []" and "last d \<noteq> CHR ''/''"
  shows "dirname (d @ CHR ''/'' # f) = d"
proof -
  have "strip_slashes (d @ CHR ''/'' # f) = d @ CHR ''/'' # f"
    using strip_slashes_file [OF assms(1,2), of "d @ ''/''"] by simp
  moreover have "dropWhile (\<lambda>c. c \<noteq> CHR ''/'') (rev f @ CHR ''/'' # rev d) = CHR ''/'' # rev d"
    using assms(2) by (subst dropWhile_append) auto
  moreover have "strip_slashes (d @ ''/'') = d"
    using assms(3,4) by (cases d rule: rev_cases) (auto simp: strip_slashes_def)
  ultimately show ?thesis using assms(3) by (simp add: dirname_def)
qed

end
