(* ===== verification/ProcHandle.thy ===== *)
theory ProcHandle
  imports EventLoop C_Strings "HOL-Library.Signed_Division"
begin

text \<open>
  The VEO process handle (\<^verbatim>\<open>src/libveo/ProcHandle.hpp\<close>, \<^verbatim>\<open>src/libveo/ProcHandle.cpp\<close>): the
  operations on a VE process, all of which are requests to its worker context, and the cache
  of symbol addresses.

  One VH thread uses the process handle; the mutexes \<^verbatim>\<open>main_mutex\<close> and \<^verbatim>\<open>sym_mtx\<close> then never
  block and are left out, as is logging.
\<close>

section \<open>State\<close>

text \<open>
  The table of helper functions that veorun passes to the VH (\<^verbatim>\<open>struct veo__helper_functions_ver4\<close>
  of \<^verbatim>\<open>veorun.h\<close>, which belongs to another package): VEMVAs by the names the program uses.
\<close>

record helper_functions =
  funcs_version :: u64
  load_library :: u64
  alloc_buff :: u64
  free_buff :: u64
  find_sym :: u64
  create_thread :: u64
  call_func :: u64
  exit_func :: u64
  create_thread_with_attr :: u64
  load_library_err :: u64

record proc_handle =
  sym_name :: "u64 \<times> bytes \<Rightarrow> u64 option"
  main_thread :: ctx
  funcs :: helper_functions
  num_child_threads :: int
  ve_number :: int

definition getnumChildThreads :: "proc_handle \<Rightarrow> int" where
  [simp]: "getnumChildThreads h = num_child_threads h"

definition getVeorunVersion :: "proc_handle \<Rightarrow> u64" where
  [simp]: "getVeorunVersion h = funcs_version (funcs h)"

text \<open>
  What lies outside of the sources: the constants of \<^verbatim>\<open>veorun.h\<close>, the image of
  \<^verbatim>\<open>struct veo__thread_attribute_ver3\<close>, the counter of threads of libvepseudo, and freeing a VE
  OS handle.  \<open>err_msg_caller\<close> and \<open>err_msg_callee\<close> are the addresses of the local arrays
  \<^verbatim>\<open>err_msg\<close> of \<^verbatim>\<open>loadLibrary\<close> and \<^verbatim>\<open>loadLibraryError\<close>, \<open>attr_local\<close> that of \<^verbatim>\<open>attr_v3\<close>.
\<close>

record 'os proc_env =
  veos_env :: "'os veos"
  VEORUN_VERSION2 :: u64
  VEORUN_VERSION3 :: u64
  VEORUN_VERSION4 :: u64
  thread_attr_image :: "int \<Rightarrow> u64 \<Rightarrow> bytes"
  tid_counter :: "'os \<Rightarrow> int"
  veos_handle_free :: "nat \<Rightarrow> 'os \<Rightarrow> 'os"
  err_msg_caller :: u64
  err_msg_callee :: u64
  attr_local :: u64

text \<open>
  The state of the VH process: the process handle, and the state of the operations on
  contexts, whose current context is the worker.  \<open>local_ref\<close> is where the next local
  \<^verbatim>\<open>CallArgs\<close> object goes and \<open>raw_object\<close> what its storage happens to hold.
\<close>

record 'os pstate =
  ph :: proc_handle
  wk :: "'os tstate"
  local_ref :: nat
  raw_object :: call_args

text \<open>An operation on the worker context.\<close>

definition on_worker :: "('os tstate, 'a) prog \<Rightarrow> ('os pstate, 'a) prog" where
  "on_worker p s = (case p (wk s) of None \<Rightarrow> None | Some (r, t) \<Rightarrow> Some (r, s\<lparr>wk := t\<rparr>))"

text \<open>The scope of a local \<^verbatim>\<open>CallArgs\<close> object: it exists while the body runs.\<close>

definition with_args ::
  "call_args \<Rightarrow> (nat \<Rightarrow> ('os pstate, 'a) prog) \<Rightarrow> ('os pstate, 'a) prog" where
  "with_args ca body s =
     (let ref = local_ref s
      in case body ref (s\<lparr>local_ref := Suc ref,
                          wk := (wk s)\<lparr>args_heap := (args_heap (wk s))(ref \<mapsto> ca)\<rparr>\<rparr>) of
           None \<Rightarrow> None
         | Some (r, t) \<Rightarrow>
             Some (r, t\<lparr>local_ref := ref,
               wk := (wk t)\<lparr>args_heap := (args_heap (wk t))(ref := args_heap (wk s) ref)\<rparr>\<rparr>))"

text \<open>\<^verbatim>\<open>try ... catch (VEOException &e)\<close>\<close>

definition catchP :: "('s, 'a) prog \<Rightarrow> (int \<Rightarrow> ('s, 'a) prog) \<Rightarrow> ('s, 'a) prog" where
  "catchP p handler s =
     (case p s of
        Some (Inl (VEOException msg err), t) \<Rightarrow> handler err t
      | r \<Rightarrow> r)"

text \<open>\<^verbatim>\<open>strlen\<close> of a string in the memory of the process.\<close>

definition strlen :: "u64 \<Rightarrow> ('os pstate, nat) prog" where
  "strlen p s = (case strlen_from (vh_mem (wk s)) p 0 of None \<Rightarrow> None | Some n \<Rightarrow> returnP n s)"

section \<open>Calls on the worker\<close>

definition request_value :: "int \<times> u64 option \<Rightarrow> ('s, u64) prog" where
  "request_value r =
     (case r of (rv, ret) \<Rightarrow>
        if rv \<noteq> VEO_COMMAND_OK then throwP (VEOException ''request failed'' ENOSYS)
        else case ret of None \<Rightarrow> throwP UndefinedBehaviour | Some v \<Rightarrow> returnP v)"

definition doOnContext :: "'os veos \<Rightarrow> u64 \<Rightarrow> nat \<Rightarrow> ('os tstate, u64) prog" where
  "doOnContext E func ref =
     bindP (callAsync func ref)
       (\<lambda>reqid. bindP (callWaitResult E reqid) request_value)"

definition allocBuff :: "'os proc_env \<Rightarrow> u64 \<Rightarrow> ('os pstate, u64) prog" where
  "allocBuff P sz s =
     with_args (new_CallArgs_list (raw_object s) [sz])
       (\<lambda>ref. on_worker (doOnContext (veos_env P) (alloc_buff (funcs (ph s))) ref)) s"

definition freeBuff :: "'os proc_env \<Rightarrow> u64 \<Rightarrow> ('os pstate, unit) prog" where
  "freeBuff P buff s =
     with_args (new_CallArgs_list (raw_object s) [buff])
       (\<lambda>ref. bindP (on_worker (doOnContext (veos_env P) (free_buff (funcs (ph s))) ref))
                (\<lambda>_. returnP ())) s"

text \<open>\<^verbatim>\<open>readMem\<close> and \<^verbatim>\<open>writeMem\<close>: the value of a request that is not OK is not looked at.\<close>

definition transfer_value :: "int \<times> u64 option \<Rightarrow> ('s, int) prog" where
  "transfer_value r =
     (case r of (rv, ret) \<Rightarrow>
        bindP (assertP (rv = VEO_COMMAND_OK))
          (\<lambda>_. case ret of None \<Rightarrow> throwP UndefinedBehaviour
               | Some v \<Rightarrow> returnP (sint (ucast v :: u32))))"

definition proc_readMem :: "'os proc_env \<Rightarrow> u64 \<Rightarrow> u64 \<Rightarrow> u64 \<Rightarrow> ('os pstate, int) prog" where
  "proc_readMem P dst src sz =
     on_worker (bindP (asyncReadMem dst src sz)
       (\<lambda>i. bindP (callWaitResult (veos_env P) i) transfer_value))"

definition proc_writeMem :: "'os proc_env \<Rightarrow> u64 \<Rightarrow> u64 \<Rightarrow> u64 \<Rightarrow> ('os pstate, int) prog" where
  "proc_writeMem P dst src sz =
     on_worker (bindP (asyncWriteMem dst src sz)
       (\<lambda>i. bindP (callWaitResult (veos_env P) i) transfer_value))"

section \<open>Libraries and symbols\<close>

definition ERR_MSG_LEN :: nat where "ERR_MSG_LEN = VEO_SYMNAME_LEN_MAX * 2"

definition write_vh :: "u64 \<Rightarrow> bytes \<Rightarrow> ('os pstate, unit) prog" where
  "write_vh a bs = modifyP (\<lambda>s. s\<lparr>wk := (wk s)\<lparr>vh_mem := mem_write (vh_mem (wk s)) a bs\<rparr>\<rparr>)"

text \<open>
  The call of \<^verbatim>\<open>load_library_err\<close>: after a caught exception \<^verbatim>\<open>rv\<close> is read uninitialised.
\<close>

definition load_library_error_call :: "'os proc_env \<Rightarrow> u64 \<Rightarrow> ('os pstate, int) prog" where
  "load_library_error_call P buff s =
     bindP (resultP (bindR (set_arg (new_CallArgs (raw_object s)) 0 (ArgU64 buff))
                       (\<lambda>ca. set_arg ca 1 (ArgI32 (of_nat ERR_MSG_LEN)))))
       (\<lambda>ca. with_args ca
         (\<lambda>ref. catchP (bindP (on_worker (doOnContext (veos_env P) (load_library_err (funcs (ph s))) ref))
                          (\<lambda>rv. returnP (sint rv)))
                   (\<lambda>err. throwP UndefinedBehaviour))) s"

definition loadLibraryError :: "'os proc_env \<Rightarrow> u64 \<Rightarrow> u64 \<Rightarrow> ('os pstate, int) prog" where
  "loadLibraryError P ret_buff sz =
     bindP (write_vh (err_msg_callee P) (replicate ERR_MSG_LEN 0))
       (\<lambda>_. bindP (catchP (bindP (allocBuff P (of_nat ERR_MSG_LEN)) (\<lambda>b. returnP (Some b)))
                     (\<lambda>err. returnP None))
       (\<lambda>b. case b of
          None \<Rightarrow> returnP (- 1)
        | Some buff \<Rightarrow>
            if buff = 0 then returnP (- 1)
            else bindP (load_library_error_call P buff)
              (\<lambda>rv. if rv < 0 then returnP (- 1)
                 else bindP (proc_readMem P (err_msg_callee P) buff (of_nat ERR_MSG_LEN))
                   (\<lambda>rv. if rv \<noteq> 0 then returnP (- 1)
                      else bindP (freeBuff P buff)
                        (\<lambda>_. bindP (getP (\<lambda>s. mem_read (vh_mem (wk s)) (err_msg_callee P)
                                               (if sz < of_nat ERR_MSG_LEN then unat sz else ERR_MSG_LEN)))
                        (\<lambda>bs. bindP (write_vh ret_buff bs) (\<lambda>_. returnP 0)))))))"

definition loadLibrary :: "'os proc_env \<Rightarrow> u64 \<Rightarrow> ('os pstate, u64) prog" where
  "loadLibrary P libname =
     bindP (strlen libname)
       (\<lambda>len. if len > VEO_SYMNAME_LEN_MAX then throwP (VEOException ''Too long name'' ENAMETOOLONG)
          else bindP (getP (\<lambda>s. (raw_object s, ph s)))
            (\<lambda>(raw, h). bindP (resultP (setOnStack (new_CallArgs raw) VEO_INTENT_IN 0 libname (of_nat (len + 1))))
              (\<lambda>ca. with_args ca
                (\<lambda>ref. bindP (on_worker (doOnContext (veos_env P) (load_library (funcs h)) ref))
                  (\<lambda>handle.
                     if handle = 0 \<and> getVeorunVersion h \<ge> VEORUN_VERSION4 P
                     then bindP (write_vh (err_msg_caller P) (replicate ERR_MSG_LEN 0))
                            (\<lambda>_. bindP (loadLibraryError P (err_msg_caller P) (of_nat ERR_MSG_LEN))
                            (\<lambda>_. returnP handle))
                     else returnP handle)))))"

definition add_symbol :: "u64 \<times> bytes \<Rightarrow> u64 \<Rightarrow> ('os pstate, unit) prog" where
  "add_symbol k a = modifyP (\<lambda>s. s\<lparr>ph := (ph s)\<lparr>sym_name := (sym_name (ph s))(k \<mapsto> a)\<rparr>\<rparr>)"

definition getSym :: "'os proc_env \<Rightarrow> u64 \<Rightarrow> u64 \<Rightarrow> ('os pstate, u64) prog" where
  "getSym P libhdl symname =
     bindP (strlen symname)
       (\<lambda>len. if len > VEO_SYMNAME_LEN_MAX then throwP (VEOException ''Too long name'' ENAMETOOLONG)
          else bindP (getP (\<lambda>s. (raw_object s, mem_read (vh_mem (wk s)) symname len)))
            (\<lambda>(raw, name). bindP (resultP (bindR (set_arg (new_CallArgs raw) 0 (ArgU64 libhdl))
                (\<lambda>ca. setOnStack ca VEO_INTENT_IN 1 symname (of_nat (len + 1)))))
              (\<lambda>ca. with_args ca
                (\<lambda>ref. bindP (getP (\<lambda>s. sym_name (ph s) (libhdl, name)))
                  (\<lambda>found. case found of
                     Some a \<Rightarrow> returnP a
                   | None \<Rightarrow>
                       bindP (getP (\<lambda>s. find_sym (funcs (ph s))))
                         (\<lambda>f. bindP (on_worker (doOnContext (veos_env P) f ref))
                           (\<lambda>symaddr. if symaddr = 0 then returnP symaddr
                              else bindP (add_symbol (libhdl, name) symaddr)
                                     (\<lambda>_. returnP symaddr))))))))"

section \<open>Contexts\<close>

text \<open>The core for a new context: any core, or that of the worker when all are in use.\<close>

definition choose_cpu :: "'os proc_env \<Rightarrow> 'os pstate \<Rightarrow> int" where
  "choose_cpu P s =
     (if tid_counter P (os (wk s)) > 8 - 1 then getnumChildThreads (ph s) smod 8 else - 1)"

definition openContext :: "'os proc_env \<Rightarrow> ('os pstate, u64) prog" where
  "openContext P s =
     bindP (resultP (set_arg (new_CallArgs (raw_object s)) 0 (ArgI32 (word_of_int (choose_cpu P s)))))
       (\<lambda>ca. with_args ca
         (\<lambda>ref. on_worker (bindP (callOpenContext (create_thread (funcs (ph s))) ref)
            (\<lambda>reqid. bindP (callWaitResult (veos_env P) reqid) request_value)))) s"

definition openContext_attr :: "'os proc_env \<Rightarrow> thread_context_attr \<Rightarrow> ('os pstate, u64) prog" where
  "openContext_attr P attr s =
     (let img = thread_attr_image P (choose_cpu P s) (stacksize attr)
      in bindP (write_vh (attr_local P) img)
           (\<lambda>_. bindP (resultP (setOnStack (new_CallArgs (raw_object s)) VEO_INTENT_IN 0
                                  (attr_local P) (of_nat (length img))))
           (\<lambda>ca. with_args ca
             (\<lambda>ref. on_worker (bindP (callOpenContext (create_thread_with_attr (funcs (ph s))) ref)
                (\<lambda>reqid. bindP (callWaitResult (veos_env P) reqid) request_value))))) s)"

section \<open>The end of the process\<close>

definition exit_request :: "'os veos \<Rightarrow> u64 \<Rightarrow> nat \<Rightarrow> ('os tstate, cmd) prog" where
  "exit_request E addr ref =
     bindP issueRequestID
       (\<lambda>i. bindP (push_request i (ExitProc addr ref))
       (\<lambda>rv. await E (if rv \<noteq> 0 then VEO_REQUEST_ID_INVALID else i)))"

definition end_main_thread :: "'os proc_env \<Rightarrow> ('os pstate, unit) prog" where
  "end_main_thread P =
     modifyP (\<lambda>s. let h = os_handle (main_thread (ph s));
                      w = process_thread_cleanup (veos_env P) h (- 1) (os (wk s))
                  in s\<lparr>wk := (wk s)\<lparr>os := veos_handle_free P h w\<rparr>,
                       ph := (ph s)\<lparr>main_thread := (main_thread (ph s))\<lparr>ctx_state := VEO_STATE_EXIT\<rparr>\<rparr>\<rparr>)"

definition exitProc :: "'os proc_env \<Rightarrow> ('os pstate, unit) prog" where
  "exitProc P s =
     with_args (new_CallArgs (raw_object s))
       (\<lambda>ref. if exit_func (funcs (ph s)) = 0 \<or> ctx_state (main_thread (ph s)) = VEO_STATE_EXIT
          then returnP ()
          else bindP (on_worker (exit_request (veos_env P) (exit_func (funcs (ph s))) ref))
                 (\<lambda>_. end_main_thread P)) s"

end
