(* ===== verification/Api.thy ===== *)
theory Api
  imports ProcHandle
begin

text \<open>
  The C API of the library (\<^verbatim>\<open>src/libveo/api.cpp\<close>).  Each function calls the C++ implementation
  and turns exceptions into return codes and errno.  Handles are addresses: 0 is the null
  pointer; the handle of the process is that of the process handle of the state.
\<close>

section \<open>State\<close>

text \<open>
  \<open>c_errno\<close> is the variable \<^verbatim>\<open>errno\<close> of the calling thread, \<open>attrs\<close> the attribute objects by
  address.
\<close>

record 'os astate =
  ps :: "'os pstate"
  c_errno :: int
  attrs :: "u64 \<Rightarrow> thread_context_attr option"

definition on_proc :: "('os pstate, 'a) prog \<Rightarrow> ('os astate, 'a) prog" where
  "on_proc p s = (case p (ps s) of None \<Rightarrow> None | Some (r, t) \<Rightarrow> Some (r, s\<lparr>ps := t\<rparr>))"

text \<open>
  An operation on the context with handle \<open>ctx\<close>: the context becomes the current one for the
  duration of the operation.
\<close>

definition on_context :: "u64 \<Rightarrow> ('os tstate, 'a) prog \<Rightarrow> ('os astate, 'a) prog" where
  "on_context ctx p s =
     (case ctx_heap (wk (ps s)) ctx of
        None \<Rightarrow> throwP UndefinedBehaviour s
      | Some c \<Rightarrow>
          (case p ((wk (ps s))\<lparr>tc := c\<rparr>) of
             None \<Rightarrow> None
           | Some (r, t) \<Rightarrow>
               Some (r, s\<lparr>ps := (ps s)\<lparr>wk :=
                 t\<lparr>tc := tc (wk (ps s)), ctx_heap := (ctx_heap t)(ctx \<mapsto> tc t)\<rparr>\<rparr>\<rparr>)))"

definition set_errno :: "int \<Rightarrow> ('os astate, unit) prog" where
  "set_errno e = modifyP (\<lambda>s. s\<lparr>c_errno := e\<rparr>)"

text \<open>\<^verbatim>\<open>catch (VEOException &e) { return code; }\<close>, without and with \<^verbatim>\<open>errno = e.err()\<close>\<close>

definition or_code :: "('os astate, 'a) prog \<Rightarrow> 'a \<Rightarrow> ('os astate, 'a) prog" where
  "or_code p code = catchP p (\<lambda>err. returnP code)"

definition or_errno :: "('os astate, 'a) prog \<Rightarrow> 'a \<Rightarrow> ('os astate, 'a) prog" where
  "or_errno p code = catchP p (\<lambda>err. bindP (set_errno err) (\<lambda>_. returnP code))"

definition veo_api_version :: int where
  "veo_api_version = VEO_API_VERSION"

section \<open>Choosing a VE node\<close>

text \<open>The loop that looks for the node in the list; it stops at the first match.\<close>

fun find_node :: "int \<Rightarrow> string list \<Rightarrow> bool result" where
  "find_node n [] = Inr False"
| "find_node n (v # vs) = bindR (stoi v) (\<lambda>m. if m = n then Inr True else find_node n vs)"

text \<open>
  The node for a process: \<open>None\<close> where the function returns NULL.  \<open>venodelist\<close> and
  \<open>venodenum\<close> are the values of the environment variables \<^verbatim>\<open>_VENODELIST\<close> and \<^verbatim>\<open>VE_NODE_NUMBER\<close>.
\<close>

definition select_node :: "string option \<Rightarrow> string option \<Rightarrow> int \<Rightarrow> int option result" where
  "select_node venodelist venodenum venode =
     (if venode < - 1 then Inr None
      else case venodelist of
        Some str \<Rightarrow>
          (let v = split_spaces str
           in if venode = - 1
              then (case venodenum of
                      Some num \<Rightarrow>
                        bindR (stoi num)
                          (\<lambda>n. bindR (find_node n v)
                          (\<lambda>found. Inr (if found then Some n else None)))
                    | None \<Rightarrow>
                        (if length v > 0 then bindR (stoi (v ! 0)) (\<lambda>n. Inr (Some n)) else Inr None))
              else if int (length v) \<le> venode then Inr None
              else bindR (stoi (v ! nat venode)) (\<lambda>n. Inr (Some n)))
      | None \<Rightarrow>
          (if venode = - 1
           then (case venodenum of
                   Some num \<Rightarrow> bindR (stoi num) (\<lambda>n. Inr (Some n))
                 | None \<Rightarrow> Inr (Some 0))
           else Inr (Some venode)))"

text \<open>
  \<^verbatim>\<open>veo_proc_create_static\<close>: \<open>ve_dev\<close> and \<open>veos_socket\<close> are the format strings fixed at build
  time, as functions of the node, \<open>socket_room\<close> is \<^verbatim>\<open>sizeof(VEOS_SOCKET) + 16\<close>, and \<open>create\<close> is
  \<^verbatim>\<open>veo_proc__create\<close>; \<open>None\<close> is NULL.  The names are cut to the size of their buffers by \<^verbatim>\<open>snprintf\<close>.
\<close>

definition veo_proc_create_static ::
  "(int \<Rightarrow> string) \<Rightarrow> (int \<Rightarrow> string) \<Rightarrow> nat \<Rightarrow> (string \<Rightarrow> string \<Rightarrow> string \<Rightarrow> ('s, 'h option) prog)
     \<Rightarrow> string option \<Rightarrow> string option \<Rightarrow> int \<Rightarrow> string \<Rightarrow> ('s, 'h option) prog" where
  "veo_proc_create_static ve_dev veos_socket socket_room create venodelist venodenum venode veobin =
     (case select_node venodelist venodenum venode of
        Inl (StdException msg) \<Rightarrow> returnP None
      | Inl e \<Rightarrow> throwP e
      | Inr None \<Rightarrow> returnP None
      | Inr (Some n) \<Rightarrow>
          create (take (socket_room - 1) (veos_socket n)) (take (16 - 1) (ve_dev n)) veobin)"

definition veo_proc_create ::
  "(int \<Rightarrow> string) \<Rightarrow> (int \<Rightarrow> string) \<Rightarrow> nat \<Rightarrow> (string \<Rightarrow> string \<Rightarrow> string \<Rightarrow> ('s, 'h option) prog)
     \<Rightarrow> string option \<Rightarrow> string option \<Rightarrow> string \<Rightarrow> string option \<Rightarrow> int \<Rightarrow> ('s, 'h option) prog" where
  "veo_proc_create ve_dev veos_socket socket_room create venodelist venodenum VEORUN_BIN veobin venode =
     veo_proc_create_static ve_dev veos_socket socket_room create venodelist venodenum venode
       (case veobin of Some b \<Rightarrow> b | None \<Rightarrow> VEORUN_BIN)"

section \<open>Processes\<close>

definition veo_proc_destroy :: "'os proc_env \<Rightarrow> ('os astate, int) prog" where
  "veo_proc_destroy P = or_code (bindP (on_proc (exitProc P)) (\<lambda>_. returnP 0)) (- 1)"

definition veo_load_library :: "'os proc_env \<Rightarrow> u64 \<Rightarrow> ('os astate, u64) prog" where
  "veo_load_library P libname = or_errno (on_proc (loadLibrary P libname)) 0"

definition veo_get_sym :: "'os proc_env \<Rightarrow> u64 \<Rightarrow> u64 \<Rightarrow> ('os astate, u64) prog" where
  "veo_get_sym P libhdl symname = or_errno (on_proc (getSym P libhdl symname)) 0"

text \<open>\<^verbatim>\<open>veo_alloc_mem(h, &addr, size)\<close>: the code and what is stored in \<^verbatim>\<open>*addr\<close>, if anything is.\<close>

definition veo_alloc_mem :: "'os proc_env \<Rightarrow> u64 \<Rightarrow> ('os astate, int \<times> u64 option) prog" where
  "veo_alloc_mem P sz =
     or_code (bindP (on_proc (allocBuff P sz))
                (\<lambda>a. returnP (if a = 0 then - 1 else 0, Some a))) (- 2, None)"

definition veo_free_mem :: "'os proc_env \<Rightarrow> u64 \<Rightarrow> ('os astate, int) prog" where
  "veo_free_mem P addr = or_code (bindP (on_proc (freeBuff P addr)) (\<lambda>_. returnP 0)) (- 1)"

definition veo_read_mem :: "'os proc_env \<Rightarrow> u64 \<Rightarrow> u64 \<Rightarrow> u64 \<Rightarrow> ('os astate, int) prog" where
  "veo_read_mem P dst src sz = or_code (on_proc (proc_readMem P dst src sz)) (- 1)"

definition veo_write_mem :: "'os proc_env \<Rightarrow> u64 \<Rightarrow> u64 \<Rightarrow> u64 \<Rightarrow> ('os astate, int) prog" where
  "veo_write_mem P dst src sz = or_code (on_proc (proc_writeMem P dst src sz)) (- 1)"

section \<open>Contexts\<close>

text \<open>The handle of a new context, or a negative errno value in its place.\<close>

definition context_handle :: "u64 \<Rightarrow> ('os astate, u64) prog" where
  "context_handle ctx =
     (let rv = sint ctx
      in if rv < 0 then bindP (set_errno (sint (word_of_int (- rv) :: u32))) (\<lambda>_. returnP 0)
         else returnP ctx)"

definition veo_context_open :: "'os proc_env \<Rightarrow> ('os astate, u64) prog" where
  "veo_context_open P = or_errno (bindP (on_proc (openContext P)) context_handle) 0"

definition veo_context_open_with_attr ::
  "'os proc_env \<Rightarrow> bool \<Rightarrow> u64 \<Rightarrow> ('os astate, u64) prog" where
  "veo_context_open_with_attr P proc_is_null tca s =
     (if tca = 0 \<or> proc_is_null then bindP (set_errno EINVAL) (\<lambda>_. returnP 0) s
      else if getVeorunVersion (ph (ps s)) < VEORUN_VERSION3 P
      then bindP (set_errno ENOSYS) (\<lambda>_. returnP 0) s
      else case attrs s tca of
             None \<Rightarrow> throwP UndefinedBehaviour s
           | Some attr \<Rightarrow> or_errno (bindP (on_proc (openContext_attr P attr)) context_handle) 0 s)"

definition veo_context_close :: "'os veos \<Rightarrow> u64 \<Rightarrow> ('os astate, int) prog" where
  "veo_context_close E ctx s =
     (case ctx_heap (wk (ps s)) ctx of
        None \<Rightarrow> throwP UndefinedBehaviour s
      | Some c \<Rightarrow>
          if isMainThread c then returnP (- EINVAL) s
          else bindP (on_context ctx (close E))
                 (\<lambda>rv. if rv = 0
                    then bindP (modifyP (\<lambda>s. s\<lparr>ps := (ps s)\<lparr>wk := (wk (ps s))\<lparr>ctx_heap :=
                                  (ctx_heap (wk (ps s)))(ctx := None)\<rparr>\<rparr>\<rparr>))
                           (\<lambda>_. returnP rv)
                    else returnP rv) s)"

definition veo_get_context_state :: "u64 \<Rightarrow> ('os astate, int) prog" where
  "veo_get_context_state ctx = on_context ctx (getP (\<lambda>s. context_state_int (getState (tc s))))"

section \<open>Requests\<close>

definition veo_call_async :: "u64 \<Rightarrow> u64 \<Rightarrow> nat \<Rightarrow> ('os astate, u64) prog" where
  "veo_call_async ctx addr args = or_code (on_context ctx (callAsync addr args)) VEO_REQUEST_ID_INVALID"

text \<open>\<^verbatim>\<open>callAsyncByName\<close> looks the symbol up through the process, then calls on the context.\<close>

definition callAsyncByName :: "'os proc_env \<Rightarrow> u64 \<Rightarrow> u64 \<Rightarrow> u64 \<Rightarrow> nat \<Rightarrow> ('os astate, u64) prog" where
  "callAsyncByName P ctx libhdl symname args =
     bindP (on_proc (getSym P libhdl symname)) (\<lambda>addr. on_context ctx (callAsync addr args))"

definition veo_call_async_by_name ::
  "'os proc_env \<Rightarrow> u64 \<Rightarrow> u64 \<Rightarrow> u64 \<Rightarrow> nat \<Rightarrow> ('os astate, u64) prog" where
  "veo_call_async_by_name P ctx libhdl symname args =
     or_code (callAsyncByName P ctx libhdl symname args) VEO_REQUEST_ID_INVALID"

definition veo_call_async_vh :: "u64 \<Rightarrow> u64 \<Rightarrow> u64 \<Rightarrow> ('os astate, u64) prog" where
  "veo_call_async_vh ctx func arg = or_code (on_context ctx (callVHAsync func arg)) VEO_REQUEST_ID_INVALID"

definition veo_call_peek_result :: "u64 \<Rightarrow> u64 \<Rightarrow> ('os astate, int \<times> u64 option) prog" where
  "veo_call_peek_result ctx reqid = or_code (on_context ctx (callPeekResult reqid)) (- 1, None)"

definition veo_call_wait_result :: "'os veos \<Rightarrow> u64 \<Rightarrow> u64 \<Rightarrow> ('os astate, int \<times> u64 option) prog" where
  "veo_call_wait_result E ctx reqid = or_code (on_context ctx (callWaitResult E reqid)) (- 1, None)"

definition veo_async_read_mem :: "u64 \<Rightarrow> u64 \<Rightarrow> u64 \<Rightarrow> u64 \<Rightarrow> ('os astate, u64) prog" where
  "veo_async_read_mem ctx dst src sz =
     or_code (on_context ctx (asyncReadMem dst src sz)) VEO_REQUEST_ID_INVALID"

definition veo_async_write_mem :: "u64 \<Rightarrow> u64 \<Rightarrow> u64 \<Rightarrow> u64 \<Rightarrow> ('os astate, u64) prog" where
  "veo_async_write_mem ctx dst src sz =
     or_code (on_context ctx (asyncWriteMem dst src sz)) VEO_REQUEST_ID_INVALID"

section \<open>Arguments and attributes\<close>

text \<open>
  The functions on \<^verbatim>\<open>veo_args\<close> objects act on the object with index \<open>ca\<close>; \<open>f\<close> is the member
  function called.
\<close>

definition on_args :: "nat \<Rightarrow> (call_args \<Rightarrow> call_args result) \<Rightarrow> ('os astate, unit) prog" where
  "on_args ca f s =
     (case args_heap (wk (ps s)) ca of
        None \<Rightarrow> throwP UndefinedBehaviour s
      | Some a \<Rightarrow>
          (case f a of
             Inl e \<Rightarrow> throwP e s
           | Inr a' \<Rightarrow>
               returnP () (s\<lparr>ps := (ps s)\<lparr>wk := (wk (ps s))\<lparr>args_heap :=
                 (args_heap (wk (ps s)))(ca \<mapsto> a')\<rparr>\<rparr>\<rparr>)))"

text \<open>The template \<^verbatim>\<open>veo_args_set_<T>\<close>, with which \<^verbatim>\<open>veo_args_set_i64\<close> to \<^verbatim>\<open>veo_args_set_float\<close> are defined.\<close>

definition veo_args_set :: "nat \<Rightarrow> int \<Rightarrow> arg_base \<Rightarrow> ('os astate, int) prog" where
  "veo_args_set ca argnum val =
     or_code (bindP (on_args ca (\<lambda>a. set_arg a argnum val)) (\<lambda>_. returnP 0)) (- 1)"

text \<open>The ten scalar types; floating point values are their bit patterns.\<close>

definition veo_args_set_i64 :: "nat \<Rightarrow> int \<Rightarrow> u64 \<Rightarrow> ('os astate, int) prog" where
  "veo_args_set_i64 ca argnum val = veo_args_set ca argnum (ArgI64 val)"

definition veo_args_set_u64 :: "nat \<Rightarrow> int \<Rightarrow> u64 \<Rightarrow> ('os astate, int) prog" where
  "veo_args_set_u64 ca argnum val = veo_args_set ca argnum (ArgU64 val)"

definition veo_args_set_i32 :: "nat \<Rightarrow> int \<Rightarrow> u32 \<Rightarrow> ('os astate, int) prog" where
  "veo_args_set_i32 ca argnum val = veo_args_set ca argnum (ArgI32 val)"

definition veo_args_set_u32 :: "nat \<Rightarrow> int \<Rightarrow> u32 \<Rightarrow> ('os astate, int) prog" where
  "veo_args_set_u32 ca argnum val = veo_args_set ca argnum (ArgU32 val)"

definition veo_args_set_i16 :: "nat \<Rightarrow> int \<Rightarrow> u16 \<Rightarrow> ('os astate, int) prog" where
  "veo_args_set_i16 ca argnum val = veo_args_set ca argnum (ArgI16 val)"

definition veo_args_set_u16 :: "nat \<Rightarrow> int \<Rightarrow> u16 \<Rightarrow> ('os astate, int) prog" where
  "veo_args_set_u16 ca argnum val = veo_args_set ca argnum (ArgU16 val)"

definition veo_args_set_i8 :: "nat \<Rightarrow> int \<Rightarrow> u8 \<Rightarrow> ('os astate, int) prog" where
  "veo_args_set_i8 ca argnum val = veo_args_set ca argnum (ArgI8 val)"

definition veo_args_set_u8 :: "nat \<Rightarrow> int \<Rightarrow> u8 \<Rightarrow> ('os astate, int) prog" where
  "veo_args_set_u8 ca argnum val = veo_args_set ca argnum (ArgU8 val)"

definition veo_args_set_double :: "nat \<Rightarrow> int \<Rightarrow> u64 \<Rightarrow> ('os astate, int) prog" where
  "veo_args_set_double ca argnum val = veo_args_set ca argnum (ArgDouble val)"

definition veo_args_set_float :: "nat \<Rightarrow> int \<Rightarrow> u32 \<Rightarrow> ('os astate, int) prog" where
  "veo_args_set_float ca argnum val = veo_args_set ca argnum (ArgFloat val)"

definition veo_args_set_stack ::
  "nat \<Rightarrow> veo_args_intent \<Rightarrow> int \<Rightarrow> u64 \<Rightarrow> u64 \<Rightarrow> ('os astate, int) prog" where
  "veo_args_set_stack ca inout argnum buff len =
     or_code (bindP (on_args ca (\<lambda>a. setOnStack a inout argnum buff len)) (\<lambda>_. returnP 0)) (- 1)"

definition veo_args_clear :: "nat \<Rightarrow> ('os astate, unit) prog" where
  "veo_args_clear ca = on_args ca (\<lambda>a. Inr (clear a))"

text \<open>\<^verbatim>\<open>veo_args_alloc\<close> with the address \<open>ca\<close> that operator new gives, and \<^verbatim>\<open>veo_args_free\<close>.\<close>

definition veo_args_alloc :: "nat \<Rightarrow> call_args \<Rightarrow> ('os astate, nat) prog" where
  "veo_args_alloc ca raw s =
     returnP ca (s\<lparr>ps := (ps s)\<lparr>wk := (wk (ps s))\<lparr>args_heap :=
       (args_heap (wk (ps s)))(ca \<mapsto> new_CallArgs raw)\<rparr>\<rparr>\<rparr>)"

definition veo_args_free :: "nat \<Rightarrow> ('os astate, unit) prog" where
  "veo_args_free ca =
     modifyP (\<lambda>s. s\<lparr>ps := (ps s)\<lparr>wk := (wk (ps s))\<lparr>args_heap := (args_heap (wk (ps s)))(ca := None)\<rparr>\<rparr>\<rparr>)"

definition veo_alloc_thr_ctxt_attr :: "u64 \<Rightarrow> ('os astate, u64) prog" where
  "veo_alloc_thr_ctxt_attr a s = returnP a (s\<lparr>attrs := (attrs s)(a \<mapsto> new_ThreadContextAttr)\<rparr>)"

definition veo_free_thr_ctxt_attr :: "u64 \<Rightarrow> ('os astate, int) prog" where
  "veo_free_thr_ctxt_attr tca =
     (if tca = 0 then bindP (set_errno EINVAL) (\<lambda>_. returnP (- 1))
      else bindP (modifyP (\<lambda>s. s\<lparr>attrs := (attrs s)(tca := None)\<rparr>)) (\<lambda>_. returnP 0))"

definition on_attr ::
  "u64 \<Rightarrow> (thread_context_attr \<Rightarrow> thread_context_attr result) \<Rightarrow> ('os astate, unit) prog" where
  "on_attr tca f s =
     (case attrs s tca of
        None \<Rightarrow> throwP UndefinedBehaviour s
      | Some a \<Rightarrow>
          (case f a of
             Inl e \<Rightarrow> throwP e s
           | Inr a' \<Rightarrow> returnP () (s\<lparr>attrs := (attrs s)(tca \<mapsto> a')\<rparr>)))"

definition veo_set_thr_ctxt_stacksize :: "u64 \<Rightarrow> u64 \<Rightarrow> ('os astate, int) prog" where
  "veo_set_thr_ctxt_stacksize tca stack_sz =
     (if tca = 0 then bindP (set_errno EINVAL) (\<lambda>_. returnP (- 1))
      else or_errno (bindP (on_attr tca (\<lambda>a. setStacksize a stack_sz)) (\<lambda>_. returnP 0)) (- 1))"

text \<open>\<^verbatim>\<open>veo_get_thr_ctxt_stacksize(tca, &stack_sz)\<close>: the code and the value stored.\<close>

definition veo_get_thr_ctxt_stacksize :: "u64 \<Rightarrow> bool \<Rightarrow> ('os astate, int \<times> u64 option) prog" where
  "veo_get_thr_ctxt_stacksize tca out_is_null s =
     (if tca = 0 \<or> out_is_null then bindP (set_errno EINVAL) (\<lambda>_. returnP (- 1, None)) s
      else case attrs s tca of
             None \<Rightarrow> throwP UndefinedBehaviour s
           | Some a \<Rightarrow> returnP (0, Some (stacksize a)) s)"

end
