(* ===== verification/Process.thy ===== *)
theory Process
  imports ProcHandle Requests
begin

text \<open>
  Properties of the operations on a VE process: the symbol cache, what a caller gets from an
  idle worker, and what happens when the worker has failed.
\<close>

section \<open>Local arguments and the worker\<close>

definition enter_args :: "call_args \<Rightarrow> 'os pstate \<Rightarrow> 'os pstate" where
  "enter_args ca s = s\<lparr>local_ref := Suc (local_ref s),
     wk := (wk s)\<lparr>args_heap := (args_heap (wk s))(local_ref s \<mapsto> ca)\<rparr>\<rparr>"

definition leave_args :: "'os pstate \<Rightarrow> 'os pstate \<Rightarrow> 'os pstate" where
  "leave_args s t = t\<lparr>local_ref := local_ref s,
     wk := (wk t)\<lparr>args_heap := (args_heap (wk t))(local_ref s := args_heap (wk s) (local_ref s))\<rparr>\<rparr>"

lemma with_args_eq:
  "with_args ca body s =
     (case body (local_ref s) (enter_args ca s) of
        None \<Rightarrow> None | Some (r, t) \<Rightarrow> Some (r, leave_args s t))"
  by (simp add: with_args_def enter_args_def leave_args_def Let_def split: option.split)

lemma leave_enter [simp]: "leave_args s (enter_args ca s) = s"
  by (simp add: leave_args_def enter_args_def)

lemma args_fields [simp]:
  "ph (enter_args ca s) = ph s" "ph (leave_args s t) = ph t"
  "tc (wk (enter_args ca s)) = tc (wk s)" "tc (wk (leave_args s t)) = tc (wk t)"
  "vh_mem (wk (enter_args ca s)) = vh_mem (wk s)" "vh_mem (wk (leave_args s t)) = vh_mem (wk t)"
  "os (wk (enter_args ca s)) = os (wk s)" "os (wk (leave_args s t)) = os (wk t)"
  "raw_object (enter_args ca s) = raw_object s" "raw_object (leave_args s t) = raw_object t"
  by (simp_all add: enter_args_def leave_args_def)

lemma on_worker_Some: "p (wk s) = Some (r, t) \<Longrightarrow> on_worker p s = Some (r, s\<lparr>wk := t\<rparr>)"
  by (simp add: on_worker_def)

lemma on_worker_same: "p (wk s) = Some (r, wk s) \<Longrightarrow> on_worker p s = Some (r, s)"
  by (simp add: on_worker_def)

lemma on_worker_ph: "on_worker p s = Some (r, t) \<Longrightarrow> ph t = ph s"
  by (auto simp: on_worker_def split: option.splits)

section \<open>The symbol cache\<close>

text \<open>The contract of a cache: what was stored is found, and nothing else changes.\<close>

locale cache =
  fixes lookup :: "'c \<Rightarrow> 'k \<Rightarrow> 'v option"
    and store :: "'k \<Rightarrow> 'v \<Rightarrow> 'c \<Rightarrow> 'c"
  assumes lookup_store_same: "lookup (store k v c) k = Some v"
    and lookup_store_other: "k' \<noteq> k \<Longrightarrow> lookup (store k v c) k' = lookup c k'"
begin

text \<open>Storing in a cache what a function gives keeps every entry a value of that function.\<close>

lemma sound_store:
  assumes "\<And>k v. lookup c k = Some v \<Longrightarrow> val k = v" and "val k' = v'"
    and "lookup (store k' v' c) k = Some v"
  shows "val k = v"
  using assms lookup_store_same lookup_store_other by (cases "k = k'") fastforce+

lemma lookup_store: "lookup (store k v c) k' = (if k' = k then Some v else lookup c k')"
  using lookup_store_same lookup_store_other by simp

end

definition sym_lookup :: "'os pstate \<Rightarrow> u64 \<times> bytes \<Rightarrow> u64 option" where
  "sym_lookup s k = sym_name (ph s) k"

definition sym_store :: "u64 \<times> bytes \<Rightarrow> u64 \<Rightarrow> 'os pstate \<Rightarrow> 'os pstate" where
  "sym_store k a s = s\<lparr>ph := (ph s)\<lparr>sym_name := (sym_name (ph s))(k \<mapsto> a)\<rparr>\<rparr>"

interpretation symbols: cache sym_lookup sym_store
  by unfold_locales (simp_all add: sym_lookup_def sym_store_def)

text \<open>The C string at an address of the VH process.\<close>

definition c_string :: "memory \<Rightarrow> u64 \<Rightarrow> bytes option" where
  "c_string m p = map_option (mem_read m p) (strlen_from m p 0)"

lemma strlen_Some:
  assumes "c_string (vh_mem (wk s)) p = Some str"
  shows "strlen p s = Some (Inr (length str), s)" "mem_read (vh_mem (wk s)) p (length str) = str"
  using assms by (auto simp: c_string_def strlen_def mem_read_def)

text \<open>The arguments of \<^verbatim>\<open>find_sym\<close>: the handle of the library and the name with its NUL.\<close>

definition sym_args :: "call_args \<Rightarrow> u64 \<Rightarrow> u64 \<Rightarrow> nat \<Rightarrow> call_args" where
  "sym_args raw libhdl symname len =
     raw\<lparr>arguments := [Some (ArgU64 libhdl),
                      Some (ArgOnStack symname (1 + of_nat len) True False None)],
         stack_buf := None\<rparr>"

lemma sym_args_built:
  "bindR (set_arg (new_CallArgs raw) 0 (ArgU64 libhdl))
     (\<lambda>ca. setOnStack ca VEO_INTENT_IN 1 symname (1 + of_nat len))
   = Inr (sym_args raw libhdl symname len)"
  by (simp add: set_arg_def setOnStack_def store_arg_def new_CallArgs_def sym_args_def INT_MAX_def
      numeral_2_eq_2)

lemma getSym_eq:
  fixes libhdl :: u64
  assumes "c_string (vh_mem (wk s)) p = Some name" and "length name \<le> VEO_SYMNAME_LEN_MAX"
  defines "s1 \<equiv> enter_args (sym_args (raw_object s) libhdl p (length name)) s"
  shows "getSym P libhdl p s =
     (case sym_lookup s (libhdl, name) of
        Some a \<Rightarrow> Some (Inr a, s)
      | None \<Rightarrow>
          (case on_worker (doOnContext (veos_env P) (find_sym (funcs (ph s))) (local_ref s)) s1 of
             None \<Rightarrow> None
           | Some (Inl e, t) \<Rightarrow> Some (Inl e, leave_args s t)
           | Some (Inr a, t) \<Rightarrow>
               Some (Inr a, leave_args s (if a = 0 then t else sym_store (libhdl, name) a t))))"
proof -
  note eqs = getSym_def sym_args_built with_args_eq sym_lookup_def add_symbol_def sym_store_def
  let ?call = "on_worker (doOnContext (veos_env P) (find_sym (funcs (ph s))) (local_ref s)) s1"
  show ?thesis
  proof (cases "sym_lookup s (libhdl, name)")
    case (Some a)
    then show ?thesis using assms(2) strlen_Some [OF assms(1)] by (simp add: eqs)
  next
    case None
    consider "?call = None" | e t where "?call = Some (Inl e, t)" | a t where "?call = Some (Inr a, t)"
      by (metis old.sum.exhaust option.exhaust surj_pair)
    then show ?thesis
      using None assms(2) strlen_Some [OF assms(1)]
      by cases (simp_all add: eqs s1_def)
  qed
qed


text \<open>
  C25: a symbol is looked up on the VE once.  When \<^verbatim>\<open>getSym\<close> has given a (non-zero) address for a
  name, asking again for that name in that library, through whatever pointer, gives the same
  address at once: no request is made and nothing changes.  A failed search is not cached.
\<close>

theorem getSym_cached:
  assumes "getSym P libhdl p s = Some (Inr a, t)" and "a \<noteq> 0"
    and "c_string (vh_mem (wk s)) p = Some name" and "length name \<le> VEO_SYMNAME_LEN_MAX"
    and "c_string (vh_mem (wk t)) p' = Some name"
  shows "getSym P libhdl p' t = Some (Inr a, t)"
proof -
  have "sym_lookup t (libhdl, name) = Some a"
  proof (cases "sym_lookup s (libhdl, name)")
    case None
    then show ?thesis
      using assms(1,2) symbols.lookup_store_same
      by (auto simp: getSym_eq [OF assms(3,4)] sym_lookup_def split: option.splits sum.splits if_splits)
  next
    case (Some b)
    then show ?thesis using assms(1) by (simp add: getSym_eq [OF assms(3,4)])
  qed
  then show ?thesis
    by (simp add: getSym_eq [OF assms(5,4)])
qed

text \<open>
  Names are checked before anything is sent: a library or symbol name of more than 255
  characters is refused with ENAMETOOLONG and leaves everything as it was.
\<close>

theorem long_names_refused:
  assumes "c_string (vh_mem (wk s)) p = Some name" and "length name > 255"
  shows "getSym P libhdl p s = Some (Inl (VEOException ''Too long name'' 36), s)
     \<and> loadLibrary P p s = Some (Inl (VEOException ''Too long name'' 36), s)"
  using assms(2) strlen_Some [OF assms(1)]
  by (simp add: getSym_def loadLibrary_def VEO_SYMNAME_LEN_MAX_def ENAMETOOLONG_def)

section \<open>A worker that has failed\<close>

lemma doOnContext_dead:
  assumes "ctx_state (tc s) = VEO_STATE_EXIT" and "VEO_REQUEST_ID_INVALID \<notin> rem_reqid (tc s)"
  shows "doOnContext E f ref s = Some (Inl (VEOException ''request failed'' ENOSYS), s)"
  using assms
  by (simp add: doOnContext_def callAsync_def callWaitResult_unknown request_value_def command_state_defs)

text \<open>
  After the worker has failed, the process handle answers without waiting: allocating,
  freeing, looking up a symbol that is not cached and opening a context raise the exception
  \<open>request failed\<close> and change nothing; but a memory transfer stops the whole VH process.
\<close>

theorem dead_worker_operations:
  assumes "ctx_state (tc (wk s)) = VEO_STATE_EXIT" and "VEO_REQUEST_ID_INVALID \<notin> rem_reqid (tc (wk s))"
  shows "allocBuff P sz s = Some (Inl (VEOException ''request failed'' 38), s)
     \<and> freeBuff P a s = Some (Inl (VEOException ''request failed'' 38), s)
     \<and> openContext P s = Some (Inl (VEOException ''request failed'' 38), s)
     \<and> proc_readMem P dst src n s = Some (Inl Abort, s)
     \<and> proc_writeMem P dst src n s = Some (Inl Abort, s)"
proof -
  have dead: "on_worker (doOnContext E f ref) (enter_args ca s)
      = Some (Inl (VEOException ''request failed'' ENOSYS), enter_args ca s)" for E f ref ca
    by (rule on_worker_same, rule doOnContext_dead) (use assms in simp_all)
  have "allocBuff P sz s = Some (Inl (VEOException ''request failed'' 38), s)"
    "freeBuff P a s = Some (Inl (VEOException ''request failed'' 38), s)"
    by (simp_all add: allocBuff_def freeBuff_def with_args_eq dead ENOSYS_def)
  moreover have "openContext P s = Some (Inl (VEOException ''request failed'' 38), s)"
    using assms
    by (simp add: openContext_def with_args_eq set_arg_def store_arg_def new_CallArgs_def INT_MAX_def
        on_worker_def callOpenContext_def callWaitResult_unknown request_value_def command_state_defs
        ENOSYS_def)
  moreover have "proc_readMem P dst src n s = Some (Inl Abort, s)"
    "proc_writeMem P dst src n s = Some (Inl Abort, s)"
    using assms
    by (simp_all add: proc_readMem_def proc_writeMem_def on_worker_def asyncReadMem_def
        asyncWriteMem_def callWaitResult_unknown transfer_value_def command_state_defs)
  ultimately show ?thesis by blast
qed

text \<open>
  C32: after a command of the worker has failed, the VE process cannot be destroyed:
  \<^verbatim>\<open>exitProc\<close> looks at the state of the main thread only, its request is refused by the closed
  queue of the worker, and it waits for ever for a completion with the invalid ID.
\<close>

theorem exitProc_hangs_after_failure:
  assumes "ctx_state (tc (wk s)) = VEO_STATE_EXIT"
    and "bq_state (request (comq (tc (wk s)))) = VEO_QUEUE_CLOSED"
    and "VEO_REQUEST_ID_INVALID \<notin> cmd_id ` set (bq_queue (completion (comq (tc (wk s)))))"
    and "exit_func (funcs (ph s)) \<noteq> 0" and "ctx_state (main_thread (ph s)) \<noteq> VEO_STATE_EXIT"
  shows "exitProc P s = None"
proof -
  let ?s = "enter_args (new_CallArgs (raw_object s)) s"
  have "await (veos_env P) VEO_REQUEST_ID_INVALID (issued (wk ?s)) = None"
    using assms(1,3) by (intro await_stranded) (simp_all add: completed_def)
  then have "exit_request (veos_env P) (exit_func (funcs (ph s))) ref (wk ?s) = None" for ref
    using assms(2)
    by (simp add: exit_request_def issueRequestID_eq push_request_def pushRequest_def set_comq_def
        issued_def)
  then have "on_worker (exit_request (veos_env P) (exit_func (funcs (ph s))) (local_ref s)) ?s = None"
    by (simp add: on_worker_def)
  then show ?thesis
    using assms(4,5) by (simp add: exitProc_def with_args_eq)
qed

section \<open>An idle worker\<close>

definition ready :: "'os tstate \<Rightarrow> bool" where
  "ready s \<longleftrightarrow> ctx_state (tc s) = VEO_STATE_BLOCKED \<and> pending s = []
     \<and> bq_state (request (comq (tc s))) = VEO_QUEUE_READY"

definition next_id :: "'os tstate \<Rightarrow> u64" where
  "next_id s = fst (fetch_id (seq_no (tc s)))"

text \<open>No result of an earlier request with the next ID is still waiting to be fetched.\<close>

definition idle :: "'os tstate \<Rightarrow> bool" where
  "idle s \<longleftrightarrow> ready s \<and> next_id s \<notin> cmd_id ` set (completed s)"

lemma idleD:
  assumes "idle s"
  shows "ctx_state (tc s) = VEO_STATE_BLOCKED" "pending s = []"
    "bq_state (request (comq (tc s))) = VEO_QUEUE_READY" "next_id s \<notin> cmd_id ` set (completed s)"
  using assms by (simp_all add: idle_def ready_def)

text \<open>The state in which the next request runs when its caller waits for it at once.\<close>

definition requested :: "'os tstate \<Rightarrow> 'os tstate" where
  "requested s = forget (next_id s) (issued s)"

lemma submit_and_wait:
  assumes "idle s"
    and "run_command E f (new_Command (next_id s) f) (requested s) = Some (Inr (rv, setResult c v st), u)"
  shows "bindP (submit f) (\<lambda>i. bindP (callWaitResult E i) k) s =
     k (st, Some v) (set_completed (completed s) (complete_command rv (setResult c v st) u))"
proof -
  have sub: "submit f s = Some (Inr (next_id s), set_pending [new_Command (next_id s) f] (issued s))"
    using idleD [OF assms(1)] by (simp add: submitted_state next_id_def)
  have "callWaitResult E (next_id s) (set_pending [new_Command (next_id s) f] (issued s)) =
      Some (Inr (st, Some v), set_completed (completed s) (complete_command rv (setResult c v st) u))"
    using wait_after_submit [of s E f rv c v st u] assms(2) idleD [OF assms(1)]
    by (simp add: next_id_def requested_def)
  with sub show ?thesis by simp
qed

lemma doOnContext_idle:
  assumes "idle s" and "f \<noteq> 0"
    and "run_call E f ref (new_Command (next_id s) (CallFunction f ref)) (requested s) = Some (Inr (rv, c'), u)"
  shows "\<exists>v st w. c' = setResult (new_Command (next_id s) (CallFunction f ref)) v st
     \<and> doOnContext E f ref s =
         Some (if st = VEO_COMMAND_OK then Inr v else Inl (VEOException ''request failed'' ENOSYS), w)
     \<and> (st = VEO_COMMAND_OK \<and> ready w \<or> st = VEO_COMMAND_EXCEPTION \<and> ctx_state (tc w) = VEO_STATE_EXIT)
     \<and> vh_mem w = vh_mem u"
proof -
  let ?c = "new_Command (next_id s) (CallFunction f ref)"
  have run: "run_command E (CallFunction f ref) ?c (requested s) = Some (Inr (rv, c'), u)"
    using assms(3) by simp
  obtain v st where c': "c' = setResult ?c v st"
    using run_command_sets_result [OF run] by auto
  let ?w = "set_completed (completed s) (complete_command rv c' u)"
  have "doOnContext E f ref s = bindP (submit (CallFunction f ref)) (\<lambda>i. bindP (callWaitResult E i) request_value) s"
    using idleD [OF assms(1)] assms(2) by (simp add: doOnContext_def callAsync_def bindP_def)
  also have "\<dots> = request_value (st, Some v) ?w"
    using submit_and_wait [OF assms(1) run [unfolded c'], of request_value] c' by simp
  finally have do_on: "doOnContext E f ref s = request_value (st, Some v) ?w" .
  have st: "rv = 0 \<and> st = VEO_COMMAND_OK \<and> ctx_state (tc u) = VEO_STATE_BLOCKED
      \<or> rv = 1 \<and> st = VEO_COMMAND_EXCEPTION"
    using run_call_outcomes [OF assms(3)] c' by (auto simp: state_simps)
  have "same_queues (requested s) u" by (rule run_command_same_queues [OF run])
  then have "pending u = []" "request (comq (tc u)) = request (comq (tc s))"
    using idleD(2) [OF assms(1)]
    by (simp_all add: same_queues_views requested_def) (simp add: same_queues_def forget_def)
  then have "rv = 0 \<Longrightarrow> ctx_state (tc u) = VEO_STATE_BLOCKED \<Longrightarrow> ready ?w"
    using idleD(3) [OF assms(1)]
    by (simp add: ready_def complete_command_def set_completed_def set_comq_def Let_def pending_def)
  moreover have "vh_mem ?w = vh_mem u"
    by (simp add: set_completed_def complete_command_def set_comq_def Let_def)
  ultimately show ?thesis
    using st c' do_on
    by (intro exI [of _ v] exI [of _ st] exI [of _ ?w])
      (auto simp: request_value_def command_state_defs)
qed

text \<open>
  Allocating VE memory gives exactly what the allocation function on the VE returned.  On
  an idle worker the size is the only argument of the call; if the call comes back with \<open>v\<close>,
  the result is \<open>v\<close> and the worker is ready again; if the VE reports an exception, the caller
  gets the exception \<open>request failed\<close> and the worker is in state EXIT.
\<close>

theorem allocBuff_returns_ve_value:
  fixes P :: "'os proc_env"
  assumes "idle (wk s)" and "alloc_buff (funcs (ph s)) \<noteq> 0"
    and "s1 = enter_args (new_CallArgs_list (raw_object s) [sz]) s"
    and "c = new_Command (next_id (wk s)) (CallFunction (alloc_buff (funcs (ph s))) (local_ref s))"
    and "run_call (veos_env P) (alloc_buff (funcs (ph s))) (local_ref s) c (requested (wk s1))
         = Some (Inr (rv, setResult c v st), u)"
  shows "\<exists>t. allocBuff P sz s =
       Some (if st = VEO_COMMAND_OK then Inr v else Inl (VEOException ''request failed'' 38), t)
     \<and> (st = VEO_COMMAND_OK \<and> ready (wk t)
        \<or> st = VEO_COMMAND_EXCEPTION \<and> ctx_state (tc (wk t)) = VEO_STATE_EXIT)"
proof -
  have "tc (wk s1) = tc (wk s)" using assms(3) by simp
  then have id: "idle (wk s1)" "next_id (wk s1) = next_id (wk s)"
    using assms(1) by (simp_all add: idle_def ready_def next_id_def pending_def completed_def)
  have "\<exists>w. doOnContext (veos_env P) (alloc_buff (funcs (ph s))) (local_ref s) (wk s1)
        = Some (if st = VEO_COMMAND_OK then Inr v else Inl (VEOException ''request failed'' ENOSYS), w)
      \<and> (st = VEO_COMMAND_OK \<and> ready w \<or> st = VEO_COMMAND_EXCEPTION \<and> ctx_state (tc w) = VEO_STATE_EXIT)"
    using doOnContext_idle [OF id(1) assms(2), of "veos_env P" "local_ref s"] assms(4,5) id(2) by auto
  then obtain w where w: "on_worker (doOnContext (veos_env P) (alloc_buff (funcs (ph s))) (local_ref s)) s1
        = Some (if st = VEO_COMMAND_OK then Inr v else Inl (VEOException ''request failed'' ENOSYS), s1\<lparr>wk := w\<rparr>)"
      "st = VEO_COMMAND_OK \<and> ready w \<or> st = VEO_COMMAND_EXCEPTION \<and> ctx_state (tc w) = VEO_STATE_EXIT"
    by (auto simp: on_worker_def)
  let ?t = "leave_args s (s1\<lparr>wk := w\<rparr>)"
  have "tc (wk ?t) = tc w" by simp
  then have "ready w = ready (wk ?t)" by (simp add: ready_def pending_def)
  then show ?thesis
    using w assms(3) \<open>tc (wk ?t) = tc w\<close>
    by (intro exI [of _ ?t]) (auto simp: allocBuff_def with_args_eq ENOSYS_def)
qed

text \<open>
  Reading VE memory through the process handle.  A successful transfer stores the bytes at
  the destination, gives zero and leaves the worker ready; a failed one never gives the
  documented negative value: the assertion on the status of the request stops the VH process.
\<close>

theorem readMem_result:
  fixes P :: "'os proc_env"
  assumes "idle (wk s)"
    and "ve_recv_data (veos_env P) (os_handle (tc (wk s))) src (unat n) (os (wk s)) = ((rv, bs), w)"
  shows "\<exists>t. proc_readMem P dst src n s = Some (if rv = 0 then Inr 0 else Inl Abort, t)
     \<and> vh_mem (wk t) = mem_write (vh_mem (wk s)) dst bs \<and> os (wk t) = w
     \<and> (rv = 0 \<longrightarrow> ready (wk t)) \<and> (rv \<noteq> 0 \<longrightarrow> ctx_state (tc (wk t)) = VEO_STATE_EXIT)"
proof -
  let ?f = "ReadMem dst src n" and ?i = "next_id (wk s)"
  let ?st = "if rv = 0 then VEO_COMMAND_OK else VEO_COMMAND_ERROR"
  let ?u = "(requested (wk s))\<lparr>os := w, vh_mem := mem_write (vh_mem (wk s)) dst bs\<rparr>"
  let ?c = "setResult (new_Command ?i ?f) (word_of_int rv) ?st"
  let ?w = "set_completed (completed (wk s)) (complete_command rv ?c ?u)"
  have run: "run_command (veos_env P) ?f (new_Command ?i ?f) (requested (wk s)) = Some (Inr (rv, ?c), ?u)"
    using assms(2)
    by (simp add: run_transfer_def readMem_def os_call_def requested_def forget_def issued_def)
  have "proc_readMem P dst src n s = on_worker (bindP (submit ?f)
      (\<lambda>i. bindP (callWaitResult (veos_env P) i) transfer_value)) s"
    using idleD(1) [OF assms(1)] by (simp add: proc_readMem_def on_worker_def asyncReadMem_def bindP_def)
  also have "\<dots> = Some (if rv = 0 then Inr 0 else Inl Abort, s\<lparr>wk := ?w\<rparr>)"
    using submit_and_wait [OF assms(1) run, of transfer_value]
    by (simp add: on_worker_def transfer_value_def command_state_defs)
  finally have "proc_readMem P dst src n s = Some (if rv = 0 then Inr 0 else Inl Abort, s\<lparr>wk := ?w\<rparr>)" .
  moreover have "rv = 0 \<Longrightarrow> ready ?w"
    using idleD [OF assms(1)]
    by (simp add: ready_def complete_command_def set_completed_def set_comq_def Let_def pending_def
        requested_def forget_def issued_def)
  ultimately show ?thesis
    by (intro exI [of _ "s\<lparr>wk := ?w\<rparr>"])
      (simp add: set_completed_def complete_command_def set_comq_def Let_def requested_def forget_def issued_def)
qed

end
