(* ===== verification/Api_Properties.thy ===== *)
theory Api_Properties
  imports Api Process
begin

text \<open>
  Properties of the C API: the choice of the VE node from the environment, and how failures
  of the layers below reach the caller.
\<close>

section \<open>Lists of nodes\<close>

definition node_list :: "nat list \<Rightarrow> string" where
  "node_list ns = join_spaces (map print_nat ns)"

lemma split_node_list: "split_spaces (node_list ns) = map print_nat ns"
  unfolding node_list_def
proof (rule split_join, safe)
  fix t
  assume "t \<in> set (map print_nat ns)" "CHR '' '' \<in> set t"
  moreover from this(1) have "list_all is_digit t" using print_nat_digits by auto
  ultimately show False using is_digit_not by (auto simp: list_all_iff)
qed (metis ex_map_conv print_nat_nonempty)

lemma find_node_print:
  "\<forall>n \<in> set ns. int n \<le> INT_MAX \<Longrightarrow> find_node (int k) (map print_nat ns) = Inr (k \<in> set ns)"
  by (induction ns) (auto simp: stoi_print_nat)

text \<open>
  C31: the choice of the VE node under a job scheduler.  With \<^verbatim>\<open>_VENODELIST\<close> set to the numbers
  \<open>ns\<close>, a logical node number is translated to the node at its position, or refused beyond the
  end of the list; without a node number the first node of the list is taken, unless
  \<^verbatim>\<open>VE_NODE_NUMBER\<close> is set, which has to be in the list.
\<close>

theorem select_node_from_list:
  assumes "ns \<noteq> []" and "\<forall>n \<in> set ns. int n \<le> INT_MAX" and "int k \<le> INT_MAX" and "0 \<le> venode"
  shows "select_node (Some (node_list ns)) num venode =
       Inr (if nat venode < length ns then Some (int (ns ! nat venode)) else None)
     \<and> select_node (Some (node_list ns)) None (- 1) = Inr (Some (int (hd ns)))
     \<and> select_node (Some (node_list ns)) (Some (print_nat k)) (- 1) =
         Inr (if k \<in> set ns then Some (int k) else None)"
proof -
  have "stoi (print_nat (ns ! i)) = Inr (int (ns ! i))" if "i < length ns" for i
    using assms(2) that by (simp add: stoi_print_nat)
  moreover have "stoi (print_nat k) = Inr (int k)" by (rule stoi_print_nat [OF assms(3)])
  ultimately show ?thesis
    using assms(1,4) find_node_print [OF assms(2), of k]
    by (auto simp: select_node_def split_node_list Let_def hd_conv_nth nat_less_iff)
qed

text \<open>
  Numbers in the environment are read back as they were written: \<^verbatim>\<open>std::stoi\<close> of the decimal
  form of an integer, whatever non-digit follows it, gives that integer if it fits an \<^verbatim>\<open>int\<close>
  and otherwise raises \<^verbatim>\<open>std::out_of_range\<close>; so with \<^verbatim>\<open>VE_NODE_NUMBER\<close> and no list every \<^verbatim>\<open>int\<close> is
  taken as a node number, negative ones too.
\<close>

theorem node_number_from_environment:
  assumes "rest = [] \<or> \<not> is_digit (hd rest)"
  shows "select_node None (Some (print_int i @ rest)) (- 1) =
     (if in_int_range i then Inr (Some i) else Inl (StdException ''out_of_range''))"
  using stoi_print_tail [OF assms, of i] by (simp add: select_node_def)

section \<open>Failures seen by the caller\<close>

text \<open>
  When the VE thread of a new context cannot be created, the negative error number that
  the request carries in place of a context reaches the caller as a null handle and errno.
\<close>

theorem context_open_failure:
  assumes "openContext P (ps s) = Some (Inr (word_of_int tid), t)" and "- (2 ^ 31) < tid" and "tid < 0"
  shows "veo_context_open P s = Some (Inr 0, s\<lparr>ps := t, c_errno := - tid\<rparr>)"
proof -
  have "sint (word_of_int tid :: u64) = tid"
    using assms(2,3) by (simp add: signed_of_int signed_take_bit_int_eq_self)
  moreover have "sint (word_of_int (- tid) :: u32) = - tid"
    using assms(2,3) by (simp add: signed_of_int signed_take_bit_int_eq_self del: of_int_minus)
  ultimately show ?thesis
    using assms(1,3)
    by (simp add: veo_context_open_def or_errno_def catchP_def on_proc_def context_handle_def
        set_errno_def bindP_def Let_def)
qed

section \<open>Arguments\<close>

text \<open>Argument \<open>n\<close> of the object \<open>ca\<close> is passed as a register value with the property \<open>P\<close>.\<close>

definition holds_value :: "'os astate \<Rightarrow> nat \<Rightarrow> int \<Rightarrow> (u64 \<Rightarrow> bool) \<Rightarrow> bool" where
  "holds_value s ca n P \<longleftrightarrow>
     (case args_heap (wk (ps s)) ca of
        None \<Rightarrow> False
      | Some a \<Rightarrow> nat n < length (arguments a)
          \<and> (\<exists>b w. arguments a ! nat n = Some b \<and> arg_getRegVal b = Inr w \<and> P w))"

definition sets_value :: "('os astate, int) prog \<Rightarrow> 'os astate \<Rightarrow> nat \<Rightarrow> int \<Rightarrow> (u64 \<Rightarrow> bool) \<Rightarrow> bool" where
  "sets_value p s ca n P \<longleftrightarrow> (\<exists>t. p s = Some (Inr 0, t) \<and> holds_value t ca n P)"

lemma veo_args_set_holds:
  assumes "args_heap (wk (ps s)) ca = Some a" and "0 \<le> n" and "n < INT_MAX"
    and "arg_getRegVal b = Inr w" and "P w"
  shows "sets_value (veo_args_set ca n b) s ca n P"
proof -
  let ?xs = "arguments a @ replicate (nat n + 1 - length (arguments a)) None"
  let ?a = "a\<lparr>arguments := (if length (arguments a) < Suc (nat n) then ?xs else arguments a)[nat n := Some b]\<rparr>"
  let ?t = "s\<lparr>ps := (ps s)\<lparr>wk := (wk (ps s))\<lparr>args_heap := (args_heap (wk (ps s)))(ca \<mapsto> ?a)\<rparr>\<rparr>\<rparr>"
  have "on_args ca (\<lambda>a. set_arg a n b) s = Some (Inr (), ?t)"
    using assms(1-3) by (simp add: on_args_def set_arg_def store_arg_def Let_def)
  then have "veo_args_set ca n b s = Some (Inr 0, ?t)"
    by (simp add: veo_args_set_def or_code_def catchP_def)
  then show ?thesis using assms(2,4,5) by (simp add: sets_value_def holds_value_def)
qed


section \<open>Calls through context handles\<close>

lemma on_context_Some:
  assumes "ctx_heap (wk (ps s)) ctx = Some c" and "p ((wk (ps s))\<lparr>tc := c\<rparr>) = Some (r, t)"
  shows "on_context ctx p s = Some (r, s\<lparr>ps := (ps s)\<lparr>wk :=
     t\<lparr>tc := tc (wk (ps s)), ctx_heap := (ctx_heap t)(ctx \<mapsto> tc t)\<rparr>\<rparr>\<rparr>)"
  using assms by (simp add: on_context_def)

lemma or_code_Some: "p s = Some (Inr x, t) \<Longrightarrow> or_code p code s = Some (Inr x, t)"
  by (simp add: or_code_def catchP_def)

text \<open>The state of the context \<open>ctx\<close> with a call queued for it, as the current context.\<close>

definition called :: "'os astate \<Rightarrow> u64 \<Rightarrow> ctx \<Rightarrow> closure \<Rightarrow> 'os tstate" where
  "called s ctx c f =
     (let x = (wk (ps s))\<lparr>tc := c\<rparr>
      in x\<lparr>ctx_heap := (ctx_heap x)(ctx \<mapsto> tc (set_pending [new_Command (next_id x) f] (issued x)))\<rparr>)"

lemma call_and_wait:
  assumes "ctx_heap (wk (ps s)) ctx = Some c" and "idle ((wk (ps s))\<lparr>tc := c\<rparr>)" and "addr \<noteq> 0"
    and "i = next_id ((wk (ps s))\<lparr>tc := c\<rparr>)" and "cmd = new_Command i (CallFunction addr args)"
    and "run_call E addr args cmd (requested (called s ctx c (CallFunction addr args)))
         = Some (Inr (rv, setResult cmd v st), u)"
  shows "\<exists>s1 t. veo_call_async ctx addr args s = Some (Inr i, s1) \<and> i \<noteq> VEO_REQUEST_ID_INVALID
     \<and> veo_call_wait_result E ctx i s1 = Some (Inr (st, Some v), t)
     \<and> tc (wk (ps t)) = tc (wk (ps s)) \<and> ctx_heap (wk (ps t)) ctx \<noteq> None
     \<and> (\<forall>d. d \<noteq> ctx \<longrightarrow> ctx_heap (wk (ps t)) d = ctx_heap (wk (ps s)) d)
     \<and> vh_mem (wk (ps t)) = vh_mem u \<and> os (wk (ps t)) = os u"
proof -
  let ?f = "CallFunction addr args" and ?x = "(wk (ps s))\<lparr>tc := c\<rparr>"
  let ?y = "called s ctx c ?f"
  let ?t1 = "set_pending [cmd] (issued ?x)"
  let ?s1 = "s\<lparr>ps := (ps s)\<lparr>wk := ?t1\<lparr>tc := tc (wk (ps s)), ctx_heap := (ctx_heap ?t1)(ctx \<mapsto> tc ?t1)\<rparr>\<rparr>\<rparr>"
  let ?w = "set_completed (completed ?y) (complete_command rv (setResult cmd v st) u)"
  have y: "idle ?y" "next_id ?y = i" "set_pending [cmd] (issued ?y) = ?t1\<lparr>ctx_heap := (ctx_heap ?t1)(ctx \<mapsto> tc ?t1)\<rparr>"
    using assms(2,4,5)
    by (simp_all add: called_def idle_def ready_def next_id_def pending_def completed_def Let_def
        set_pending_def set_comq_def issued_def)
  have "callAsync addr args ?x = Some (Inr i, ?t1)"
    using assms(3-5) idleD [OF assms(2)] by (simp add: callAsync_def submitted_state next_id_def)
  then have async: "veo_call_async ctx addr args s = Some (Inr i, ?s1)"
    unfolding veo_call_async_def by (intro or_code_Some on_context_Some [OF assms(1)])
  have "callWaitResult E i (set_pending [cmd] (issued ?y)) = Some (Inr (st, Some v), ?w)"
    using wait_after_submit [of ?y E ?f rv cmd v st u] assms(5,6) idleD [OF y(1)] y(2)
    by (simp add: next_id_def requested_def)
  let ?t = "?s1\<lparr>ps := (ps ?s1)\<lparr>wk := ?w\<lparr>tc := tc (wk (ps ?s1)), ctx_heap := (ctx_heap ?w)(ctx \<mapsto> tc ?w)\<rparr>\<rparr>\<rparr>"
  from \<open>callWaitResult E i _ = _\<close> have wait: "veo_call_wait_result E ctx i ?s1 = Some (Inr (st, Some v), ?t)"
    unfolding veo_call_wait_result_def y(3) by (intro or_code_Some on_context_Some [where c = "tc ?t1"]) simp_all
  have valid: "i \<noteq> VEO_REQUEST_ID_INVALID" using assms(4) fetch_id_valid by (simp add: next_id_def)
  have "ctx_heap u d = ctx_heap (wk (ps s)) d" if "d \<noteq> ctx" for d
    using run_call_ctx_heap [OF assms(6)] that by (simp add: requested_def forget_def issued_def called_def Let_def)
  then have others: "\<forall>d. d \<noteq> ctx \<longrightarrow> ctx_heap u d = ctx_heap (wk (ps s)) d" by blast
  have fields: "ctx_heap ?w = ctx_heap u" "vh_mem ?w = vh_mem u" "os ?w = os u"
    by (simp_all add: set_completed_def complete_command_def set_comq_def Let_def)
  show ?thesis
    by (intro exI [of _ ?s1] exI [of _ ?t] conjI, rule async, rule valid, rule wait) (simp_all add: fields others)
qed

text \<open>
  A call through the C API.  On an idle context \<^verbatim>\<open>veo_call_async\<close> gives a valid request ID;
  \<^verbatim>\<open>veo_call_wait_result\<close> with that ID gives the status and the value that the handler of the call
  recorded.  The context stays where its handle points to, and neither the worker nor any other
  context is touched.
\<close>

theorem api_call_roundtrip:
  assumes "ctx_heap (wk (ps s)) ctx = Some c" and "idle ((wk (ps s))\<lparr>tc := c\<rparr>)" and "addr \<noteq> 0"
    and "i = next_id ((wk (ps s))\<lparr>tc := c\<rparr>)" and "cmd = new_Command i (CallFunction addr args)"
    and "run_call E addr args cmd (requested (called s ctx c (CallFunction addr args)))
         = Some (Inr (rv, setResult cmd v st), u)"
  shows "\<exists>s1 t. veo_call_async ctx addr args s = Some (Inr i, s1) \<and> i \<noteq> VEO_REQUEST_ID_INVALID
     \<and> veo_call_wait_result E ctx i s1 = Some (Inr (st, Some v), t)
     \<and> tc (wk (ps t)) = tc (wk (ps s)) \<and> ctx_heap (wk (ps t)) ctx \<noteq> None
     \<and> (\<forall>d. d \<noteq> ctx \<longrightarrow> ctx_heap (wk (ps t)) d = ctx_heap (wk (ps s)) d)
     \<and> vh_mem (wk (ps t)) = vh_mem u \<and> os (wk (ps t)) = os u"
  by (rule call_and_wait [OF assms])

end
