(* ===== verification/Process_Examples.thy ===== *)
theory Process_Examples
  imports Request_Examples Api_Properties
begin

text \<open>
  The properties of processes and of the C API on concrete inputs: a process whose worker is
  an idle context of the example machine.
\<close>

section \<open>A process\<close>

definition ex_funcs :: helper_functions where
  "ex_funcs = \<lparr>funcs_version = 2, load_library = 0x1100, alloc_buff = 0x1200, free_buff = 0x1300,
     find_sym = 0x1400, create_thread = 0x1500, call_func = 0x1600, exit_func = 0x1700,
     create_thread_with_attr = 0, load_library_err = 0\<rparr>"

definition ex_proc_env :: "machine proc_env" where
  "ex_proc_env = \<lparr>veos_env = machine_veos, VEORUN_VERSION2 = 2, VEORUN_VERSION3 = 3, VEORUN_VERSION4 = 4,
     thread_attr_image = (\<lambda>cpu sz. []), tid_counter = (\<lambda>w. 1), veos_handle_free = (\<lambda>h w. w),
     err_msg_caller = 0x9000, err_msg_callee = 0x9400, attr_local = 0x9800\<rparr>"

definition ex_proc :: "machine tstate \<Rightarrow> machine pstate" where
  "ex_proc t = \<lparr>ph = \<lparr>sym_name = Map.empty, main_thread = idle_ctx, funcs = ex_funcs,
                      num_child_threads = 1, ve_number = 0\<rparr>,
     wk = t, local_ref = 5, raw_object = raw_args\<rparr>"

lemma ex_proc_sel [simp]:
  "veos_env ex_proc_env = machine_veos" "tid_counter ex_proc_env w = 1"
  "wk (ex_proc t) = t" "local_ref (ex_proc t) = 5" "raw_object (ex_proc t) = raw_args"
  "funcs (ph (ex_proc t)) = ex_funcs" "sym_name (ph (ex_proc t)) = Map.empty"
  "main_thread (ph (ex_proc t)) = idle_ctx" "num_child_threads (ph (ex_proc t)) = 1"
  by (simp_all add: ex_proc_def ex_proc_env_def)

lemma ex_funcs_sel [simp]:
  "alloc_buff ex_funcs = 0x1200" "find_sym ex_funcs = 0x1400" "create_thread ex_funcs = 0x1500"
  "exit_func ex_funcs = 0x1700"
  by (simp_all add: ex_funcs_def)

lemma ex_idle:
  assumes "tc t = idle_ctx"
  shows "idle t" "next_id t = 0"
  using assms
  by (simp_all add: idle_def ready_def next_id_def new_CommQueue_def new_BlockingQueue_def
      pending_def completed_def)

lemma requested_sel [simp]:
  "os (requested s) = os s" "args_heap (requested s) = args_heap s" "vh_mem (requested s) = vh_mem s"
  by (simp_all add: requested_def forget_def issued_def)

lemma enter_args_heap [simp]: "args_heap (wk (enter_args ca s)) (local_ref s) = Some ca"
  by (simp add: enter_args_def)

lemmas image_size_defs = image_size_def data_size_def slot_off_def PARAM_AREA_OFFSET_def INT_MAX_def

text \<open>A call on the worker of the example process.\<close>

lemma ex_proc_call:
  assumes "arguments ca = map Some as" "int (image_size as) \<le> INT_MAX" "\<not> list_ex flag_out as"
    and "os t = blocking_machine\<lparr>m_events := [(0, 0, 0x1000)]\<rparr>"
  shows "\<exists>u. run_call machine_veos f 5 c (requested (wk (enter_args ca (ex_proc t))))
     = Some (Inr (0, setResult c 42 VEO_COMMAND_OK), u) \<and> vh_mem u = vh_mem t"
proof -
  have "args_heap (requested (wk (enter_args ca (ex_proc t)))) 5 = Some ca"
    using enter_args_heap [of ca "ex_proc t"] by simp
  from machine_run_call [OF this assms(1-3), of "[]"] show ?thesis
    using assms(4) by (auto simp: blocking_machine_def)
qed

theorem allocBuff_returns_ve_value_witness:
  "\<exists>t. allocBuff ex_proc_env 4096 (ex_proc (ex_events [(0, 0, 0x1000)])) = Some (Inr 42, t) \<and> ready (wk t)"
proof -
  let ?t = "ex_events [(0, 0, 0x1000)]"
  let ?c = "new_Command 0 (CallFunction 0x1200 5)" and ?ca = "new_CallArgs_list raw_args [4096]"
  have "arguments ?ca = map Some [ArgI64 4096]"
    by (simp add: new_CallArgs_list_def push_arg_def new_CallArgs_def)
  then obtain u where "run_call machine_veos 0x1200 5 ?c (requested (wk (enter_args ?ca (ex_proc ?t))))
      = Some (Inr (0, setResult ?c 42 VEO_COMMAND_OK), u)"
    using ex_proc_call [of ?ca "[ArgI64 4096]" ?t] by (auto simp: image_size_defs)
  with allocBuff_returns_ve_value [of "ex_proc ?t" _ 4096 ?c ex_proc_env 0 42 VEO_COMMAND_OK u]
  show ?thesis by (simp add: ex_idle command_state_defs)
qed

theorem readMem_result_witness:
  "\<exists>t. proc_readMem ex_proc_env 0x100 0x600000 8 (ex_proc (ex_events [])) = Some (Inr 0, t) \<and> ready (wk t)"
  using readMem_result [where s = "ex_proc (ex_events [])" and P = ex_proc_env and src = "0x600000" and n = 8
      and dst = "0x100"]
  by (auto simp: ex_idle)

theorem dead_worker_operations_witness:
  "allocBuff ex_proc_env 4096 (ex_proc ((ex_events [])\<lparr>tc := idle_ctx\<lparr>ctx_state := VEO_STATE_EXIT\<rparr>\<rparr>))
     = Some (Inl (VEOException ''request failed'' 38),
             ex_proc ((ex_events [])\<lparr>tc := idle_ctx\<lparr>ctx_state := VEO_STATE_EXIT\<rparr>\<rparr>))"
  using dead_worker_operations [of "ex_proc ((ex_events [])\<lparr>tc := idle_ctx\<lparr>ctx_state := VEO_STATE_EXIT\<rparr>\<rparr>)"
      ex_proc_env 4096]
  by simp

theorem exitProc_hangs_after_failure_witness:
  "\<exists>t. ctx_state (tc t) = VEO_STATE_EXIT \<and> exitProc ex_proc_env (ex_proc t) = None"
proof -
  let ?q = "new_CommQueue\<lparr>request := \<lparr>bq_queue = [], bq_state = VEO_QUEUE_CLOSED\<rparr>\<rparr>"
  let ?t = "(ex_events [])\<lparr>tc := idle_ctx\<lparr>ctx_state := VEO_STATE_EXIT, comq := ?q\<rparr>\<rparr>"
  have "exitProc ex_proc_env (ex_proc ?t) = None"
    by (rule exitProc_hangs_after_failure) (simp_all add: state_simps)
  then show ?thesis by (intro exI [of _ ?t]) simp
qed

section \<open>Names\<close>

text \<open>A memory with a string of \<open>n\<close> letters at an address.\<close>

definition ex_name :: "u64 \<Rightarrow> nat \<Rightarrow> memory" where
  "ex_name p n a = (if unat (a - p) < n then 0x66 else 0)"

lemma strlen_from_ex_name:
  assumes "n < 2 ^ 64" and "k \<le> n"
  shows "strlen_from (ex_name p n) p k = Some n"
  using assms(2)
proof (induction "n - k" arbitrary: k)
  case 0
  then show ?case using assms(1) by (subst strlen_from.simps) (simp add: ex_name_def unat_of_nat)
next
  case (Suc d)
  then have "k < n" by simp
  then have "ex_name p n (p + of_nat k) = 0x66" using assms(1) by (simp add: ex_name_def unat_of_nat)
  moreover have "strlen_from (ex_name p n) p (Suc k) = Some n" using Suc by simp
  ultimately show ?case by (subst strlen_from.simps) simp
qed

lemma c_string_ex_name:
  "n < 2 ^ 64 \<Longrightarrow> c_string (ex_name p n) p = Some (mem_read (ex_name p n) p n)"
  by (simp add: c_string_def strlen_from_ex_name)

theorem long_names_refused_witness:
  "loadLibrary ex_proc_env 0x4000 (ex_proc ((ex_events [])\<lparr>vh_mem := ex_name 0x4000 300\<rparr>))
     = Some (Inl (VEOException ''Too long name'' 36), ex_proc ((ex_events [])\<lparr>vh_mem := ex_name 0x4000 300\<rparr>))"
  using long_names_refused [where s = "ex_proc ((ex_events [])\<lparr>vh_mem := ex_name 0x4000 300\<rparr>)" and p = "0x4000"
      and P = ex_proc_env and name = "mem_read (ex_name 0x4000 300) 0x4000 300"]
  by (simp add: c_string_ex_name mem_read_def)

abbreviation ex_sym_proc :: "machine pstate" where
  "ex_sym_proc \<equiv> ex_proc ((ex_events [(0, 0, 0x1000)])\<lparr>vh_mem := ex_name 0x4000 3\<rparr>)"

lemma ex_sym_name:
  "c_string (vh_mem (wk ex_sym_proc)) 0x4000 = Some (mem_read (ex_name 0x4000 3) 0x4000 3)"
  "length (mem_read (ex_name 0x4000 3) 0x4000 3) \<le> VEO_SYMNAME_LEN_MAX"
  "length (mem_read (ex_name 0x4000 3) 0x4000 3) = 3"
  by (simp_all add: c_string_ex_name mem_read_def VEO_SYMNAME_LEN_MAX_def)

lemma ex_getSym:
  "\<exists>t. getSym ex_proc_env 7 0x4000 ex_sym_proc = Some (Inr 42, t) \<and> vh_mem (wk t) = ex_name 0x4000 3"
proof -
  let ?t = "(ex_events [(0, 0, 0x1000)])\<lparr>vh_mem := ex_name 0x4000 3\<rparr>"
  let ?s = "ex_proc ?t" and ?name = "mem_read (ex_name 0x4000 3) 0x4000 3"
  let ?ca = "sym_args raw_args 7 0x4000 3" and ?c = "new_Command 0 (CallFunction 0x1400 5)"
  note str = ex_sym_name
  have "arguments ?ca = map Some [ArgU64 7, ArgOnStack 0x4000 4 True False None]" by (simp add: sym_args_def)
  then obtain u where u: "run_call machine_veos 0x1400 5 ?c (requested (wk (enter_args ?ca ?s)))
      = Some (Inr (0, setResult ?c 42 VEO_COMMAND_OK), u)" "vh_mem u = ex_name 0x4000 3"
    using ex_proc_call [of ?ca "[ArgU64 7, ArgOnStack 0x4000 4 True False None]" ?t] by (auto simp: image_size_defs)
  have id: "idle (wk (enter_args ?ca ?s))" "next_id (wk (enter_args ?ca ?s)) = 0"
    by (simp_all add: ex_idle)
  from doOnContext_idle [OF id(1), where f = "0x1400" and E = machine_veos and ref = 5 and rv = 0
      and c' = "setResult ?c 42 VEO_COMMAND_OK" and u = u]
  obtain w where w: "doOnContext machine_veos 0x1400 5 (wk (enter_args ?ca ?s)) = Some (Inr 42, w)"
      "vh_mem w = ex_name 0x4000 3"
    using u id(2) by (auto simp: state_simps)
  show ?thesis
    using getSym_eq [OF str(1,2), of ex_proc_env 7] w str(3)
    by (simp add: sym_lookup_def on_worker_def sym_store_def leave_args_def)
qed

theorem getSym_cached_witness:
  "\<exists>t. getSym ex_proc_env 7 0x4000 ex_sym_proc = Some (Inr 42, t)
     \<and> getSym ex_proc_env 7 0x4000 t = Some (Inr 42, t)"
proof -
  obtain t where t: "getSym ex_proc_env 7 0x4000 ex_sym_proc = Some (Inr 42, t)" "vh_mem (wk t) = ex_name 0x4000 3"
    using ex_getSym by blast
  then have "getSym ex_proc_env 7 0x4000 t = Some (Inr 42, t)"
    using getSym_cached [OF t(1) _ ex_sym_name(1,2)] ex_sym_name(1) by simp
  with t show ?thesis by blast
qed

section \<open>The C API\<close>

theorem select_node_from_list_witness:
  "select_node (Some ''3 5'') None 1 = Inr (Some 5)"
proof -
  have "node_list [3, 5] = ''3 5''" by (simp add: node_list_def print_nat.simps char_of_def bit_Suc_0_iff)
  then show ?thesis
    using select_node_from_list [of "[3, 5]" 0 1 None] by (simp add: INT_MAX_def)
qed

theorem node_number_from_environment_witness:
  "select_node None (Some ''-5 '') (- 1) = Inr (Some (- 5))"
proof -
  have "print_int (- 5) @ '' '' = ''-5 ''" by (simp add: print_int_def print_nat.simps char_of_def bit_Suc_0_iff)
  then show ?thesis
    using node_number_from_environment [of "'' ''" "- 5"]
    by (simp add: is_digit_def in_int_range_def INT_MIN_def INT_MAX_def)
qed

text \<open>A context that cannot be opened because no VE thread can be created.\<close>

definition ex_no_thread :: "machine tstate" where
  "ex_no_thread = (ex_events [])\<lparr>os := blocking_machine\<lparr>m_events := [(0, 0, 0x1000), (0, 0, 0x1000)], m_clone := - 12\<rparr>\<rparr>"

lemma ex_no_thread_sel [simp]:
  "tc ex_no_thread = idle_ctx"
  "os ex_no_thread = blocking_machine\<lparr>m_events := [(0, 0, 0x1000), (0, 0, 0x1000)], m_clone := - 12\<rparr>"
  by (simp_all add: ex_no_thread_def)

definition ex_api :: "machine tstate \<Rightarrow> machine astate" where
  "ex_api t = \<lparr>ps = ex_proc t, c_errno = 0, attrs = Map.empty\<rparr>"

lemma ex_api_sel [simp]: "ps (ex_api t) = ex_proc t" "c_errno (ex_api t) = 0"
  by (simp_all add: ex_api_def)

theorem context_open_failure_witness:
  "\<exists>t. veo_context_open ex_proc_env (ex_api ex_no_thread) = Some (Inr 0, t) \<and> c_errno t = 12"
proof -
  let ?s = "ex_proc ex_no_thread" and ?c = "new_Command 0 (OpenContext 0x1500 5)"
  let ?ca = "(new_CallArgs raw_args)\<lparr>arguments := [Some (ArgI32 (- 1))]\<rparr>"
  have args: "args_heap (requested (wk (enter_args ?ca ?s))) 5 = Some ?ca"
    using enter_args_heap [of ?ca ?s] by simp
  obtain u where u: "run_command machine_veos (OpenContext 0x1500 5) ?c (requested (wk (enter_args ?ca ?s)))
      = Some (Inr (0, setResult ?c (- 12) VEO_COMMAND_OK), u)"
    using machine_run_open [OF args, of "[ArgI32 (- 1)]" "0x1500" ?c]
    by (auto simp: image_size_defs blocking_machine_def)
  have id: "idle (wk (enter_args ?ca ?s))" "next_id (wk (enter_args ?ca ?s)) = 0" by (simp_all add: ex_idle)
  have "callOpenContext 0x1500 5 (wk (enter_args ?ca ?s)) = submit (OpenContext 0x1500 5) (wk (enter_args ?ca ?s))"
    by (simp add: callOpenContext_def)
  then have "\<exists>w. bindP (callOpenContext 0x1500 5) (\<lambda>i. bindP (callWaitResult machine_veos i) request_value)
      (wk (enter_args ?ca ?s)) = Some (Inr (- 12), w)"
    using submit_and_wait [OF id(1), of machine_veos "OpenContext 0x1500 5" 0 ?c "- 12" VEO_COMMAND_OK u request_value] u
    by (simp add: bindP_def [of "callOpenContext _ _"] bindP_def [of "submit _"] id(2)) (simp add: request_value_def)
  then have "\<exists>t. openContext ex_proc_env ?s = Some (Inr (word_of_int (- 12)), t)"
    by (auto simp: openContext_def choose_cpu_def set_arg_def store_arg_def new_CallArgs_def INT_MAX_def
        with_args_eq on_worker_def)
  then obtain t where "openContext ex_proc_env (ps (ex_api ex_no_thread)) = Some (Inr (word_of_int (- 12)), t)"
    by auto
  from context_open_failure [OF this] show ?thesis by simp
qed


theorem api_call_roundtrip_witness:
  "\<exists>s1 t. veo_call_async 0x5000 0x600000 0 (ex_api ((ex_events [(0, 0, 0x1000)])\<lparr>ctx_heap := [0x5000 \<mapsto> idle_ctx]\<rparr>))
       = Some (Inr 0, s1)
     \<and> veo_call_wait_result machine_veos 0x5000 0 s1 = Some (Inr (VEO_COMMAND_OK, Some 42), t)"
proof -
  let ?t = "(ex_events [(0, 0, 0x1000)])\<lparr>ctx_heap := [0x5000 \<mapsto> idle_ctx]\<rparr>"
  let ?s = "ex_api ?t" and ?c = "new_Command 0 (CallFunction 0x600000 0)"
  have id: "idle ((wk (ps ?s))\<lparr>tc := idle_ctx\<rparr>)" "next_id ((wk (ps ?s))\<lparr>tc := idle_ctx\<rparr>) = 0"
    by (simp_all add: ex_idle)
  let ?x = "requested (called ?s 0x5000 idle_ctx (CallFunction 0x600000 0))"
  have "os ?x = blocking_machine\<lparr>m_events := [(0, 0, 0x1000)]\<rparr>" "args_heap ?x 0 = Some raw_args"
    by (simp_all add: called_def Let_def)
  then obtain u where "run_call machine_veos 0x600000 0 ?c ?x = Some (Inr (0, setResult ?c 42 VEO_COMMAND_OK), u)"
    using machine_run_call [of ?x 0 raw_args "[]" "[]" "0x600000" ?c] raw_args_facts
    by (auto simp: blocking_machine_def)
  from api_call_roundtrip [OF _ id(1) _ id(2) [symmetric] refl this] show ?thesis by auto
qed

end
