(* ===== verification/Spawn.thy ===== *)
theory Spawn
  imports ProcHandle
begin

text \<open>
  The creation of a VE process by \<^verbatim>\<open>spawn_helper\<close> and its helpers (\<^verbatim>\<open>src/libveo/ProcHandle.cpp\<close>):
  the shared memory file for system call arguments, the requests to the VE OS, the loading of
  the VE program, and the array of environment variables and auxiliary vectors that goes on
  the stack of the VE process.  Logging is left out.
\<close>

section \<open>The environment\<close>

text \<open>
  \<^verbatim>\<open>struct new_ve_proc\<close> of libvepseudo, as far as the program fills it in; pointers to strings are
  the strings.
\<close>

record new_ve_proc =
  namespace_pid :: int
  shm_lhm_addr :: u64
  nv_core_id :: int
  nv_node_id :: int
  traced_proc :: int
  tracer_pid :: int
  exec_path :: string
  nv_numa_node :: int
  exe_name :: string
  sfile_name :: string

text \<open>
  The calls of libvepseudo, libved and the C library, on the state \<open>'os\<close> of the environment.
  A socket is named by the VE OS handle it belongs to.  \<open>mkstemp\<close> gives the descriptor and the
  name it chose; \<open>mmap_ptrace\<close> is the mapping at \<^verbatim>\<open>PTRACE_PRIVATE_DATA\<close>, \<open>mmap_shared\<close> that of the
  file (\<open>- 1\<close> is \<^verbatim>\<open>MAP_FAILED\<close>); \<open>set_main_tid\<close> fills in the first entry of \<^verbatim>\<open>global_tid_info\<close> and sets
  \<^verbatim>\<open>tid_counter\<close> to zero; \<^verbatim>\<open>struct ve_start_ve_req_cmd\<close> is passed on as its bytes; \<open>environ\<close> is the
  array of pointers without the NULL at its end.  \<open>decode_funcs\<close> reads the members of
  \<^verbatim>\<open>struct veo__helper_functions_ver4\<close> from its bytes, \<open>sizeof_ver2\<close> to \<open>sizeof_ver4\<close> are the sizes of
  its versions, and \<open>raw_funcs\<close> is what the storage of the member \<^verbatim>\<open>funcs\<close> happens to hold.
\<close>

record 'os spawn_env =
  penv :: "'os proc_env"
  sizeof_ver2 :: nat
  sizeof_ver3 :: nat
  sizeof_ver4 :: nat
  decode_funcs :: "bytes \<Rightarrow> helper_functions"
  raw_funcs :: bytes
  veos_handle_create :: "string \<Rightarrow> string \<Rightarrow> 'os \<Rightarrow> nat option \<times> 'os"
  veos_sock_name :: "nat \<Rightarrow> 'os \<Rightarrow> string"
  PTRACE_PRIVATE_DATA :: u64
  ACCT_COMM :: nat
  S_FILE_LEN :: nat
  AT_QUICKCALL_VADDR :: nat
  environ :: "u64 list"
  getauxval :: "nat \<Rightarrow> u64"
  mmap_ptrace :: "'os \<Rightarrow> u64 \<times> 'os"
  munmap :: "u64 \<Rightarrow> 'os \<Rightarrow> 'os"
  set_main_tid :: "nat \<Rightarrow> 'os \<Rightarrow> 'os"
  rwlockattr_init :: "'os \<Rightarrow> int \<times> 'os"
  rwlockattr_setkind :: "'os \<Rightarrow> int \<times> 'os"
  rwlock_init :: "'os \<Rightarrow> int \<times> 'os"
  rwlockattr_destroy :: "'os \<Rightarrow> int \<times> 'os"
  mkstemp :: "string \<Rightarrow> 'os \<Rightarrow> (int \<times> string) \<times> 'os"
  ftruncate :: "int \<Rightarrow> nat \<Rightarrow> 'os \<Rightarrow> int \<times> 'os"
  mmap_shared :: "int \<Rightarrow> nat \<Rightarrow> 'os \<Rightarrow> u64 \<times> 'os"
  vedl_set_shm_lhm_addr :: "nat \<Rightarrow> u64 \<Rightarrow> 'os \<Rightarrow> 'os"
  vedl_get_shm_lhm_addr :: "nat \<Rightarrow> 'os \<Rightarrow> u64"
  close_fd :: "int \<Rightarrow> 'os \<Rightarrow> 'os"
  unlink :: "string \<Rightarrow> 'os \<Rightarrow> 'os"
  gettid :: "'os \<Rightarrow> int"
  getppid :: "'os \<Rightarrow> int"
  psm_send_new_ve_process :: "nat \<Rightarrow> new_ve_proc \<Rightarrow> 'os \<Rightarrow> int \<times> 'os"
  psm_recv_load_binary_req :: "nat \<Rightarrow> 'os \<Rightarrow> int \<times> 'os"
  vedl_set_syscall_area_offset :: "nat \<Rightarrow> 'os \<Rightarrow> 'os"
  init_vemva_header :: "'os \<Rightarrow> int \<times> 'os"
  pse_load_binary :: "string \<Rightarrow> nat \<Rightarrow> 'os \<Rightarrow> (int \<times> bytes) \<times> 'os"
  init_stack :: "nat \<Rightarrow> string list \<Rightarrow> u64 list \<Rightarrow> bytes \<Rightarrow> 'os \<Rightarrow> (int \<times> bytes) \<times> 'os"
  set_ve_info :: "'os \<Rightarrow> bytes \<Rightarrow> bytes"
  psm_send_start_ve_proc_req :: "bytes \<Rightarrow> nat \<Rightarrow> 'os \<Rightarrow> int \<times> 'os"
  psm_recv_start_ve_proc :: "nat \<Rightarrow> 'os \<Rightarrow> int \<times> 'os"
  sigaction_SIGCONT :: "'os \<Rightarrow> int \<times> 'os"
  kill_self :: "int \<Rightarrow> 'os \<Rightarrow> 'os"
  ve_sa_sigaction_handler :: "int \<Rightarrow> 'os \<Rightarrow> 'os"

text \<open>
  The state of the VH process while a process handle is constructed.  The current context of
  \<open>ct\<close> is the main thread of the new process; \<open>proc_no\<close> is the counter of processes, \<open>g_handle\<close>
  and \<open>ve_proc_sigmask\<close> are thread-local variables, \<open>sig_mask\<close> is the signal mask of the thread,
  \<open>cur_errno\<close> is \<^verbatim>\<open>errno\<close> as the API sets it.  \<open>args_slot\<close> is where the local \<^verbatim>\<open>CallArgs\<close> object of the
  constructor goes and \<open>raw_slot\<close> what its storage happens to hold.
\<close>

record 'os cstate =
  ct :: "'os tstate"
  proc_no :: u32
  g_handle :: "nat option"
  sig_mask :: "nat set"
  ve_proc_sigmask :: "nat set"
  cur_errno :: int
  args_slot :: nat
  raw_slot :: call_args

definition os_step :: "('os \<Rightarrow> 'a \<times> 'os) \<Rightarrow> ('os cstate, 'a) prog" where
  "os_step f s = (case f (os (ct s)) of (x, w) \<Rightarrow> returnP x (s\<lparr>ct := (ct s)\<lparr>os := w\<rparr>\<rparr>))"

definition os_upd :: "('os \<Rightarrow> 'os) \<Rightarrow> ('os cstate, unit) prog" where
  "os_upd f = modifyP (\<lambda>s. s\<lparr>ct := (ct s)\<lparr>os := f (os (ct s))\<rparr>\<rparr>)"

definition os_get :: "('os \<Rightarrow> 'a) \<Rightarrow> ('os cstate, 'a) prog" where
  "os_get f = getP (\<lambda>s. f (os (ct s)))"

definition memset :: "u64 \<Rightarrow> byte \<Rightarrow> nat \<Rightarrow> ('os cstate, unit) prog" where
  "memset a b n = modifyP (\<lambda>s. s\<lparr>ct := (ct s)\<lparr>vh_mem := mem_write (vh_mem (ct s)) a (replicate n b)\<rparr>\<rparr>)"

text \<open>A string in a buffer of \<open>n\<close> bytes, with its NUL.\<close>

definition in_buffer :: "nat \<Rightarrow> string \<Rightarrow> string result" where
  "in_buffer n str = (if length str < n then Inr str else Inl UndefinedBehaviour)"

definition NAME_MAX :: nat where "NAME_MAX = 255"
definition PATH_MAX :: nat where "PATH_MAX = 4096"
definition PAGE_SIZE_4KB :: nat where "PAGE_SIZE_4KB = 4 * 1024"

section \<open>The file for system call arguments\<close>

text \<open>
  \<^verbatim>\<open>get_ve_node_num\<close>: all digits before the first dot make up the number \<open>n\<close>, an \<^verbatim>\<open>int\<close>.
\<close>

fun get_ve_node_num :: "int \<Rightarrow> string \<Rightarrow> int result" where
  "get_ve_node_num n [] = Inr n"
| "get_ve_node_num n (c # s) =
     (if is_digit c
      then (let m = 10 * n + (of_char c - 48)
            in if in_int_range m then get_ve_node_num m s else Inl UndefinedBehaviour)
      else if c = CHR ''.'' then Inr n
      else get_ve_node_num n s)"

text \<open>The file descriptor (\<open>- 1\<close> upon failure), the node and the name of the file.\<close>

definition init_lhm_shm_area ::
  "'os spawn_env \<Rightarrow> nat \<Rightarrow> ('os cstate, int \<times> int \<times> string) prog" where
  "init_lhm_shm_area S h =
     bindP (os_get (veos_sock_name S h))
       (\<lambda>name. bindP (resultP (in_buffer (NAME_MAX + PATH_MAX) name))
       (\<lambda>sock. bindP (resultP (get_ve_node_num 0 (basename sock)))
       (\<lambda>node_id. bindP (resultP (in_buffer (NAME_MAX + PATH_MAX)
                            (dirname sock @ ''/veos'' @ print_int node_id @ ''-tmp/ve_exec_XXXXXX'')))
       (\<lambda>template. bindP (os_step (mkstemp S template))
       (\<lambda>(fd, path).
          if fd < 0 then returnP (- 1, node_id, path)
          else bindP (os_step (ftruncate S fd PAGE_SIZE_4KB))
            (\<lambda>retval. if retval = - 1 then returnP (- 1, node_id, path)
               else bindP (os_step (mmap_shared S fd PAGE_SIZE_4KB))
                 (\<lambda>area. if area = - 1 then returnP (- 1, node_id, path)
                    else bindP (memset area 0 PAGE_SIZE_4KB)
                      (\<lambda>_. bindP (os_upd (vedl_set_shm_lhm_addr S h area))
                      (\<lambda>_. returnP (fd, node_id, path))))))))))"

definition close_syscall_args_file :: "'os spawn_env \<Rightarrow> int \<Rightarrow> string \<Rightarrow> ('os cstate, unit) prog" where
  "close_syscall_args_file S fd name = bindP (os_upd (close_fd S fd)) (\<lambda>_. os_upd (unlink S name))"

section \<open>Setting up the VH process\<close>

text \<open>\<^verbatim>\<open>pseudo_abort\<close> stops the process; the result of destroying the attribute is only logged.\<close>

definition or_abort :: "('os \<Rightarrow> int \<times> 'os) \<Rightarrow> ('os cstate, unit) prog" where
  "or_abort f = bindP (os_step f) (\<lambda>ret. if ret \<noteq> 0 then throwP Abort else returnP ())"

definition init_rwlock_to_sync_dma_fork :: "'os spawn_env \<Rightarrow> ('os cstate, unit) prog" where
  "init_rwlock_to_sync_dma_fork S =
     bindP (or_abort (rwlockattr_init S))
       (\<lambda>_. bindP (or_abort (rwlockattr_setkind S))
       (\<lambda>_. bindP (or_abort (rwlock_init S))
       (\<lambda>_. bindP (os_step (rwlockattr_destroy S)) (\<lambda>_. returnP ()))))"

text \<open>The page that libvepseudo expects at \<^verbatim>\<open>PTRACE_PRIVATE_DATA\<close>.\<close>

definition map_ptrace_private :: "'os spawn_env \<Rightarrow> ('os cstate, unit) prog" where
  "map_ptrace_private S =
     bindP (os_step (mmap_ptrace S))
       (\<lambda>ptr. bindP (os_get (errno (veos_env (penv S))))
       (\<lambda>saved_errno.
          if ptr = - 1
          then throwP (VEOException ''Failled to allocate ptrace related data'' saved_errno)
          else if ptr \<noteq> PTRACE_PRIVATE_DATA S
          then bindP (os_upd (munmap S ptr))
                 (\<lambda>_. throwP (VEOException ''Failled to allocate ptrace related data'' saved_errno))
          else memset ptr 0 4096))"

text \<open>\<^verbatim>\<open>SIGCONT\<close> is signal 18 on Linux.  A thread without a VE OS handle sends the signal again.\<close>

definition SIGCONT :: int where "SIGCONT = 18"

definition veo_sigcont_handler :: "'os spawn_env \<Rightarrow> int \<Rightarrow> ('os cstate, unit) prog" where
  "veo_sigcont_handler S signo =
     bindP (assertP (signo = SIGCONT))
       (\<lambda>_. bindP (getP g_handle)
       (\<lambda>h. if h \<noteq> None then os_upd (ve_sa_sigaction_handler S signo)
            else os_upd (kill_self S signo)))"

section \<open>The environment of the VE process\<close>

text \<open>
  \<^verbatim>\<open>env_array\<close> has room for the environment variables, 31 pairs and two NULL pointers; storing
  beyond its end has no meaning.
\<close>

definition env_store :: "nat \<Rightarrow> u64 list \<Rightarrow> u64 \<Rightarrow> u64 list result" where
  "env_store env_num xs v = (if length xs < env_num then Inr (xs @ [v]) else Inl UndefinedBehaviour)"

fun env_store_all :: "nat \<Rightarrow> u64 list \<Rightarrow> u64 list \<Rightarrow> u64 list result" where
  "env_store_all env_num xs [] = Inr xs"
| "env_store_all env_num xs (v # vs) = bindR (env_store env_num xs v) (\<lambda>xs'. env_store_all env_num xs' vs)"

text \<open>The auxiliary vectors the VE process gets, by their numbers in \<^verbatim>\<open>elf.h\<close>.\<close>

definition auxv_types :: "nat \<Rightarrow> nat list" where
  "auxv_types at_quickcall_vaddr =
     [2, 3, 4, 5, 6, 7, 8, 9, 11, 12, 13, 14, 15, 17, 23, 25, 31, at_quickcall_vaddr]"

definition auxv_entry :: "nat \<Rightarrow> (nat \<Rightarrow> u64) \<Rightarrow> nat \<Rightarrow> u64 list" where
  "auxv_entry at_quickcall_vaddr auxval t =
     (if t \<in> set (auxv_types at_quickcall_vaddr) \<and> auxval t \<noteq> 0 then [of_nat t, auxval t] else [])"

fun auxv_loop :: "nat \<Rightarrow> nat \<Rightarrow> (nat \<Rightarrow> u64) \<Rightarrow> nat list \<Rightarrow> u64 list \<Rightarrow> u64 list result" where
  "auxv_loop env_num q auxval [] xs = Inr xs"
| "auxv_loop env_num q auxval (t # ts) xs =
     bindR (env_store_all env_num xs (auxv_entry q auxval t)) (auxv_loop env_num q auxval ts)"

definition make_env_array :: "u64 list \<Rightarrow> nat \<Rightarrow> (nat \<Rightarrow> u64) \<Rightarrow> u64 list result" where
  "make_env_array envs q auxval =
     (let env_num = length envs + (1 + 2 * (32 - 1) + 1)
      in bindR (env_store_all env_num [] envs)
           (\<lambda>xs. bindR (env_store env_num xs 0)
           (\<lambda>xs. bindR (auxv_loop env_num q auxval [1..<32] xs)
           (\<lambda>xs. env_store env_num xs 0))))"

section \<open>The new process\<close>

definition new_ve_proc_for ::
  "'os spawn_env \<Rightarrow> nat \<Rightarrow> int \<Rightarrow> string \<Rightarrow> string \<Rightarrow> 'os \<Rightarrow> new_ve_proc" where
  "new_ve_proc_for S h node binname sfile w =
     \<lparr>namespace_pid = gettid S w, shm_lhm_addr = vedl_get_shm_lhm_addr S h w, nv_core_id = - 1,
      nv_node_id = node, traced_proc = 0, tracer_pid = getppid S w, exec_path = take PATH_MAX binname,
      nv_numa_node = - 1, exe_name = take (ACCT_COMM S - 1) (basename binname),
      sfile_name = take (S_FILE_LEN S - 1) (basename sfile)\<rparr>"

text \<open>\<^verbatim>\<open>process_thread_cleanup(oshandle, -1); return retval;\<close>\<close>

definition cleanup_and_return :: "'os spawn_env \<Rightarrow> nat \<Rightarrow> int \<Rightarrow> ('os cstate, int) prog" where
  "cleanup_and_return S h retval =
     bindP (os_upd (process_thread_cleanup (veos_env (penv S)) h (- 1))) (\<lambda>_. returnP retval)"

text \<open>The two requests to the VE OS that create the process; the file is removed in any case.\<close>

definition request_new_process ::
  "'os spawn_env \<Rightarrow> nat \<Rightarrow> string \<Rightarrow> int \<times> int \<times> string \<Rightarrow> ('os cstate, int) prog" where
  "request_new_process S h binname area =
     (case area of (fd, node, sfile) \<Rightarrow>
        bindP (os_get (new_ve_proc_for S h node binname sfile))
          (\<lambda>ve_proc. bindP (os_step (psm_send_new_ve_process S h ve_proc))
          (\<lambda>retval. if 0 > retval
             then bindP (close_syscall_args_file S fd sfile) (\<lambda>_. returnP retval)
             else bindP (os_step (psm_recv_load_binary_req S h))
               (\<lambda>retval. bindP (close_syscall_args_file S fd sfile)
               (\<lambda>_. if 0 > retval then returnP retval else returnP 0)))))"

text \<open>From the acknowledged start request on: the signal handler is registered.\<close>

definition start_process :: "'os spawn_env \<Rightarrow> nat \<Rightarrow> bytes \<Rightarrow> ('os cstate, int) prog" where
  "start_process S h start_req =
     bindP (os_get (\<lambda>w. set_ve_info S w start_req))
       (\<lambda>req. bindP (os_step (psm_send_start_ve_proc_req S req h))
       (\<lambda>retval. if 0 > retval then returnP retval
          else bindP (os_step (psm_recv_start_ve_proc S h))
            (\<lambda>retval. if 0 > retval then returnP retval
               else bindP (os_step (sigaction_SIGCONT S))
                 (\<lambda>retval. if 0 > retval then cleanup_and_return S h retval
                    else returnP 0))))"

text \<open>
  Loading the program.  \<^verbatim>\<open>helper_name\<close> is the name cut to a buffer of \<^verbatim>\<open>PATH_MAX\<close> bytes by \<^verbatim>\<open>strncpy\<close>,
  which leaves it without a NUL when it does not fit.
\<close>

definition load_program :: "'os spawn_env \<Rightarrow> nat \<Rightarrow> string \<Rightarrow> ('os cstate, int) prog" where
  "load_program S h binname =
     bindP (os_upd (vedl_set_syscall_area_offset S h))
       (\<lambda>_. bindP (os_step (init_vemva_header S))
       (\<lambda>retval. if retval \<noteq> 0 then returnP retval
          else bindP (resultP (in_buffer PATH_MAX binname))
            (\<lambda>helper_name. bindP (os_step (pse_load_binary S helper_name h))
            (\<lambda>(retval, start_req). if retval \<noteq> 0 then cleanup_and_return S h retval
               else bindP (resultP (make_env_array (environ S) (AT_QUICKCALL_VADDR S) (getauxval S)))
                 (\<lambda>env_array. bindP (os_step (init_stack S h [helper_name] env_array start_req))
                 (\<lambda>(retval, start_req). if retval \<noteq> 0 then cleanup_and_return S h retval
                    else start_process S h start_req))))))"

definition spawn_helper :: "'os spawn_env \<Rightarrow> nat \<Rightarrow> string \<Rightarrow> ('os cstate, int) prog" where
  "spawn_helper S h binname =
     bindP (map_ptrace_private S)
       (\<lambda>_. bindP (os_upd (set_main_tid S h))
       (\<lambda>_. bindP (init_rwlock_to_sync_dma_fork S)
       (\<lambda>_. bindP (init_lhm_shm_area S h)
       (\<lambda>area. if fst area < 0 then throwP (VEOException ''failed to create temporary file.'' 0)
          else bindP (request_new_process S h binname area)
            (\<lambda>retval. if 0 > retval then returnP retval else load_program S h binname)))))"

end
