(* ===== verification/Creation.thy ===== *)
theory Creation
  imports Spawn
begin

text \<open>
  The constructor of the process handle (\<^verbatim>\<open>src/libveo/ProcHandle.cpp\<close>, \<^verbatim>\<open>ProcHandle.hpp\<close>) and the
  function of the C API that calls it (\<^verbatim>\<open>src/libveo/api.cpp\<close>): the VE process is spawned, its main
  thread runs to the first block request and hands over the table of helper functions, and a
  second thread, the worker, is created.
\<close>

section \<open>The main thread\<close>

definition on_main :: "('os tstate, 'a) prog \<Rightarrow> ('os cstate, 'a) prog" where
  "on_main p s = (case p (ct s) of None \<Rightarrow> None | Some (r, t) \<Rightarrow> Some (r, s\<lparr>ct := t\<rparr>))"

text \<open>\<^verbatim>\<open>throw VEOException(msg)\<close>, which saves errno.\<close>

definition throw_errno :: "'os veos \<Rightarrow> string \<Rightarrow> ('os cstate, 'a) prog" where
  "throw_errno E msg = bindP (os_get (errno E)) (\<lambda>err. throwP (VEOException msg err))"

definition waitForBlock :: "'os veos \<Rightarrow> ('os cstate, unit) prog" where
  "waitForBlock E =
     bindP (on_main (defaultExceptionHandler E 0))
       (\<lambda>(status, exc). if status \<noteq> VEO_HANDLER_STATUS_BLOCK_REQUESTED
          then throw_errno E ''Unexpected exception occured'' else returnP ())"

text \<open>
  \<^verbatim>\<open>class Finally\<close>: all signals are blocked for the duration of the constructor; its destructor
  runs on every way out.  The masks set in between by \<^verbatim>\<open>handleSingleException\<close> are left out.
\<close>

definition with_signals_blocked :: "('os cstate, 'a) prog \<Rightarrow> ('os cstate, 'a) prog" where
  "with_signals_blocked body s =
     (case body (s\<lparr>ve_proc_sigmask := sig_mask s, sig_mask := UNIV\<rparr>) of
        None \<Rightarrow> None
      | Some (r, t) \<Rightarrow> Some (r, t\<lparr>sig_mask := sig_mask s, g_handle := None\<rparr>))"

section \<open>The table of helper functions\<close>

text \<open>Bytes received into an object overwrite its first bytes.\<close>

definition received :: "bytes \<Rightarrow> bytes \<Rightarrow> bytes" where
  "received bs object = bs @ drop (length bs) object"

definition recv_funcs :: "'os spawn_env \<Rightarrow> nat \<Rightarrow> u64 \<Rightarrow> nat \<Rightarrow> bytes \<Rightarrow> ('os cstate, bytes) prog" where
  "recv_funcs S h addr n object =
     bindP (os_step (ve_recv_data (veos_env (penv S)) h addr n))
       (\<lambda>(rv, bs). if rv \<noteq> 0 then throw_errno (veos_env (penv S)) ''Failed to receive data from VE''
          else returnP (received bs object))"

text \<open>The version decides how many bytes of the table there are.\<close>

definition funcs_size :: "'os spawn_env \<Rightarrow> u64 \<Rightarrow> ('os cstate, nat) prog" where
  "funcs_size S v =
     bindP (assertP (v \<ge> VEORUN_VERSION2 (penv S)))
       (\<lambda>_. if v = VEORUN_VERSION2 (penv S) then returnP (sizeof_ver2 S)
            else if v = VEORUN_VERSION3 (penv S) then returnP (sizeof_ver3 S)
            else if v = VEORUN_VERSION4 (penv S) then returnP (sizeof_ver4 S)
            else throw_errno (veos_env (penv S)) ''Invalid VEORUN_VERSION'')"

definition receive_helper_functions ::
  "'os spawn_env \<Rightarrow> nat \<Rightarrow> u64 \<Rightarrow> ('os cstate, helper_functions) prog" where
  "receive_helper_functions S h addr =
     bindP (recv_funcs S h addr 8 (raw_funcs S))
       (\<lambda>object. bindP (funcs_size S (funcs_version (decode_funcs S object)))
       (\<lambda>funcs_sz. bindP (recv_funcs S h addr funcs_sz object)
       (\<lambda>object'. returnP (decode_funcs S object'))))"

section \<open>The worker\<close>

text \<open>The local object \<^verbatim>\<open>args_create_thread\<close> lives until the constructor returns.\<close>

definition put_args :: "call_args \<Rightarrow> ('os cstate, unit) prog" where
  "put_args ca = modifyP (\<lambda>s. s\<lparr>ct := (ct s)\<lparr>args_heap := (args_heap (ct s))(args_slot s \<mapsto> ca)\<rparr>\<rparr>)"

text \<open>
  The main thread calls \<^verbatim>\<open>create_thread\<close> and stops at the system call clone; the result of
  \<^verbatim>\<open>handleCloneRequest\<close> is given back to the VE whether or not there is a new thread.
\<close>

definition create_worker :: "'os spawn_env \<Rightarrow> helper_functions \<Rightarrow> ('os cstate, ctx) prog" where
  "create_worker S fs =
     (let E = veos_env (penv S)
      in bindP (getP raw_slot)
           (\<lambda>raw. bindP (resultP (set_arg (new_CallArgs raw) 0 (ArgI32 (- 1))))
           (\<lambda>ca. bindP (put_args ca)
           (\<lambda>_. bindP (getP args_slot)
           (\<lambda>ref. bindP (on_main (doCall E (create_thread fs) ref))
           (\<lambda>_. bindP (on_main (exceptionHandler E (hookCloneFilter E) 0))
           (\<lambda>(req, exc). if \<not> is_clone_request E req
              then throwP (VEOException ''VE process requests block unexpectedly.'' 0)
              else bindP (os_step (new_pointer E))
                (\<lambda>(ptr, raw_sp). bindP (getP (\<lambda>s. new_ThreadContext (os_handle (tc (ct s))) False raw_sp))
                (\<lambda>worker. bindP (on_main (handleCloneRequestP E worker))
                (\<lambda>(tid, worker'). bindP (on_main (unBlock E (word_of_int tid)))
                (\<lambda>_. bindP (waitForBlock E) (\<lambda>_. returnP worker'))))))))))))"

section \<open>The constructor\<close>

text \<open>\<^verbatim>\<open>veos_handle_free(os_handle); throw VEOException(...)\<close>\<close>

definition free_and_throw :: "'os spawn_env \<Rightarrow> nat \<Rightarrow> ('os cstate, 'a) prog" where
  "free_and_throw S h =
     bindP (os_upd (veos_handle_free (penv S) h))
       (\<lambda>_. throwP (VEOException ''The creation of a VE process failed.'' 0))"

text \<open>The VE OS handle and the main thread context of the new process.\<close>

definition open_main_thread :: "'os spawn_env \<Rightarrow> string \<Rightarrow> string \<Rightarrow> ('os cstate, nat) prog" where
  "open_main_thread S ossock vedev =
     bindP (os_step (veos_handle_create S vedev ossock))
       (\<lambda>handle. case handle of
          None \<Rightarrow> throw_errno (veos_env (penv S)) ''veos_handle_create failed.''
        | Some h \<Rightarrow>
            bindP (modifyP (\<lambda>s. s\<lparr>g_handle := Some h\<rparr>))
              (\<lambda>_. bindP (os_step (new_pointer (veos_env (penv S))))
              (\<lambda>(ptr, raw_sp). bindP (modifyP (\<lambda>s. s\<lparr>ct := (ct s)\<lparr>tc := new_ThreadContext h True raw_sp\<rparr>\<rparr>))
              (\<lambda>_. returnP h))))"

text \<open>Only one VE process is created in the life of a VH process.\<close>

definition spawn_process :: "'os spawn_env \<Rightarrow> nat \<Rightarrow> string \<Rightarrow> ('os cstate, unit) prog" where
  "spawn_process S h binname s =
     (if proc_no s \<noteq> 0 then free_and_throw S h s
      else bindP (spawn_helper S h binname)
             (\<lambda>rv. if rv \<noteq> 0 then free_and_throw S h
                else modifyP (\<lambda>s. s\<lparr>proc_no := proc_no s + 1\<rparr>)) s)"

definition new_ProcHandle ::
  "'os spawn_env \<Rightarrow> string \<Rightarrow> string \<Rightarrow> string \<Rightarrow> ('os cstate, proc_handle \<times> ctx) prog" where
  "new_ProcHandle S ossock vedev binname = with_signals_blocked
     (bindP (resultP (sscanf_int ''/dev/veslot'' vedev))
       (\<lambda>number. bindP (open_main_thread S ossock vedev)
       (\<lambda>h. bindP (spawn_process S h binname)
       (\<lambda>_. bindP (on_main (set_state VEO_STATE_RUNNING))
       (\<lambda>_. bindP (waitForBlock (veos_env (penv S)))
       (\<lambda>_. bindP (on_main (collectReturnValue (veos_env (penv S))))
       (\<lambda>funcs_addr. bindP (receive_helper_functions S h funcs_addr)
       (\<lambda>fs. bindP (create_worker S fs)
       (\<lambda>worker. getP (\<lambda>s.
          (\<lparr>sym_name = Map.empty, main_thread = tc (ct s), funcs = fs,
            num_child_threads = tid_counter (penv S) (os (ct s)),
            ve_number = (case number of Some n \<Rightarrow> n | None \<Rightarrow> - 1)\<rparr>,
           worker)))))))))))"

text \<open>\<^verbatim>\<open>veo_proc__create\<close>: \<open>None\<close> is NULL.\<close>

definition veo_proc__create ::
  "'os spawn_env \<Rightarrow> string \<Rightarrow> string \<Rightarrow> string \<Rightarrow> ('os cstate, (proc_handle \<times> ctx) option) prog" where
  "veo_proc__create S ossock vedev binname =
     catchP (bindP (new_ProcHandle S ossock vedev binname) (\<lambda>p. returnP (Some p)))
       (\<lambda>err. bindP (modifyP (\<lambda>s. s\<lparr>cur_errno := err\<rparr>)) (\<lambda>_. returnP None))"

text \<open>The state in which the operations on a new process start; the local object is gone.\<close>

definition process_state :: "proc_handle \<times> ctx \<Rightarrow> 'os cstate \<Rightarrow> 'os pstate" where
  "process_state p s =
     \<lparr>ph = fst p, wk = (ct s)\<lparr>tc := snd p, args_heap := (args_heap (ct s))(args_slot s := None)\<rparr>, local_ref = args_slot s, raw_object = raw_slot s\<rparr>"

end
