(* ===== verification/Creation_Properties.thy ===== *)
theory Creation_Properties
  imports Creation Api_Properties
begin

text \<open>
  Properties of the creation of a VE process: the names and numbers of the node, the array for
  the stack of the VE process, what a failed creation leaves behind, and the state in which the
  new process is.
\<close>

section \<open>The environment of the VE process\<close>

lemma env_store_all_eq:
  "length xs + length vs \<le> n \<Longrightarrow> env_store_all n xs vs = Inr (xs @ vs)"
  by (induction vs arbitrary: xs) (simp_all add: env_store_def)

lemma length_auxv_entry: "length (auxv_entry q auxval t) \<le> 2"
  by (simp add: auxv_entry_def)

lemma auxv_loop_eq:
  "length xs + 2 * length ts \<le> n \<Longrightarrow>
     auxv_loop n q auxval ts xs = Inr (xs @ concat (map (auxv_entry q auxval) ts))"
proof (induction ts arbitrary: xs)
  case (Cons t ts)
  then show ?case
    using length_auxv_entry [of q auxval t] by (simp add: env_store_all_eq)
qed simp

lemma length_auxv_entries: "length (concat (map (auxv_entry q auxval) ts)) \<le> 2 * length ts"
proof (induction ts)
  case (Cons t ts)
  then show ?case using length_auxv_entry [of q auxval t] by simp
qed simp

lemma make_env_array_eq:
  "make_env_array envs q auxval = Inr (envs @ [0] @ concat (map (auxv_entry q auxval) [1..<32]) @ [0])"
proof -
  have "length (concat (map (auxv_entry q auxval) [1..<32])) \<le> 2 * length [1..<32]"
    by (rule length_auxv_entries)
  then show ?thesis
    by (simp add: make_env_array_def Let_def env_store_all_eq env_store_def auxv_loop_eq del: upt_Suc)
qed

text \<open>
  C28: the array for the stack of the VE process is filled within its bounds: the environment
  variables in order, NULL, each auxiliary vector of the list that the VH process has a value
  for, as a pair of type and value in the order of the types, and NULL.
\<close>

theorem env_array_contents:
  "make_env_array envs q auxval =
     Inr (envs @ [0]
          @ concat (map (\<lambda>t. if (t \<in> {2..9} \<or> t \<in> {11..15} \<or> t \<in> {17, 23, 25, 31} \<or> t = q) \<and> auxval t \<noteq> 0
                             then [of_nat t, auxval t] else []) [1..<32])
          @ [0])"
proof -
  have "t \<in> set (auxv_types q) \<longleftrightarrow> t \<in> {2..9} \<or> t \<in> {11..15} \<or> t \<in> {17, 23, 25, 31} \<or> t = q" for t
    by (auto simp: auxv_types_def)
  then have "auxv_entry q auxval = (\<lambda>t. if (t \<in> {2..9} \<or> t \<in> {11..15} \<or> t \<in> {17, 23, 25, 31} \<or> t = q)
      \<and> auxval t \<noteq> 0 then [of_nat t, auxval t] else [])"
    by (intro ext) (simp add: auxv_entry_def)
  then show ?thesis by (simp only: make_env_array_eq)
qed

section \<open>The names of a node\<close>

lemma length_print_nat: "0 < k \<Longrightarrow> n < 10 ^ k \<Longrightarrow> length (print_nat n) \<le> k"
proof (induction k arbitrary: n)
  case (Suc k)
  show ?case
  proof (cases "n < 10")
    case True
    then show ?thesis by (subst print_nat.simps) simp
  next
    case False
    then have "0 < k" using Suc.prems(2) by (cases k) auto
    moreover have "n div 10 < 10 ^ k" using Suc.prems(2) by auto
    ultimately show ?thesis using Suc.IH False by (subst print_nat.simps) simp
  qed
qed simp

lemma length_print_int:
  assumes "in_int_range i"
  shows "length (print_int i) \<le> 11"
proof -
  have "- i < 10 ^ 10" "i < 10 ^ 10"
    using assms by (simp_all add: in_int_range_def INT_MIN_def INT_MAX_def)
  then have "nat (- i) < 10 ^ 10" "nat i < 10 ^ 10"
    by (simp_all add: nat_less_numeral_power_cancel_iff)
  then show ?thesis
    using length_print_nat [of 10 "nat (- i)"] length_print_nat [of 10 "nat i"]
    by (simp add: print_int_def)
qed

lemma digits_value_nonneg: "list_all is_digit ds \<Longrightarrow> 0 \<le> digits_value ds \<and> digits_value ds < 10 ^ length ds"
proof (induction ds rule: rev_induct)
  case (snoc c ds)
  then have "0 \<le> (of_char c :: int) - 48" "(of_char c :: int) - 48 \<le> 9"
    by (auto simp: is_digit_def of_char_int)
  with snoc show ?case by (auto simp: digits_value_snoc)
qed (simp add: digits_value_def)

text \<open>\<^verbatim>\<open>get_ve_node_num\<close> on the digits of a name.\<close>

lemma get_ve_node_num_digits:
  assumes "list_all is_digit ds" and "in_int_range (digits_value ds)"
  shows "get_ve_node_num 0 (ds @ rest) = get_ve_node_num (digits_value ds) rest"
  using assms
proof (induction ds arbitrary: rest rule: rev_induct)
  case (snoc c ds)
  have "0 \<le> digits_value ds" using digits_value_nonneg snoc.prems(1) by simp
  moreover have "0 \<le> (of_char c :: int) - 48"
    using snoc.prems(1) by (auto simp: is_digit_def of_char_int)
  ultimately have "in_int_range (digits_value ds)"
    using snoc.prems(2) by (auto simp: digits_value_snoc in_int_range_def INT_MIN_def)
  with snoc show ?case by (simp add: digits_value_snoc)
qed (simp add: digits_value_def)

lemma get_ve_node_num_socket:
  assumes "in_int_range n" and "0 \<le> n"
  shows "get_ve_node_num 0 (''veos'' @ print_int n @ ''.sock'') = Inr n"
proof -
  have "get_ve_node_num 0 (''veos'' @ xs) = get_ve_node_num 0 xs" for xs
    by (simp add: is_digit_def)
  moreover have "get_ve_node_num 0 (print_int n @ ''.sock'') = Inr n"
    using assms get_ve_node_num_digits [OF print_nat_digits, of "nat n"]
    by (simp add: print_int_def digits_value_print is_digit_def)
  ultimately show ?thesis by simp
qed

lemma no_slash: "CHR ''/'' \<notin> set (''veos'' @ print_int n @ ''.sock'')"
proof -
  have "CHR ''/'' \<notin> set (print_nat k)" for k
    using print_nat_digits [of k] by (auto simp: list_all_iff is_digit_def)
  then show ?thesis by (auto simp: print_int_def)
qed

lemma sscanf_prefix_digits:
  assumes "list_all is_digit ds" and "ds \<noteq> []" and "in_int_range (digits_value ds)"
  shows "sscanf_int prefix (prefix @ ds) = Inr (Some (digits_value ds))"
  using assms scan_int_digits(1) [OF assms(1,2), of "[]"] by (simp add: sscanf_int_def)

text \<open>
  C29: the node chosen for a process is the one the VE OS is asked for.  The number is printed
  into the names of the socket and of the device; the constructor reads it back from both, and
  the names fit their buffers, for every node number below 10000; the name of the device is cut
  for larger ones, and a wrong number is read.
\<close>

theorem node_names_roundtrip:
  assumes "select_node nodelist nodenum venode = Inr (Some n)" and "0 \<le> n" and "in_int_range n"
    and "room = length (dir @ ''/veos%d.sock'') + 1 + 16"
  shows "\<exists>ossock vedev.
       veo_proc_create_static (\<lambda>n. ''/dev/veslot'' @ print_int n) (\<lambda>n. dir @ ''/veos'' @ print_int n @ ''.sock'')
         room create nodelist nodenum venode bin = create ossock vedev bin
     \<and> get_ve_node_num 0 (basename ossock) = Inr n
     \<and> (n < 10000 \<longrightarrow> sscanf_int ''/dev/veslot'' vedev = Inr (Some n))
     \<and> (n \<ge> 10000 \<longrightarrow> (\<exists>m < 10000. sscanf_int ''/dev/veslot'' vedev = Inr (Some m)))"
proof -
  let ?sock = "dir @ ''/veos'' @ print_int n @ ''.sock''" and ?dev = "take 15 (''/dev/veslot'' @ print_int n)"
  have "take (room - 1) ?sock = ?sock"
    using length_print_int [OF assms(3)] assms(4) by simp
  then have "veo_proc_create_static (\<lambda>n. ''/dev/veslot'' @ print_int n) (\<lambda>n. dir @ ''/veos'' @ print_int n @ ''.sock'')
      room create nodelist nodenum venode bin = create ?sock ?dev bin"
    using assms(1) by (simp add: veo_proc_create_static_def)
  moreover have "basename ?sock = ''veos'' @ print_int n @ ''.sock''"
    using basename_file [OF _ no_slash, of n dir] by simp
  then have "get_ve_node_num 0 (basename ?sock) = Inr n"
    using get_ve_node_num_socket [OF assms(3,2)] by metis
  moreover have "sscanf_int ''/dev/veslot'' ?dev = Inr (Some n)" if "n < 10000"
  proof -
    have "length (print_int n) \<le> 4"
      using length_print_nat [of 4 "nat n"] assms(2) that by (simp add: print_int_def)
    then have "?dev = ''/dev/veslot'' @ print_int n" by simp
    then show ?thesis using sscanf_print [OF assms(3)] by metis
  qed
  moreover have "\<exists>m < 10000. sscanf_int ''/dev/veslot'' ?dev = Inr (Some m)"
  proof -
    let ?ds = "take 4 (print_nat (nat n))"
    have ds: "list_all is_digit ?ds" "?ds \<noteq> []"
      using print_nat_digits [of "nat n"] by (auto simp: list_all_iff dest: in_set_takeD)
    have "10 ^ length ?ds \<le> (10 ^ 4 :: int)" by (rule power_increasing) simp_all
    then have range: "digits_value ?ds < 10000" "in_int_range (digits_value ?ds)"
      using digits_value_nonneg [OF ds(1)] by (auto simp: in_int_range_def INT_MIN_def INT_MAX_def)
    have "?dev = ''/dev/veslot'' @ ?ds" using assms(2) by (simp add: print_int_def)
    then have "sscanf_int ''/dev/veslot'' ?dev = Inr (Some (digits_value ?ds))"
      using sscanf_prefix_digits [OF ds range(2)] by metis
    with range(1) show ?thesis by blast
  qed
  ultimately show ?thesis by blast
qed

section \<open>What the creation of a process leaves alone\<close>

text \<open>
  Every preorder that admits changes of the state of the contexts and of \<^verbatim>\<open>g_handle\<close> is kept by
  all steps of the constructor but the counting of processes.
\<close>

locale creation_frame = program_frame R
  for R :: "'os cstate \<Rightarrow> 'os cstate \<Rightarrow> bool" +
  assumes R_ct: "R s (s\<lparr>ct := t\<rparr>)"
    and R_g_handle: "R s (s\<lparr>g_handle := h\<rparr>)"
begin

lemma keeps_os [keeps]:
  "keeps_rel R (os_step f)" "keeps_rel R (os_upd g)" "keeps_rel R (os_get k)" "keeps_rel R (memset a b n)"
  "keeps_rel R (on_main p)" "keeps_rel R (put_args ca)"
  "keeps_rel R (modifyP (\<lambda>s. s\<lparr>g_handle := h\<rparr>))" "keeps_rel R (modifyP (\<lambda>s. s\<lparr>ct := m s\<rparr>))"
  by (auto simp: keeps_rel_def os_step_def os_upd_def os_get_def memset_def on_main_def put_args_def
      R_ct R_g_handle R_refl split: prod.splits option.splits)

lemma keeps_throw_errno [keeps]: "keeps_rel R (throw_errno E msg)"
  unfolding throw_errno_def by (intro keeps)

lemma keeps_cleanup [keeps]: "keeps_rel R (cleanup_and_return S h rv)"
  unfolding cleanup_and_return_def by (intro keeps)

lemma keeps_waitForBlock [keeps]: "keeps_rel R (waitForBlock E)"
  unfolding waitForBlock_def by (intro keeps)

lemma keeps_map_ptrace [keeps]: "keeps_rel R (map_ptrace_private S)"
  unfolding map_ptrace_private_def by (intro keeps)

lemma keeps_init_rwlock [keeps]: "keeps_rel R (init_rwlock_to_sync_dma_fork S)"
  unfolding init_rwlock_to_sync_dma_fork_def or_abort_def by (intro keeps)

lemma keeps_init_lhm [keeps]: "keeps_rel R (init_lhm_shm_area S h)"
  unfolding init_lhm_shm_area_def by (intro keeps)

lemma keeps_request_new_process [keeps]: "keeps_rel R (request_new_process S h bin area)"
  unfolding request_new_process_def close_syscall_args_file_def by (intro keeps)

lemma keeps_load_program [keeps]: "keeps_rel R (load_program S h bin)"
  unfolding load_program_def start_process_def by (intro keeps)

lemma keeps_spawn_helper [keeps]: "keeps_rel R (spawn_helper S h bin)"
  unfolding spawn_helper_def by (intro keeps)

lemma keeps_free_and_throw [keeps]: "keeps_rel R (free_and_throw S h)"
  unfolding free_and_throw_def by (intro keeps)

lemma keeps_open_main_thread [keeps]: "keeps_rel R (open_main_thread S ossock vedev)"
  unfolding open_main_thread_def by (intro keeps)

lemma keeps_receive_helper_functions [keeps]: "keeps_rel R (receive_helper_functions S h addr)"
  unfolding receive_helper_functions_def recv_funcs_def funcs_size_def by (intro keeps)

lemma keeps_create_worker [keeps]: "keeps_rel R (create_worker S fs)"
  unfolding create_worker_def by (intro keeps)

end

text \<open>The count of processes.\<close>

definition same_count :: "'os cstate \<Rightarrow> 'os cstate \<Rightarrow> bool" where
  "same_count s t \<longleftrightarrow> proc_no t = proc_no s"

interpretation count: creation_frame same_count
  by unfold_locales (simp_all add: same_count_def)

lemma count_kept: "keeps_rel same_count p \<Longrightarrow> p s = Some (r, t) \<Longrightarrow> proc_no t = proc_no s"
  using keeps_relD [of same_count] by (auto simp: same_count_def)

lemma on_main_state [simp]:
  "on_main (set_state st) s = Some (Inr (), s\<lparr>ct := (ct s)\<lparr>tc := (tc (ct s))\<lparr>ctx_state := st\<rparr>\<rparr>\<rparr>)"
  by (simp add: on_main_def set_state_def)

lemma spawn_process_count:
  assumes "spawn_process S h bin s = Some (r, t)"
  shows "if r = Inr () then proc_no s = 0 \<and> proc_no t = 1 else proc_no t = proc_no s"
proof (cases "proc_no s \<noteq> 0")
  case True
  then show ?thesis
    using assms count_kept [OF count.keeps_free_and_throw, of S h s r t]
    by (auto simp: spawn_process_def free_and_throw_def os_upd_def)
next
  case False
  then have "bindP (spawn_helper S h bin) (\<lambda>rv. if rv \<noteq> 0 then free_and_throw S h
      else modifyP (\<lambda>s. s\<lparr>proc_no := proc_no s + 1\<rparr>)) s = Some (r, t)"
    using assms by (simp add: spawn_process_def)
  then show ?thesis
  proof (cases rule: bindP_eq_SomeE)
    case (stop e)
    then show ?thesis using count_kept [OF count.keeps_spawn_helper stop(1)] False by simp
  next
    case (ok rv u)
    have "proc_no u = proc_no s" using count_kept [OF count.keeps_spawn_helper ok(1)] .
    then show ?thesis
      using ok(2) False by (auto simp: free_and_throw_def os_upd_def split: if_splits)
  qed
qed

text \<open>The steps of a constructor that returned.\<close>

definition constructing :: "'os cstate \<Rightarrow> 'os cstate" where
  "constructing s = s\<lparr>ve_proc_sigmask := sig_mask s, sig_mask := UNIV\<rparr>"

lemma constructing_sel [simp]:
  "proc_no (constructing s) = proc_no s" "ct (constructing s) = ct s"
  "args_slot (constructing s) = args_slot s" "raw_slot (constructing s) = raw_slot s"
  "cur_errno (constructing s) = cur_errno s"
  by (simp_all add: constructing_def)

lemma new_ProcHandle_returned:
  assumes "new_ProcHandle S ossock vedev bin s = Some (Inr p, t)"
  obtains h fs addr s1 s2 s3 s4 s5 s6 where
    "open_main_thread S ossock vedev (constructing s) = Some (Inr h, s1)"
    "spawn_process S h bin s1 = Some (Inr (), s2)"
    "waitForBlock (veos_env (penv S)) (s2\<lparr>ct := (ct s2)\<lparr>tc := (tc (ct s2))\<lparr>ctx_state := VEO_STATE_RUNNING\<rparr>\<rparr>\<rparr>)
       = Some (Inr (), s3)"
    "on_main (collectReturnValue (veos_env (penv S))) s3 = Some (Inr addr, s4)"
    "receive_helper_functions S h addr s4 = Some (Inr fs, s5)"
    "create_worker S fs s5 = Some (Inr (snd p), s6)"
    "t = s6\<lparr>sig_mask := sig_mask s, g_handle := None\<rparr>"
    "fst p = \<lparr>sym_name = Map.empty, main_thread = tc (ct s6), funcs = fs,
       num_child_threads = tid_counter (penv S) (os (ct s6)), ve_number = ve_number (fst p)\<rparr>"
  using assms
  by (auto simp: new_ProcHandle_def with_signals_blocked_def constructing_def [symmetric] bindP_eq_Inr
      split: option.splits)

lemma create_returned:
  "veo_proc__create S ossock vedev bin s = Some (Inr (Some p), t) \<longleftrightarrow>
     new_ProcHandle S ossock vedev bin s = Some (Inr p, t)"
  by (auto simp: veo_proc__create_def catchP_def bindP_def split: option.splits sum.splits fault.splits)

lemma new_ProcHandle_frame:
  "new_ProcHandle S ossock vedev bin s = Some (r, t) \<Longrightarrow> sig_mask t = sig_mask s \<and> g_handle t = None"
  by (auto simp: new_ProcHandle_def with_signals_blocked_def split: option.splits)

lemma process_exists_fails:
  assumes "new_ProcHandle S ossock vedev bin s = Some (q, u)" and "proc_no s \<noteq> 0"
  shows "proc_no u = proc_no s \<and> (\<exists>e. q = Inl e)"
proof -
  obtain rest u' where run: "bindP (resultP (sscanf_int ''/dev/veslot'' vedev))
      (\<lambda>number. bindP (open_main_thread S ossock vedev)
      (\<lambda>h. bindP (spawn_process S h bin) (rest number h))) (constructing s) = Some (q, u')"
      "proc_no u = proc_no u'"
    using assms(1)
    by (auto simp: new_ProcHandle_def with_signals_blocked_def constructing_def split: option.splits)
  from run(1) show ?thesis
  proof (cases rule: bindP_eq_SomeE)
    case (ok number s0)
    then have "s0 = constructing s" by simp
    from ok(2) show ?thesis
    proof (cases rule: bindP_eq_SomeE)
      case (stop e)
      with run(2) \<open>s0 = constructing s\<close> show ?thesis
        using count_kept [OF count.keeps_open_main_thread stop(1)] by simp
    next
      case (ok h s1)
      have s1: "proc_no s1 = proc_no s"
        using count_kept [OF count.keeps_open_main_thread ok(1)] \<open>s0 = constructing s\<close> by simp
      from ok(2) show ?thesis
        by (cases rule: bindP_eq_SomeE)
          (use s1 assms(2) run(2) in \<open>auto dest!: spawn_process_count split: if_splits\<close>)
    qed
  qed (use run(2) in auto)
qed


section \<open>The new process\<close>

lemma waitForBlock_done:
  assumes "waitForBlock E s = Some (Inr (), t)" and "ctx_state (tc (ct s)) = VEO_STATE_RUNNING"
  shows "ctx_state (tc (ct t)) = VEO_STATE_BLOCKED"
proof -
  obtain status exs u where run: "defaultExceptionHandler E 0 (ct s) = Some (Inr (status, exs), u)"
      "status = VEO_HANDLER_STATUS_BLOCK_REQUESTED" "ct t = u"
    using assms(1)
    by (auto simp: waitForBlock_def bindP_eq_Inr on_main_def throw_errno_def split: option.splits if_splits)
  then show ?thesis
    using defaultExceptionHandler_outcomes [OF run(1) assms(2)]
    by (auto simp: handler_status_defs)
qed

text \<open>A worker that the VE OS has started, and one that it has not.\<close>

definition started :: "ctx \<Rightarrow> bool" where
  "started c \<longleftrightarrow> (\<exists>h h' sp. c = thread_started h (new_ThreadContext h' False sp))"

definition not_started :: "ctx \<Rightarrow> bool" where
  "not_started c \<longleftrightarrow> (\<exists>h sp. c = new_ThreadContext h False sp)"

lemma clone_request_worker:
  assumes "handleCloneRequestP E c s = Some (Inr (tid, c'), t)" and "not_started c"
  shows "if tid < 0 then not_started c' else started c'"
  using assms
  by (auto simp: handleCloneRequestP_def handleCloneRequest_def started_def not_started_def
      split: option.splits prod.splits if_splits)

lemma unBlock_running: "on_main (unBlock E v) s = Some (Inr (), t) \<Longrightarrow> ctx_state (tc (ct t)) = VEO_STATE_RUNNING"
  by (auto simp: on_main_def unBlock_def os_do_def set_state_def)

lemma create_worker_returned:
  assumes "create_worker S fs s = Some (Inr c, t)"
  shows "ctx_state (tc (ct t)) = VEO_STATE_BLOCKED \<and> (started c \<or> not_started c)"
proof -
  let ?E = "veos_env (penv S)"
  obtain tid sp u u1 u2 where
      clone: "on_main (handleCloneRequestP ?E (new_ThreadContext (os_handle (tc (ct u))) False sp)) u
        = Some (Inr (tid, c), u1)" and
      unblock: "on_main (unBlock ?E (word_of_int tid)) u1 = Some (Inr (), u2)" and
      block: "waitForBlock ?E u2 = Some (Inr (), t)"
    using assms by (auto simp: create_worker_def Let_def bindP_eq_Inr split: if_splits)
  have "not_started (new_ThreadContext (os_handle (tc (ct u))) False sp)" by (auto simp: not_started_def)
  moreover have "handleCloneRequestP ?E (new_ThreadContext (os_handle (tc (ct u))) False sp) (ct u)
      = Some (Inr (tid, c), ct u1)"
    using clone by (auto simp: on_main_def split: option.splits)
  ultimately have "started c \<or> not_started c"
    by (metis clone_request_worker)
  then show ?thesis using waitForBlock_done [OF block unBlock_running [OF unblock]] by simp
qed

lemma created_facts:
  assumes "veo_proc__create S ossock vedev bin s = Some (Inr (Some p), t)"
  shows "ctx_state (main_thread (fst p)) = VEO_STATE_BLOCKED" "sym_name (fst p) = Map.empty"
    "started (snd p) \<or> not_started (snd p)"
proof -
  from assms have "new_ProcHandle S ossock vedev bin s = Some (Inr p, t)" by (simp add: create_returned)
  then obtain fs s5 s6 where w: "create_worker S fs s5 = Some (Inr (snd p), s6)"
      and p: "fst p = \<lparr>sym_name = Map.empty, main_thread = tc (ct s6), funcs = fs,
        num_child_threads = tid_counter (penv S) (os (ct s6)), ve_number = ve_number (fst p)\<rparr>"
    by (rule new_ProcHandle_returned)
  note facts = create_worker_returned [OF w]
  show "ctx_state (main_thread (fst p)) = VEO_STATE_BLOCKED" "sym_name (fst p) = Map.empty"
    by (subst p, simp add: facts)+
  show "started (snd p) \<or> not_started (snd p)" using facts by simp
qed

lemma process_state_sel [simp]:
  "tc (wk (process_state p s)) = snd p" "ph (process_state p s) = fst p" "os (wk (process_state p s)) = os (ct s)"
  by (simp_all add: process_state_def)

text \<open>
  C24: a created process is ready for use.  Its main thread is blocked and no symbol is cached;
  when the VE OS has started the worker and its VE thread has come to the first block request,
  the pseudo thread takes the stack pointer from that request and waits in its event loop, idle.
\<close>

theorem created_process_ready:
  assumes "veo_proc__create S ossock vedev bin s = Some (Inr (Some p), t)"
    and "ctx_state (snd p) = VEO_STATE_RUNNING"
    and "defaultExceptionHandler (veos_env (penv S)) 0 (wk (process_state p t))
         = Some (Inr (VEO_HANDLER_STATUS_BLOCK_REQUESTED, exs), u)"
    and "vedl_get_syscall_args (veos_env (penv S)) (os_handle (snd p)) (os u) 0 = VE_SYSVE_VEO_BLOCK"
  shows "ctx_state (main_thread (fst p)) = VEO_STATE_BLOCKED \<and> sym_name (fst p) = Map.empty
     \<and> (\<exists>v. startEventLoop (veos_env (penv S)) (os_handle (snd p)) (wk (process_state p t)) = Some (Inr LoopWaiting, v)
          \<and> idle v \<and> ve_sp (tc v) = vedl_get_syscall_args (veos_env (penv S)) (os_handle (snd p)) (os u) 5)"
proof -
  let ?E = "veos_env (penv S)" and ?s = "wk (process_state p t)"
  let ?v = "u\<lparr>tc := (tc u)\<lparr>ve_sp := vedl_get_syscall_args ?E (os_handle (snd p)) (os u) 5\<rparr>\<rparr>"
  obtain h h' sp where c: "snd p = thread_started h (new_ThreadContext h' False sp)"
    using created_facts(3) [OF assms(1)] assms(2)
    by (auto simp: started_def not_started_def new_ThreadContext_def)
  have same: "?s\<lparr>tc := thread_started (os_handle (snd p)) (tc ?s)\<rparr> = ?s"
    by (simp add: process_state_def c thread_started_def)
  have out: "same_but_ve ?s u" "ctx_state (tc u) = VEO_STATE_BLOCKED"
    using defaultExceptionHandler_outcomes [OF assms(3)] assms(2) by (auto simp: handler_status_defs)
  then have u: "os_handle (tc u) = os_handle (snd p)" "comq (tc u) = new_CommQueue"
    by (auto simp: same_but_ve_def c thread_started_def new_ThreadContext_def)
  then have v: "pending ?v = []" "completed ?v = []" "bq_state (request (comq (tc ?v))) = VEO_QUEUE_READY"
    by (simp_all add: pending_def completed_def new_CommQueue_def new_BlockingQueue_def)
  have "startEventLoop ?E (os_handle (snd p)) ?s = bindP (collectReturnValue ?E) (\<lambda>_. eventLoop ?E) u"
    using assms(3) same by (simp add: startEventLoop_def)
  also have "\<dots> = eventLoop ?E ?v"
    using assms(4) u(1) by (simp add: collectReturnValue_def)
  also have "\<dots> = Some (Inr LoopWaiting, ?v)"
    using out(2) by (simp add: eventLoop_process [OF v(1)])
  finally have "startEventLoop ?E (os_handle (snd p)) ?s = Some (Inr LoopWaiting, ?v)" .
  moreover have "idle ?v" using v out(2) by (simp add: idle_def ready_def)
  ultimately show ?thesis using created_facts(1,2) [OF assms(1)] by auto
qed

text \<open>A context with an open queue that nobody serves.\<close>

definition deserted :: "'os tstate \<Rightarrow> bool" where
  "deserted s \<longleftrightarrow> ctx_state (tc s) = VEO_STATE_UNKNOWN \<and> completed s = []
     \<and> bq_state (request (comq (tc s))) = VEO_QUEUE_READY"

lemma deserted_hangs:
  assumes "deserted s"
  shows "bindP (submit f) (\<lambda>i. bindP (callWaitResult E i) k) s = None"
    and "exit_request E addr ref s = None"
proof -
  let ?i = "fst (fetch_id (seq_no (tc s)))"
  have sub: "submit f s = Some (Inr ?i, set_pending (pending s @ [new_Command ?i f]) (issued s))" for f
    using assms by (simp add: submitted_state deserted_def)
  have "callWaitResult E ?i (set_pending (pending s @ [new_Command ?i f]) (issued s)) = None"
    using assms by (intro callWaitResult_stranded) (simp_all add: deserted_def)
  with sub show "bindP (submit f) (\<lambda>i. bindP (callWaitResult E i) k) s = None" by simp
  have "await E ?i (set_pending (pending s @ [new_Command ?i f]) (issued s)) = None" for f
    using assms by (intro await_stranded) (simp_all add: deserted_def)
  with sub [unfolded submit_def] show "exit_request E addr ref s = None"
    using assms by (simp add: exit_request_def issueRequestID_eq push_request_def pushRequest_def
        deserted_def set_comq_def issued_def set_pending_def pending_def bq_push_def)
qed

text \<open>
  C33: the constructor goes on when the VE OS does not start the worker, and returns a handle of a
  process without one.  No request on it is ever completed: allocating memory, a memory transfer
  and destroying the process never return.
\<close>

theorem process_without_worker:
  fixes S :: "'os spawn_env"
  assumes "veo_proc__create S ossock vedev bin s = Some (Inr (Some p), t)"
    and "ctx_state (snd p) \<noteq> VEO_STATE_RUNNING"
    and "alloc_buff (funcs (fst p)) \<noteq> 0" and "exit_func (funcs (fst p)) \<noteq> 0"
  shows "allocBuff P sz (process_state p t) = None
     \<and> proc_readMem P dst src n (process_state p t) = None
     \<and> exitProc P (process_state p t) = None"
proof -
  let ?s = "process_state p t"
  obtain h sp where c: "snd p = new_ThreadContext h False sp"
    using created_facts(3) [OF assms(1)] assms(2)
    by (auto simp: started_def not_started_def thread_started_def)
  let ?f = "alloc_buff (funcs (fst p))" and ?x = "exit_func (funcs (fst p))"
  have tc: "tc (wk (enter_args ca ?s)) = snd p" for ca by simp
  have empty: "deserted s" "ctx_state (tc s) = VEO_STATE_UNKNOWN" if "tc s = snd p" for s :: "'os tstate"
    using that c by (simp_all add: deserted_def completed_def new_ThreadContext_def new_CommQueue_def
        new_BlockingQueue_def)
  have "doOnContext E ?f ref s = None" if "tc s = snd p" for E ref and s :: "'os tstate"
  proof -
    have "callAsync ?f ref s = submit (CallFunction ?f ref) s"
      using empty(2) [OF that] assms(3) by (simp add: callAsync_def)
    then have "doOnContext E ?f ref s
        = bindP (submit (CallFunction ?f ref)) (\<lambda>i. bindP (callWaitResult E i) request_value) s"
      unfolding doOnContext_def by (rule bindP_same)
    then show ?thesis by (simp only: deserted_hangs(1) [OF empty(1) [OF that]])
  qed
  then have "allocBuff P sz ?s = None"
    by (simp add: allocBuff_def with_args_eq on_worker_def tc)
  moreover have "asyncReadMem dst src n (wk ?s) = submit (ReadMem dst src n) (wk ?s)"
    using empty(2) [of "wk ?s"] by (simp add: asyncReadMem_def)
  then have "bindP (asyncReadMem dst src n) (\<lambda>i. bindP (callWaitResult (veos_env P) i) transfer_value) (wk ?s)
      = bindP (submit (ReadMem dst src n)) (\<lambda>i. bindP (callWaitResult (veos_env P) i) transfer_value) (wk ?s)"
    by (rule bindP_same)
  then have "proc_readMem P dst src n ?s = None"
    by (simp only: proc_readMem_def on_worker_def deserted_hangs(1) [OF empty(1)] process_state_sel option.case)
  moreover have "exit_request E ?x ref (wk (enter_args ca ?s)) = None" for E ref ca
    using deserted_hangs(2) [OF empty(1)] tc by blast
  then have "exitProc P ?s = None"
    using assms(4) created_facts(1) [OF assms(1)] by (simp add: exitProc_def with_args_eq on_worker_def)
  ultimately show ?thesis by simp
qed

text \<open>
  A creation that fails after the VE process was started is final.  When the main thread does
  not come to its first block request the caller gets NULL and the errno of the exception, but
  the process stays counted, so that no process can be created any more, and nothing is done
  about the VE OS handle or the VE process.
\<close>

theorem failed_start_is_final:
  assumes "sscanf_int ''/dev/veslot'' vedev = Inr number"
    and "open_main_thread S ossock vedev (s\<lparr>ve_proc_sigmask := sig_mask s, sig_mask := UNIV\<rparr>) = Some (Inr h, s1)"
    and "spawn_process S h bin s1 = Some (Inr (), s2)"
    and "waitForBlock (veos_env (penv S)) (s2\<lparr>ct := (ct s2)\<lparr>tc := (tc (ct s2))\<lparr>ctx_state := VEO_STATE_RUNNING\<rparr>\<rparr>\<rparr>)
         = Some (Inl (VEOException msg err), s3)"
  shows "\<exists>t. veo_proc__create S ossock vedev bin s = Some (Inr None, t)
     \<and> cur_errno t = err \<and> proc_no t = 1 \<and> os (ct t) = os (ct s3)"
proof -
  have "proc_no s2 = 1" using spawn_process_count [OF assms(3)] by simp
  then have "proc_no s3 = 1" using count_kept [OF count.keeps_waitForBlock assms(4)] by simp
  moreover have "new_ProcHandle S ossock vedev bin s
      = Some (Inl (VEOException msg err), s3\<lparr>sig_mask := sig_mask s, g_handle := None\<rparr>)"
    using assms by (simp add: new_ProcHandle_def with_signals_blocked_def bindP_def [of "resultP _"])
  ultimately show ?thesis by (simp add: veo_proc__create_def catchP_def)
qed

section \<open>The file for system call arguments\<close>

text \<open>
  The shared page for system call arguments.  It is a file in the directory of the VE OS node
  that the socket belongs to, cut to a page, mapped and cleared, and its address is made known
  to the driver.  When the file cannot be sized or mapped the failure is reported, but the file
  is neither closed nor removed.
\<close>

theorem init_lhm_shm_area_outcomes:
  assumes "veos_sock_name S h (os (ct s)) = dir @ ''/veos'' @ print_int n @ ''.sock''"
    and "0 \<le> n" "in_int_range n" "dir \<noteq> []" "last dir \<noteq> CHR ''/''" "length dir < 4096"
    and "mkstemp S (dir @ ''/veos'' @ print_int n @ ''-tmp/ve_exec_XXXXXX'') (os (ct s)) = ((fd, path), w1)"
    and "0 \<le> fd" and "ftruncate S fd 4096 w1 = (rv, w2)" and "mmap_shared S fd 4096 w2 = (area, w3)"
  shows "init_lhm_shm_area S h s =
     (if rv = - 1 then Some (Inr (- 1, n, path), s\<lparr>ct := (ct s)\<lparr>os := w2\<rparr>\<rparr>)
      else if area = - 1 then Some (Inr (- 1, n, path), s\<lparr>ct := (ct s)\<lparr>os := w3\<rparr>\<rparr>)
      else Some (Inr (fd, n, path), s\<lparr>ct := (ct s)\<lparr>os := vedl_set_shm_lhm_addr S h area w3,
                    vh_mem := mem_write (vh_mem (ct s)) area (replicate 4096 0)\<rparr>\<rparr>))"
proof -
  let ?sock = "dir @ ''/veos'' @ print_int n @ ''.sock''" and ?file = "''veos'' @ print_int n @ ''.sock''"
  let ?tmp = "dir @ ''/veos'' @ print_int n @ ''-tmp/ve_exec_XXXXXX''"
  have "basename ?sock = ?file" "dirname ?sock = dir"
    using basename_file [OF _ no_slash, of n dir] dirname_file [OF _ no_slash assms(4,5), of n] by simp_all
  then have names: "get_ve_node_num 0 (basename ?sock) = Inr n" "dirname ?sock = dir"
    using get_ve_node_num_socket [OF assms(3,2)] by metis+
  have fits: "in_buffer (NAME_MAX + PATH_MAX) ?sock = Inr ?sock" "in_buffer (NAME_MAX + PATH_MAX) ?tmp = Inr ?tmp"
    using length_print_int [OF assms(3)] assms(6) by (simp_all add: in_buffer_def NAME_MAX_def PATH_MAX_def)
  have "init_lhm_shm_area S h s = bindP (os_step (mkstemp S ?tmp))
      (\<lambda>(fd, path). if fd < 0 then returnP (- 1, n, path)
          else bindP (os_step (ftruncate S fd PAGE_SIZE_4KB))
            (\<lambda>retval. if retval = - 1 then returnP (- 1, n, path)
               else bindP (os_step (mmap_shared S fd PAGE_SIZE_4KB))
                 (\<lambda>area. if area = - 1 then returnP (- 1, n, path)
                    else bindP (memset area 0 PAGE_SIZE_4KB)
                      (\<lambda>_. bindP (os_upd (vedl_set_shm_lhm_addr S h area))
                      (\<lambda>_. returnP (fd, n, path)))))) s"
    unfolding init_lhm_shm_area_def os_get_def bindP_chain assms(1) fits bindP_resultP names ..
  then show ?thesis
    using assms(7-10) by (simp add: os_step_def bindP_def PAGE_SIZE_4KB_def memset_def os_upd_def)
qed

text \<open>
  Once the VE OS has been asked for the process, the file of system call arguments is closed
  and removed, whether the request succeeds or fails, and no other outcome is possible than
  zero or the negative code of the VE OS.
\<close>

theorem syscall_file_removed:
  "\<exists>rv w. request_new_process S h bin (fd, node, sfile) s
       = Some (Inr rv, s\<lparr>ct := (ct s)\<lparr>os := unlink S sfile (close_fd S fd w)\<rparr>\<rparr>) \<and> rv \<le> 0"
  by (auto simp: request_new_process_def os_get_def os_step_def os_upd_def close_syscall_args_file_def
      bindP_def split: prod.split)

end
