(* ===== verification/Creation_Examples.thy ===== *)
theory Creation_Examples
  imports Process_Examples Creation_Properties
begin

text \<open>
  The properties of the creation of processes on concrete inputs: an environment in which
  everything succeeds, over the example machine.
\<close>

section \<open>An environment\<close>

text \<open>The main thread stops at a block request, at clone, and at a block request again.\<close>

definition ex_sysnum :: "nat \<Rightarrow> machine \<Rightarrow> int" where
  "ex_sysnum h w = (if length (m_events w) = 2 then 56 else 316)"

definition ex_spawn_env :: "machine spawn_env" where
  "ex_spawn_env =
     \<lparr>penv = ex_proc_env\<lparr>veos_env := scripted ex_sysnum\<rparr>, sizeof_ver2 = 64, sizeof_ver3 = 72, sizeof_ver4 = 80,
      decode_funcs = (\<lambda>bs. ex_funcs), raw_funcs = [],
      veos_handle_create = (\<lambda>dev sock w. (Some 3, w)), veos_sock_name = (\<lambda>h w. ''/run/veos0.sock''),
      PTRACE_PRIVATE_DATA = 0x7000, ACCT_COMM = 16, S_FILE_LEN = 20, AT_QUICKCALL_VADDR = 24,
      environ = [0x100, 0x200], getauxval = (\<lambda>t. if t = 6 then 4096 else 0),
      mmap_ptrace = (\<lambda>w. (0x7000, w)), munmap = (\<lambda>a w. w), set_main_tid = (\<lambda>h w. w),
      rwlockattr_init = (\<lambda>w. (0, w)), rwlockattr_setkind = (\<lambda>w. (0, w)), rwlock_init = (\<lambda>w. (0, w)),
      rwlockattr_destroy = (\<lambda>w. (0, w)), mkstemp = (\<lambda>t w. ((9, t), w)), ftruncate = (\<lambda>fd n w. (0, w)),
      mmap_shared = (\<lambda>fd n w. (0x8000, w)), vedl_set_shm_lhm_addr = (\<lambda>h a w. w),
      vedl_get_shm_lhm_addr = (\<lambda>h w. 0x8000), close_fd = (\<lambda>fd w. w), unlink = (\<lambda>name w. w),
      gettid = (\<lambda>w. 1000), getppid = (\<lambda>w. 999), psm_send_new_ve_process = (\<lambda>h r w. (0, w)),
      psm_recv_load_binary_req = (\<lambda>h w. (0, w)), vedl_set_syscall_area_offset = (\<lambda>h w. w),
      init_vemva_header = (\<lambda>w. (0, w)), pse_load_binary = (\<lambda>name h w. ((0, []), w)),
      init_stack = (\<lambda>h args env req w. ((0, req), w)), set_ve_info = (\<lambda>w req. req),
      psm_send_start_ve_proc_req = (\<lambda>req h w. (0, w)), psm_recv_start_ve_proc = (\<lambda>h w. (0, w)),
      sigaction_SIGCONT = (\<lambda>w. (0, w)), kill_self = (\<lambda>sig w. w), ve_sa_sigaction_handler = (\<lambda>sig w. w)\<rparr>"

lemma ex_spawn_env_sel [simp]:
  "penv ex_spawn_env = ex_proc_env\<lparr>veos_env := scripted ex_sysnum\<rparr>"
  "decode_funcs ex_spawn_env bs = ex_funcs" "raw_funcs ex_spawn_env = []" "sizeof_ver2 ex_spawn_env = 64"
  "veos_handle_create ex_spawn_env dev sock w = (Some 3, w)" "veos_sock_name ex_spawn_env h w = ''/run/veos0.sock''"
  "PTRACE_PRIVATE_DATA ex_spawn_env = 0x7000" "mmap_ptrace ex_spawn_env w = (0x7000, w)"
  "set_main_tid ex_spawn_env h w = w"
  "rwlockattr_init ex_spawn_env w = (0, w)" "rwlockattr_setkind ex_spawn_env w = (0, w)"
  "rwlock_init ex_spawn_env w = (0, w)" "rwlockattr_destroy ex_spawn_env w = (0, w)"
  "mkstemp ex_spawn_env t w = ((9, t), w)" "ftruncate ex_spawn_env fd n w = (0, w)"
  "mmap_shared ex_spawn_env fd n w = (0x8000, w)" "vedl_set_shm_lhm_addr ex_spawn_env h a w = w"
  "close_fd ex_spawn_env fd w = w" "unlink ex_spawn_env name w = w"
  "psm_send_new_ve_process ex_spawn_env h r w = (0, w)" "psm_recv_load_binary_req ex_spawn_env h w = (0, w)"
  "vedl_set_syscall_area_offset ex_spawn_env h w = w" "init_vemva_header ex_spawn_env w = (0, w)"
  "pse_load_binary ex_spawn_env name h w = ((0, []), w)" "init_stack ex_spawn_env h args env req w = ((0, req), w)"
  "set_ve_info ex_spawn_env w req = req" "psm_send_start_ve_proc_req ex_spawn_env req h w = (0, w)"
  "psm_recv_start_ve_proc ex_spawn_env h w = (0, w)" "sigaction_SIGCONT ex_spawn_env w = (0, w)"
  by (simp_all add: ex_spawn_env_def)

definition ex_create :: "int \<Rightarrow> machine cstate" where
  "ex_create tid =
     \<lparr>ct = (idle_state raw_args)\<lparr>os := blocking_machine\<lparr>m_events := replicate 4 (0, 0, 0x1000), m_clone := tid\<rparr>\<rparr>,
      proc_no = 0, g_handle = None, sig_mask = {2}, ve_proc_sigmask = {}, cur_errno = 0,
      args_slot = 5, raw_slot = raw_args\<rparr>"

section \<open>Names and files\<close>

theorem node_names_roundtrip_witness:
  "\<exists>ossock vedev. select_node (Some ''3 5'') None 1 = Inr (Some 5)
     \<and> get_ve_node_num 0 (basename ossock) = Inr 5 \<and> sscanf_int ''/dev/veslot'' vedev = Inr (Some 5)
     \<and> veo_proc_create_static (\<lambda>n. ''/dev/veslot'' @ print_int n) (\<lambda>n. ''/run'' @ ''/veos'' @ print_int n @ ''.sock'')
         33 (veo_proc__create ex_spawn_env) (Some ''3 5'') None 1 ''veorun'' = veo_proc__create ex_spawn_env ossock vedev ''veorun''"
proof -
  have sel: "select_node (Some ''3 5'') None 1 = Inr (Some 5)"
    by (simp add: select_node_def split_spaces.simps stoi_def scan_int_def is_space_def is_digit_def
        digits_value_def in_int_range_def INT_MIN_def INT_MAX_def)
  have "in_int_range 5" "(33 :: nat) = length (''/run'' @ ''/veos%d.sock'') + 1 + 16"
    by (simp_all add: in_int_range_def INT_MIN_def INT_MAX_def)
  from node_names_roundtrip [OF sel _ this, of "veo_proc__create ex_spawn_env" "''veorun''"] sel
  show ?thesis by auto
qed

lemma ex_shm: "init_lhm_shm_area ex_spawn_env 3 s = Some (Inr (9, 0, ''/run/veos0-tmp/ve_exec_XXXXXX''),
    s\<lparr>ct := (ct s)\<lparr>vh_mem := mem_write (vh_mem (ct s)) 0x8000 (replicate 4096 0)\<rparr>\<rparr>)"
proof -
  have "get_ve_node_num 0 (basename ''/run/veos0.sock'') = Inr 0" "dirname ''/run/veos0.sock'' = ''/run''"
    by (simp_all add: basename_def dirname_def strip_slashes_def is_digit_def in_int_range_def INT_MIN_def INT_MAX_def)
  then show ?thesis
    by (simp add: init_lhm_shm_area_def os_get_def os_step_def os_upd_def memset_def in_buffer_def NAME_MAX_def
        PATH_MAX_def PAGE_SIZE_4KB_def print_int_def print_nat.simps char_of_def bit_Suc_0_iff)
qed

section \<open>A creation\<close>

lemma ex_spawn:
  "spawn_helper ex_spawn_env 3 ''veorun'' s = Some (Inr 0, s\<lparr>ct := (ct s)\<lparr>vh_mem :=
     mem_write (mem_write (vh_mem (ct s)) 0x7000 (replicate 4096 0)) 0x8000 (replicate 4096 0)\<rparr>\<rparr>)"
  by (simp add: spawn_helper_def map_ptrace_private_def os_get_def os_step_def os_upd_def memset_def
      init_rwlock_to_sync_dma_fork_def or_abort_def ex_shm request_new_process_def
      close_syscall_args_file_def load_program_def in_buffer_def PATH_MAX_def make_env_array_eq start_process_def)

lemma scripted_default_block:
  "m_sysargs (os s) = block_args \<Longrightarrow>
     defaultFilter (scripted g) 316 s = Some (Inr (True, 1), s\<lparr>tc := (tc s)\<lparr>ctx_state := VEO_STATE_BLOCKED\<rparr>\<rparr>)"
  by (simp add: defaultFilter_eq default_filtered_syscalls_def is_veo_block_def NR_ve_sysve_def
      block_args_def handler_status_defs)

lemma ex_wait:
  assumes "ctx_state (tc (ct s)) = VEO_STATE_RUNNING" and "m_events (os (ct s)) = (0, 0, 0x1000) # es"
    and "length es \<noteq> 2" and "m_sysargs (os (ct s)) = block_args"
  shows "waitForBlock (scripted ex_sysnum) s = Some (Inr (), s\<lparr>ct := (ct s)\<lparr>os := (os (ct s))\<lparr>m_events := es\<rparr>,
     tc := (tc (ct s))\<lparr>ctx_state := VEO_STATE_BLOCKED\<rparr>\<rparr>\<rparr>)"
proof -
  let ?t = "(ct s)\<lparr>os := (os (ct s))\<lparr>m_events := es\<rparr>, tc := (tc (ct s))\<lparr>ctx_state := VEO_STATE_BLOCKED\<rparr>\<rparr>"
  have "defaultExceptionHandler (scripted ex_sysnum) 0 (ct s) = Some (Inr (1, 0x1000), ?t)"
    unfolding defaultExceptionHandler_def
    by (rule scripted_handler [OF assms(1,2)])
      (use assms(3,4) in \<open>simp_all add: ex_sysnum_def scripted_default_block\<close>)
  then show ?thesis by (simp add: waitForBlock_def on_main_def handler_status_defs)
qed

lemma ex_worker:
  assumes "tc (ct s) = c" "ctx_state c = VEO_STATE_BLOCKED" "os_handle c = 3"
    and "m_events (os (ct s)) = replicate 3 (0, 0, 0x1000)" "m_sysargs (os (ct s)) = block_args"
    and "raw_slot s = raw_args"
  shows "\<exists>t. create_worker ex_spawn_env ex_funcs s = Some (Inr
        (if m_clone (os (ct s)) < 0 then new_ThreadContext 3 False 0
         else thread_started 7 (new_ThreadContext 3 False 0)), t)
     \<and> m_events (os (ct t)) = [(0, 0, 0x1000)] \<and> m_sysargs (os (ct t)) = block_args"
proof -
  let ?E = "scripted ex_sysnum" and ?ca = "raw_args\<lparr>arguments := [Some (ArgI32 (- 1))]\<rparr>"
  let ?s1 = "(ct s)\<lparr>args_heap := (args_heap (ct s))(args_slot s \<mapsto> ?ca)\<rparr>"
  have arg: "set_arg (new_CallArgs raw_args) 0 (ArgI32 (- 1)) = Inr ?ca"
    by (simp add: set_arg_def store_arg_def new_CallArgs_def INT_MAX_def raw_args_def)
  obtain u where u: "doCall ?E 0x1500 (args_slot s) ?s1 = Some (Inr (), u)"
      "ctx_state (tc u) = VEO_STATE_RUNNING" "os_handle (tc u) = 3" "m_events (os u) = replicate 3 (0, 0, 0x1000)"
      "m_sysargs (os u) = block_args" "m_clone (os u) = m_clone (os (ct s))"
    using scripted_doCall [of ?s1 "args_slot s" ?ca "[ArgI32 (- 1)]" ex_sysnum "0x1500"] assms
    by (auto simp: image_size_defs)
  let ?u1 = "u\<lparr>os := (os u)\<lparr>m_events := replicate 2 (0, 0, 0x1000)\<rparr>\<rparr>"
  have hook: "exceptionHandler ?E (hookCloneFilter ?E) 0 u = Some (Inr (56, 0x1000), ?u1)"
    by (rule scripted_handler [where es = "replicate 2 (0, 0, 0x1000)"])
      (use u in \<open>simp_all add: ex_sysnum_def hookCloneFilter_def numeral_3_eq_3 numeral_2_eq_2\<close>)
  let ?w = "if m_clone (os u) < 0 then new_ThreadContext 3 False 0 else thread_started 7 (new_ThreadContext 3 False 0)"
  have clone: "handleCloneRequestP ?E (new_ThreadContext 3 False 0) ?u1 = Some (Inr (m_clone (os u), ?w), ?u1)"
    by (simp add: handleCloneRequestP_def handleCloneRequest_def)
  let ?u2 = "s\<lparr>ct := ?u1\<lparr>tc := (tc ?u1)\<lparr>ctx_state := VEO_STATE_RUNNING\<rparr>\<rparr>\<rparr>"
  have block: "waitForBlock ?E ?u2 = Some (Inr (), ?u2\<lparr>ct := (ct ?u2)\<lparr>os := (os (ct ?u2))\<lparr>m_events := [(0, 0, 0x1000)]\<rparr>,
      tc := (tc (ct ?u2))\<lparr>ctx_state := VEO_STATE_BLOCKED\<rparr>\<rparr>\<rparr>)"
    by (rule ex_wait) (use u in \<open>simp_all add: numeral_2_eq_2\<close>)
  show ?thesis
    using u hook clone block arg assms(6)
    by (simp add: create_worker_def put_args_def on_main_def is_clone_request_def os_step_def unBlock_def os_do_def
        set_state_def Let_def)
qed

lemma ex_created:
  "\<exists>p t. veo_proc__create ex_spawn_env ''/run/veos0.sock'' ''/dev/veslot0'' ''veorun'' (ex_create tid)
       = Some (Inr (Some p), t)
     \<and> snd p = (if tid < 0 then new_ThreadContext 3 False 0 else thread_started 7 (new_ThreadContext 3 False 0))
     \<and> funcs (fst p) = ex_funcs
     \<and> m_events (os (ct t)) = [(0, 0, 0x1000)] \<and> m_sysargs (os (ct t)) = block_args"
proof -
  let ?E = "scripted ex_sysnum" and ?s = "ex_create tid" and ?S = ex_spawn_env
  let ?s1 = "(constructing ?s)\<lparr>g_handle := Some 3, ct := (ct ?s)\<lparr>tc := new_ThreadContext 3 True 0\<rparr>\<rparr>"
  have s1: "open_main_thread ?S ''/run/veos0.sock'' ''/dev/veslot0'' (constructing ?s) = Some (Inr 3, ?s1)"
    by (simp add: open_main_thread_def os_step_def)
  obtain m where s2: "spawn_process ?S 3 ''veorun'' ?s1 = Some (Inr (), ?s1\<lparr>ct := (ct ?s1)\<lparr>vh_mem := m\<rparr>, proc_no := 1\<rparr>)"
    by (simp add: spawn_process_def ex_spawn ex_create_def)
  let ?s1' = "?s1\<lparr>ct := (ct ?s1)\<lparr>vh_mem := m\<rparr>, proc_no := 1\<rparr>"
  let ?s2 = "?s1'\<lparr>ct := (ct ?s1')\<lparr>tc := (tc (ct ?s1'))\<lparr>ctx_state := VEO_STATE_RUNNING\<rparr>\<rparr>\<rparr>"
  let ?s3 = "?s2\<lparr>ct := (ct ?s2)\<lparr>os := (os (ct ?s2))\<lparr>m_events := replicate 3 (0, 0, 0x1000)\<rparr>,
     tc := (tc (ct ?s2))\<lparr>ctx_state := VEO_STATE_BLOCKED\<rparr>\<rparr>\<rparr>"
  have s3: "waitForBlock ?E ?s2 = Some (Inr (), ?s3)"
    by (rule ex_wait) (simp_all add: ex_create_def blocking_machine_def numeral_eq_Suc)
  let ?s4 = "?s3\<lparr>ct := (ct ?s3)\<lparr>tc := (tc (ct ?s3))\<lparr>ve_sp := 0x10000\<rparr>\<rparr>\<rparr>"
  have s4: "on_main (collectReturnValue ?E) ?s3 = Some (Inr 42, ?s4)"
    by (simp add: on_main_def collectReturnValue_def ex_create_def blocking_machine_def block_args_def VE_SYSVE_VEO_BLOCK_def)
  have s5: "receive_helper_functions ?S 3 42 ?s4 = Some (Inr ex_funcs, ?s4)"
    by (simp add: receive_helper_functions_def recv_funcs_def os_step_def funcs_size_def ex_proc_env_def ex_funcs_def)
  obtain t where t: "create_worker ?S ex_funcs ?s4 = Some (Inr (if tid < 0 then new_ThreadContext 3 False 0
         else thread_started 7 (new_ThreadContext 3 False 0)), t)"
      "m_events (os (ct t)) = [(0, 0, 0x1000)]" "m_sysargs (os (ct t)) = block_args"
    using ex_worker [of ?s4 "tc (ct ?s4)"]
    by (auto simp: ex_create_def blocking_machine_def new_ThreadContext_def constructing_def)
  have number: "sscanf_int ''/dev/veslot'' ''/dev/veslot0'' = Inr (Some 0)"
    by (simp add: sscanf_int_def scan_int_def is_space_def is_digit_def digits_value_def in_int_range_def
        INT_MIN_def INT_MAX_def)
  show ?thesis
    using s1 s2 s3 s4 s5 t number
    by (simp add: veo_proc__create_def catchP_def new_ProcHandle_def with_signals_blocked_def constructing_def [symmetric])
qed


theorem created_process_ready_witness:
  "\<exists>p t v. veo_proc__create ex_spawn_env ''/run/veos0.sock'' ''/dev/veslot0'' ''veorun'' (ex_create 1234)
       = Some (Inr (Some p), t)
     \<and> startEventLoop (scripted ex_sysnum) 7 (wk (process_state p t)) = Some (Inr LoopWaiting, v)
     \<and> idle v \<and> ve_sp (tc v) = 0x10000"
proof -
  obtain p t where p: "veo_proc__create ex_spawn_env ''/run/veos0.sock'' ''/dev/veslot0'' ''veorun'' (ex_create 1234)
        = Some (Inr (Some p), t)" "snd p = thread_started 7 (new_ThreadContext 3 False 0)"
      "m_events (os (ct t)) = [(0, 0, 0x1000)]" "m_sysargs (os (ct t)) = block_args"
    using ex_created [of 1234] by auto
  let ?s = "wk (process_state p t)"
  let ?u = "?s\<lparr>os := (os ?s)\<lparr>m_events := []\<rparr>, tc := (tc ?s)\<lparr>ctx_state := VEO_STATE_BLOCKED\<rparr>\<rparr>"
  have run: "ctx_state (snd p) = VEO_STATE_RUNNING" "os_handle (snd p) = 7" using p(2) by (simp_all add: thread_started_def)
  have "defaultExceptionHandler (scripted ex_sysnum) 0 ?s = Some (Inr (VEO_HANDLER_STATUS_BLOCK_REQUESTED, 0x1000), ?u)"
    unfolding defaultExceptionHandler_def
    by (rule scripted_handler [where es = "[]"])
      (use p run in \<open>simp_all add: ex_sysnum_def scripted_default_block handler_status_defs\<close>)
  then have "defaultExceptionHandler (veos_env (penv ex_spawn_env)) 0 ?s
      = Some (Inr (VEO_HANDLER_STATUS_BLOCK_REQUESTED, 0x1000), ?u)" by simp
  from created_process_ready [OF p(1) run(1) this] p run show ?thesis
    by (auto simp: block_args_def VE_SYSVE_VEO_BLOCK_def)
qed

theorem process_without_worker_witness:
  "\<exists>p t. veo_proc__create ex_spawn_env ''/run/veos0.sock'' ''/dev/veslot0'' ''veorun'' (ex_create (- 12))
       = Some (Inr (Some p), t)
     \<and> allocBuff ex_proc_env 64 (process_state p t) = None"
proof -
  obtain p t where p: "veo_proc__create ex_spawn_env ''/run/veos0.sock'' ''/dev/veslot0'' ''veorun'' (ex_create (- 12))
        = Some (Inr (Some p), t)" "snd p = new_ThreadContext 3 False 0" "funcs (fst p) = ex_funcs"
    using ex_created [of "- 12"] by auto
  have "ctx_state (snd p) \<noteq> VEO_STATE_RUNNING" using p(2) by (simp add: new_ThreadContext_def)
  from process_without_worker [OF p(1) this] p(1,3) show ?thesis by auto
qed

text \<open>The same environment on a machine whose driver reports an error at once.\<close>

theorem failed_start_is_final_witness:
  "\<exists>t. veo_proc__create ex_spawn_env ''/run/veos0.sock'' ''/dev/veslot0'' ''veorun''
       ((ex_create 1)\<lparr>ct := (ct (ex_create 1))\<lparr>os := blocking_machine\<lparr>m_events := []\<rparr>\<rparr>\<rparr>) = Some (Inr None, t)
     \<and> cur_errno t = 5 \<and> proc_no t = 1"
proof -
  let ?s = "(ex_create 1)\<lparr>ct := (ct (ex_create 1))\<lparr>os := blocking_machine\<lparr>m_events := []\<rparr>\<rparr>\<rparr>" and ?S = ex_spawn_env
  let ?s0 = "?s\<lparr>ve_proc_sigmask := sig_mask ?s, sig_mask := UNIV\<rparr>"
  let ?s1 = "?s0\<lparr>g_handle := Some 3, ct := (ct ?s)\<lparr>tc := new_ThreadContext 3 True 0\<rparr>\<rparr>"
  have number: "sscanf_int ''/dev/veslot'' ''/dev/veslot0'' = Inr (Some 0)"
    by (simp add: sscanf_int_def scan_int_def is_space_def is_digit_def digits_value_def in_int_range_def
        INT_MIN_def INT_MAX_def)
  have s1: "open_main_thread ?S ''/run/veos0.sock'' ''/dev/veslot0'' ?s0 = Some (Inr 3, ?s1)"
    by (simp add: open_main_thread_def os_step_def)
  obtain s2 where s2: "spawn_process ?S 3 ''veorun'' ?s1 = Some (Inr (), s2)" "os (ct s2) = blocking_machine\<lparr>m_events := []\<rparr>"
    by (simp add: spawn_process_def ex_spawn ex_create_def)
  let ?s2 = "s2\<lparr>ct := (ct s2)\<lparr>tc := (tc (ct s2))\<lparr>ctx_state := VEO_STATE_RUNNING\<rparr>\<rparr>\<rparr>"
  have "wait_exception (scripted ex_sysnum) h (os (ct ?s2)) = Some (Inl (VEOException ''vedl_wait_exception failed'' 5), os (ct ?s2))" for h
    by (subst wait_exception.simps) (simp add: s2(2) EINTR_def)
  then have "defaultExceptionHandler (scripted ex_sysnum) 0 (ct ?s2) = Some (Inl (VEOException ''vedl_wait_exception failed'' 5), ct ?s2)"
    unfolding defaultExceptionHandler_def
    by (subst exceptionHandler.simps) (simp add: handleSingleException_def wait_exceptionP_def)
  then have "waitForBlock (veos_env (penv ?S)) ?s2 = Some (Inl (VEOException ''vedl_wait_exception failed'' 5), ?s2)"
    by (simp add: waitForBlock_def on_main_def)
  from failed_start_is_final [OF number s1 s2(1) this] show ?thesis by blast
qed

theorem init_lhm_shm_area_outcomes_witness:
  "\<exists>t. init_lhm_shm_area (ex_spawn_env\<lparr>ftruncate := (\<lambda>fd n w. (- 1, w))\<rparr>) 3 (ex_create 1)
       = Some (Inr (- 1, 0, ''/run/veos0-tmp/ve_exec_XXXXXX''), t)"
proof -
  have name: "print_int 0 = ''0''" by (simp add: print_int_def print_nat.simps char_of_def bit_Suc_0_iff)
  show ?thesis
    using init_lhm_shm_area_outcomes [where S = "ex_spawn_env\<lparr>ftruncate := (\<lambda>fd n w. (- 1, w))\<rparr>" and h = 3
        and s = "ex_create 1" and dir = "''/run''" and n = 0 and fd = 9
        and path = "''/run/veos0-tmp/ve_exec_XXXXXX''" and rv = "- 1"]
    by (simp add: name in_int_range_def INT_MIN_def INT_MAX_def)
qed

end
