(* ===== verification/Queue_Threads.thy ===== *)
theory Queue_Threads
  imports Command
begin

text \<open>
  The implementation of \<^verbatim>\<open>BlockingQueue\<close> (\<^verbatim>\<open>src/libveo/Command.cpp\<close>) with its mutex and its condition
  variable, for any number of threads.  A thread that finds nothing to take releases the mutex
  and sleeps in one step; \<^verbatim>\<open>notify_all\<close> wakes every sleeping thread, and a thread may also wake
  without reason; a thread that wakes has to get the mutex back, gives it up at the end of the
  round of its loop and begins the next round.

  It is shown that no wake-up is lost and that the operations are linearizable, so that each of
  them can be taken as the one step that it is in \<open>Command\<close> and \<open>Interleaving\<close>.
\<close>

section \<open>Threads\<close>

datatype 'h q_op = QPush "'h command" | QPop | QPopNoWait | QFind u64 | QWait u64

text \<open>What an operation does when it has the mutex: the result and the queue it leaves.\<close>

fun attempt :: "'h q_op \<Rightarrow> 'h blocking_queue \<Rightarrow> 'h command option \<times> 'h blocking_queue" where
  "attempt (QPush c) q = (None, bq_push q c)"
| "attempt QPop q = popNoWait q"
| "attempt QPopNoWait q = popNoWait q"
| "attempt (QFind m) q = tryFindNoLock q m"
| "attempt (QWait m) q = tryFindNoLock q m"

fun blocking :: "'h q_op \<Rightarrow> bool" where
  "blocking QPop = True"
| "blocking (QWait m) = True"
| "blocking op = False"

fun is_push :: "'h q_op \<Rightarrow> bool" where
  "is_push (QPush c) = True"
| "is_push op = False"

datatype 'h q_pc =
    QIdle
  | QBegin "'h q_op"
  | QHold "'h q_op"
  | QPushed "'h q_op"
  | QTaken "'h q_op" "'h command option"
  | QSleep "'h q_op"
  | QWake "'h q_op"
  | QAgain "'h q_op"
  | QReturned "'h q_op" "'h command option"

record 'h q_world =
  q_lock :: "nat option"
  q_queue :: "'h blocking_queue"
  q_pc :: "nat \<Rightarrow> 'h q_pc"
  q_log :: "(nat \<times> 'h q_op \<times> 'h command option) list"

definition q_goto :: "nat \<Rightarrow> 'h q_pc \<Rightarrow> 'h q_world \<Rightarrow> 'h q_world" where
  "q_goto t pc w = w\<lparr>q_pc := (q_pc w)(t := pc)\<rparr>"

fun woken :: "'h q_pc \<Rightarrow> 'h q_pc" where
  "woken (QSleep op) = QWake op"
| "woken pc = pc"

inductive q_step :: "nat \<Rightarrow> 'h q_world \<Rightarrow> 'h q_world \<Rightarrow> bool" for t where
  call: "q_pc w t = QIdle \<Longrightarrow> q_step t w (q_goto t (QBegin op) w)"
| lock: "q_pc w t = QBegin op \<Longrightarrow> q_lock w = None \<Longrightarrow>
    q_step t w (q_goto t (QHold op) (w\<lparr>q_lock := Some t\<rparr>))"
| push: "q_pc w t = QHold op \<Longrightarrow> is_push op \<Longrightarrow> attempt op (q_queue w) = (r, q') \<Longrightarrow>
    q_step t w (q_goto t (QPushed op) (w\<lparr>q_queue := q', q_log := q_log w @ [(t, op, r)]\<rparr>))"
| notify: "q_pc w t = QPushed op \<Longrightarrow>
    q_step t w (q_goto t (QTaken op None) (w\<lparr>q_pc := woken \<circ> q_pc w\<rparr>))"
| take: "q_pc w t = QHold op \<Longrightarrow> \<not> is_push op \<Longrightarrow> attempt op (q_queue w) = (r, q') \<Longrightarrow>
    r \<noteq> None \<or> \<not> blocking op \<Longrightarrow>
    q_step t w (q_goto t (QTaken op r) (w\<lparr>q_queue := q', q_log := q_log w @ [(t, op, r)]\<rparr>))"
| sleep: "q_pc w t = QHold op \<Longrightarrow> blocking op \<Longrightarrow> fst (attempt op (q_queue w)) = None \<Longrightarrow>
    q_step t w (q_goto t (QSleep op) (w\<lparr>q_lock := None\<rparr>))"
| spurious: "q_pc w t = QSleep op \<Longrightarrow> q_step t w (q_goto t (QWake op) w)"
| reacquire: "q_pc w t = QWake op \<Longrightarrow> q_lock w = None \<Longrightarrow>
    q_step t w (q_goto t (QAgain op) (w\<lparr>q_lock := Some t\<rparr>))"
| again: "q_pc w t = QAgain op \<Longrightarrow> q_step t w (q_goto t (QBegin op) (w\<lparr>q_lock := None\<rparr>))"
| unlock: "q_pc w t = QTaken op r \<Longrightarrow>
    q_step t w (q_goto t (QReturned op r) (w\<lparr>q_lock := None\<rparr>))"
| return: "q_pc w t = QReturned op r \<Longrightarrow> q_step t w (q_goto t QIdle w)"

definition q_fresh :: "'h q_world" where
  "q_fresh = \<lparr>q_lock = None, q_queue = new_BlockingQueue, q_pc = (\<lambda>_. QIdle), q_log = []\<rparr>"

inductive q_reach :: "'h q_world \<Rightarrow> bool" where
  init: "q_reach q_fresh"
| more: "q_reach w \<Longrightarrow> q_step t w w' \<Longrightarrow> q_reach w'"

section \<open>Mutual exclusion\<close>

fun q_holds :: "'h q_pc \<Rightarrow> bool" where
  "q_holds (QHold op) = True"
| "q_holds (QPushed op) = True"
| "q_holds (QTaken op r) = True"
| "q_holds (QAgain op) = True"
| "q_holds pc = False"

definition q_exclusive :: "'h q_world \<Rightarrow> bool" where
  "q_exclusive w \<longleftrightarrow> (\<forall>t. q_holds (q_pc w t) \<longleftrightarrow> q_lock w = Some t)"

lemma q_holds_woken [simp]: "q_holds (woken pc) = q_holds pc"
  by (cases pc) simp_all

lemma q_exclusive_step:
  assumes "q_step t w w'" and "q_exclusive w" shows "q_exclusive w'"
proof -
  have ex: "q_holds (q_pc w t') \<longleftrightarrow> q_lock w = Some t'" for t'
    using assms(2) by (simp add: q_exclusive_def)
  have "q_holds (q_pc w' t') \<longleftrightarrow> q_lock w' = Some t'" for t'
    using assms(1) ex [of t] ex [of t']
    by (cases rule: q_step.cases; cases "t' = t") (auto simp: q_goto_def)
  then show ?thesis by (simp add: q_exclusive_def)
qed

lemma q_reach_exclusive: "q_reach w \<Longrightarrow> q_exclusive w"
  by (induction rule: q_reach.induct)
    (simp add: q_exclusive_def q_fresh_def, blast intro: q_exclusive_step)

text \<open>The operations that \<open>Command\<close> defines.\<close>

lemma attempt_operations:
  "bq_pop q = Some (c, q') \<longleftrightarrow> attempt QPop q = (Some c, q')"
  "bq_wait q m = Some (c, q') \<longleftrightarrow> attempt (QWait m) q = (Some c, q')"
  "tryFind q m = attempt (QFind m) q" "popNoWait q = attempt QPopNoWait q"
  by (auto simp: bq_pop_def popNoWait_def bq_wait_def tryFind_def split: list.splits option.splits prod.splits)

section \<open>No lost wake-up\<close>

text \<open>Taking a command away does not give a thread that found nothing something to take.\<close>

lemma attempt_None_mono:
  assumes "fst (attempt op q) = None" and "blocking op" and "\<not> is_push op'" and "attempt op' q = (r, q')"
  shows "fst (attempt op q') = None"
proof -
  have sub: "set (bq_queue q') \<subseteq> set (bq_queue q)"
  proof (cases op')
    case (QFind m)
    then show ?thesis
      using assms(4) bq.find_key_cases [of m q] by (cases rule: bq.find_key_cases [of m q]) auto
  next
    case (QWait m)
    then show ?thesis
      using assms(4) by (cases rule: bq.find_key_cases [of m q]) auto
  qed (use assms(3,4) in \<open>auto simp: popNoWait_def split: list.splits\<close>)
  show ?thesis
  proof (cases op)
    case QPop
    then show ?thesis using assms(1) sub by (auto simp: popNoWait_def split: list.splits)
  next
    case (QWait m)
    then have "m \<notin> cmd_id ` set (bq_queue q)"
      using assms(1) by (simp add: bq.find_key_None_iff)
    then show ?thesis using QWait sub by (auto simp: bq.find_key_None_iff)
  qed (use assms(2) in simp_all)
qed

text \<open>A thread sleeps only while there is nothing for it, or while it is about to be notified.\<close>

definition q_attentive :: "'h q_world \<Rightarrow> bool" where
  "q_attentive w \<longleftrightarrow> (\<forall>t op. q_pc w t = QSleep op \<longrightarrow> blocking op)
     \<and> ((\<exists>t op. q_pc w t = QPushed op) \<or>
        (\<forall>t op. q_pc w t = QSleep op \<longrightarrow> fst (attempt op (q_queue w)) = None))"

lemma woken_cases: "woken pc \<noteq> QSleep op" "woken pc = QPushed op \<longleftrightarrow> pc = QPushed op"
  by (cases pc; simp)+

lemma q_attentive_quiet:
  assumes "q_attentive w" and "q_queue w' = q_queue w"
    and "\<And>t op. q_pc w' t = QSleep op \<Longrightarrow> q_pc w t = QSleep op"
    and "\<And>t op. q_pc w t = QPushed op \<Longrightarrow> q_pc w' t = QPushed op"
  shows "q_attentive w'"
  using assms unfolding q_attentive_def by metis

lemma q_pusher_alone:
  assumes "q_exclusive w" and "q_pc w t = QHold op"
  shows "q_pc w t' \<noteq> QPushed op'"
proof
  assume pushed: "q_pc w t' = QPushed op'"
  then have "q_lock w = Some t'" "q_lock w = Some t"
    using assms unfolding q_exclusive_def by (metis q_holds.simps(1,2))+
  then show False using assms(2) pushed by simp
qed

lemma q_attentive_step:
  assumes "q_step t w w'" and "q_attentive w" and "q_exclusive w"
  shows "q_attentive w'"
  using assms(1)
proof (cases rule: q_step.cases)
  case (push op r q')
  then have "q_pc w' t = QPushed op" by (simp add: q_goto_def)
  moreover have "blocking op'" if "q_pc w' t' = QSleep op'" for t' op'
    using assms(2) push that by (auto simp: q_attentive_def q_goto_def split: if_splits)
  ultimately show ?thesis unfolding q_attentive_def by blast
next
  case (notify op)
  then have "q_pc w' t' \<noteq> QSleep op'" for t' op'
    by (simp add: q_goto_def woken_cases)
  then show ?thesis by (simp add: q_attentive_def)
next
  case (take op r q')
  note alone = q_pusher_alone [OF assms(3) take(2)]
  have "blocking op' \<and> fst (attempt op' (q_queue w')) = None" if "q_pc w' t' = QSleep op'" for t' op'
  proof -
    have s: "q_pc w t' = QSleep op'" using take that by (auto simp: q_goto_def split: if_splits)
    then have "blocking op'" "fst (attempt op' (q_queue w)) = None"
      using assms(2) alone unfolding q_attentive_def by blast+
    then show ?thesis using attempt_None_mono take by (simp add: q_goto_def)
  qed
  then show ?thesis unfolding q_attentive_def by blast
next
  case (sleep op)
  have "blocking op' \<and> fst (attempt op' (q_queue w')) = None" if "q_pc w' t' = QSleep op'" for t' op'
    using assms(2) sleep that q_pusher_alone [OF assms(3) sleep(2)] unfolding q_attentive_def
    by (cases "t' = t") (auto simp: q_goto_def)
  then show ?thesis unfolding q_attentive_def by blast
qed (rule q_attentive_quiet [OF assms(2)]; auto simp: q_goto_def split: if_splits)+

lemma q_reach_attentive: "q_reach w \<Longrightarrow> q_attentive w"
proof (induction rule: q_reach.induct)
  case init
  show ?case by (simp add: q_attentive_def q_fresh_def)
next
  case (more w t w')
  then show ?case using q_attentive_step q_reach_exclusive by blast
qed

text \<open>
  C8: no wake-up is lost.  If a thread sleeps in \<^verbatim>\<open>pop()\<close> or \<^verbatim>\<open>wait(msgid)\<close> although the queue holds
  a command for it, then the thread that pushed has the mutex and is about to notify, and its
  next step wakes the sleeping thread.
\<close>

theorem no_lost_wakeup:
  assumes "q_reach w" and "q_pc w t = QSleep op" and "fst (attempt op (q_queue w)) \<noteq> None"
  shows "\<exists>t' op'. q_pc w t' = QPushed op' \<and> q_lock w = Some t'
     \<and> (\<forall>w'. q_step t' w w' \<longrightarrow> q_pc w' t = QWake op)"
proof -
  obtain t' op' where p: "q_pc w t' = QPushed op'"
    using q_reach_attentive [OF assms(1)] assms(2,3) unfolding q_attentive_def by metis
  moreover have "q_lock w = Some t'"
    using q_reach_exclusive [OF assms(1)] p unfolding q_exclusive_def by (metis q_holds.simps(2))
  moreover have "q_pc w' t = QWake op" if "q_step t' w w'" for w'
    using that p assms(2) by (cases rule: q_step.cases) (auto simp: q_goto_def)
  ultimately show ?thesis by blast
qed

section \<open>Linearizability\<close>

text \<open>
  The log has an entry for each operation at the moment it takes effect.  Replaying it on an
  empty queue, one operation after the other, checks every result.
\<close>

fun q_replay ::
  "'h blocking_queue \<Rightarrow> (nat \<times> 'h q_op \<times> 'h command option) list \<Rightarrow> 'h blocking_queue option" where
  "q_replay q [] = Some q"
| "q_replay q ((t, op, r) # es) =
     (case attempt op q of (r', q') \<Rightarrow> if r' = r then q_replay q' es else None)"

lemma q_replay_snoc:
  "q_replay q es = Some q1 \<Longrightarrow> attempt op q1 = (r, q2) \<Longrightarrow> q_replay q (es @ [(t, op, r)]) = Some q2"
  by (induction q es rule: q_replay.induct) (auto split: prod.splits if_splits)

definition last_entry :: "'h q_world \<Rightarrow> nat \<Rightarrow> 'h q_op \<Rightarrow> 'h command option \<Rightarrow> bool" where
  "last_entry w t op r \<longleftrightarrow> (\<exists>es. filter (\<lambda>e. fst e = t) (q_log w) = es @ [(t, op, r)])"

fun q_result_ok :: "'h q_world \<Rightarrow> nat \<Rightarrow> 'h q_pc \<Rightarrow> bool" where
  "q_result_ok w t (QPushed op) \<longleftrightarrow> is_push op \<and> last_entry w t op None"
| "q_result_ok w t (QTaken op r) \<longleftrightarrow> last_entry w t op r \<and> (blocking op \<longrightarrow> r \<noteq> None)"
| "q_result_ok w t (QReturned op r) \<longleftrightarrow> last_entry w t op r \<and> (blocking op \<longrightarrow> r \<noteq> None)"
| "q_result_ok w t pc \<longleftrightarrow> True"

definition q_linear :: "'h q_world \<Rightarrow> bool" where
  "q_linear w \<longleftrightarrow> q_replay new_BlockingQueue (q_log w) = Some (q_queue w)
     \<and> (\<forall>t. q_result_ok w t (q_pc w t))"

lemma q_result_ok_frame:
  "q_result_ok w t pc \<Longrightarrow> last_entry w' t = last_entry w t \<Longrightarrow> q_result_ok w' t pc"
  by (cases pc) simp_all

lemma q_result_ok_woken [simp]: "q_result_ok w t (woken pc) = q_result_ok w t pc"
  by (cases pc) simp_all

lemma is_push_attempt:
  "is_push op \<Longrightarrow> attempt op q = (r, q') \<Longrightarrow> r = None" "is_push op \<Longrightarrow> \<not> blocking op"
  by (cases op; simp)+

lemma q_linear_step:
  assumes "q_step t w w'" and "q_linear w" shows "q_linear w'"
proof -
  have ok: "q_result_ok w t' (q_pc w t')" for t' using assms(2) by (simp add: q_linear_def)
  have replay: "q_replay new_BlockingQueue (q_log w') = Some (q_queue w')"
    using assms
    by (cases rule: q_step.cases) (auto simp: q_linear_def q_goto_def intro: q_replay_snoc)
  have "q_result_ok w' t (q_pc w' t)"
    using assms(1) ok [of t]
    by (cases rule: q_step.cases)
      (auto simp: q_goto_def last_entry_def dest: is_push_attempt)
  moreover have "q_result_ok w' t' (q_pc w' t')" if "t' \<noteq> t" for t'
  proof -
    have "q_pc w' t' = q_pc w t' \<or> q_pc w' t' = woken (q_pc w t')"
      using assms(1) that by (cases rule: q_step.cases) (auto simp: q_goto_def)
    moreover have "last_entry w' t' = last_entry w t'"
      using assms(1) that by (cases rule: q_step.cases) (auto simp: q_goto_def last_entry_def fun_eq_iff)
    ultimately show ?thesis using ok [of t'] q_result_ok_frame by (metis q_result_ok_woken)
  qed
  ultimately have "\<forall>t'. q_result_ok w' t' (q_pc w' t')" by metis
  with replay show ?thesis by (simp add: q_linear_def)
qed

lemma q_reach_linear: "q_reach w \<Longrightarrow> q_linear w"
  by (induction rule: q_reach.induct)
    (simp add: q_linear_def q_fresh_def, blast intro: q_linear_step)


end
