(* ===== verification/Queue_Examples.thy ===== *)
theory Queue_Examples
  imports Queue_Threads
begin

text \<open>
  Two threads at one queue: thread 0 waits for the command with ID 5 and sleeps; thread 1 pushes
  it, and thread 0 is woken.
\<close>

abbreviation ex_item :: "nat command" where
  "ex_item \<equiv> new_Command 5 0"

definition ex_sleeping :: "nat q_world" where
  "ex_sleeping = q_goto 0 (QSleep (QWait 5)) q_fresh"

definition ex_pushed :: "nat q_world" where
  "ex_pushed = q_goto 1 (QPushed (QPush ex_item)) (ex_sleeping\<lparr>q_lock := Some 1,
     q_queue := bq_push new_BlockingQueue ex_item, q_log := [(1, QPush ex_item, None)]\<rparr>)"

definition ex_push_returned :: "nat q_world" where
  "ex_push_returned = q_goto 1 (QReturned (QPush ex_item) None) (ex_pushed\<lparr>q_lock := None,
     q_pc := woken \<circ> q_pc ex_pushed\<rparr>)"

lemmas ex_queue_defs = ex_sleeping_def ex_pushed_def ex_push_returned_def q_goto_def q_fresh_def

lemma ex_reach_sleeping: "q_reach ex_sleeping"
proof -
  let ?w1 = "q_goto 0 (QBegin (QWait 5)) q_fresh :: nat q_world"
  let ?w2 = "q_goto 0 (QHold (QWait 5)) (?w1\<lparr>q_lock := Some 0\<rparr>)"
  let ?w3 = "q_goto 0 (QSleep (QWait 5)) (?w2\<lparr>q_lock := None\<rparr>)"
  have "q_reach ?w1"
    by (rule q_reach.more [OF q_reach.init q_step.call]) (simp add: ex_queue_defs)
  then have "q_reach ?w2"
    by (rule q_reach.more [OF _ q_step.lock]) (simp_all add: ex_queue_defs)
  then have "q_reach ?w3"
    by (rule q_reach.more [OF _ q_step.sleep])
      (simp_all add: ex_queue_defs new_BlockingQueue_def tryFindNoLock_def)
  moreover have "?w3 = ex_sleeping" by (simp add: ex_queue_defs)
  ultimately show ?thesis by simp
qed

lemma ex_reach_pushed: "q_reach ex_pushed"
proof -
  let ?w1 = "q_goto 1 (QBegin (QPush ex_item)) ex_sleeping"
  let ?w2 = "q_goto 1 (QHold (QPush ex_item)) (?w1\<lparr>q_lock := Some 1\<rparr>)"
  let ?w3 = "q_goto 1 (QPushed (QPush ex_item)) (?w2\<lparr>q_queue := bq_push (q_queue ?w2) ex_item,
    q_log := q_log ?w2 @ [(1, QPush ex_item, None)]\<rparr>)"
  have "q_reach ?w1"
    by (rule q_reach.more [OF ex_reach_sleeping q_step.call]) (simp add: ex_queue_defs)
  then have "q_reach ?w2"
    by (rule q_reach.more [OF _ q_step.lock]) (simp_all add: ex_queue_defs)
  then have "q_reach ?w3"
    by (rule q_reach.more [OF _ q_step.push]) (simp_all add: ex_queue_defs)
  moreover have "?w3 = ex_pushed" by (simp add: ex_queue_defs)
  ultimately show ?thesis by simp
qed

lemma ex_reach_returned: "q_reach ex_push_returned"
proof -
  let ?w1 = "q_goto 1 (QTaken (QPush ex_item) None) (ex_pushed\<lparr>q_pc := woken \<circ> q_pc ex_pushed\<rparr>)"
  let ?w2 = "q_goto 1 (QReturned (QPush ex_item) None) (?w1\<lparr>q_lock := None\<rparr>)"
  have "q_reach ?w1"
    by (rule q_reach.more [OF ex_reach_pushed q_step.notify]) (simp add: ex_queue_defs)
  then have "q_reach ?w2"
    by (rule q_reach.more [OF _ q_step.unlock]) (simp add: q_goto_def)
  moreover have "?w2 = ex_push_returned" by (simp add: ex_queue_defs)
  ultimately show ?thesis by simp
qed

theorem no_lost_wakeup_witness:
  "\<exists>t' op'. q_pc ex_pushed t' = QPushed op' \<and> q_lock ex_pushed = Some t'"
proof -
  have "q_pc ex_pushed 0 = QSleep (QWait 5)" "fst (attempt (QWait 5) (q_queue ex_pushed)) \<noteq> None"
    by (simp_all add: ex_queue_defs bq_push_def new_BlockingQueue_def tryFindNoLock_def new_Command_def)
  from no_lost_wakeup [OF ex_reach_pushed this] show ?thesis by blast
qed


end
