(* ===== verification/Remote_Call.thy ===== *)
theory Remote_Call
  imports Api_Properties
begin

text \<open>
  The purpose of the library as one statement: a function of the VE called through the C API.
  The function is given by what it does on the VE, as a map from registers and memory at its
  start to its return value and the memory at its end.  The pieces are the calling convention
  and the layout of the frame (\<open>VeExecution\<close>, \<open>CallArgs_Layout\<close>), the handling of exceptions,
  and the request machinery.
\<close>

section \<open>VE functions\<close>

type_synonym ve_semantics = "(nat \<Rightarrow> u64) \<Rightarrow> memory \<Rightarrow> u64 \<times> memory"

text \<open>
  The VE thread, resumed with the address of the function in register 12, runs the function
  \<open>F\<close> and comes back to its block request, which carries the return value; register 0 is set
  by the reply that resumes it.  Between the two it may make any number of system calls.
\<close>

definition ve_function ::
  "'os veos \<Rightarrow> nat \<Rightarrow> ('os \<Rightarrow> nat \<Rightarrow> u64) \<Rightarrow> ('os \<Rightarrow> memory) \<Rightarrow> u64 \<Rightarrow> ve_semantics \<Rightarrow> bool" where
  "ve_function E h reg vmem addr F \<longleftrightarrow>
     (\<forall>w sr0 s. reg w 12 = addr \<longrightarrow> os_handle (tc s) = h \<longrightarrow> ctx_state (tc s) = VEO_STATE_RUNNING \<longrightarrow>
        os s = un_block_and_retval_req E h NR_ve_sysve sr0 w \<longrightarrow>
        (\<exists>exs u. defaultExceptionHandler E 0 s = Some (Inr (VEO_HANDLER_STATUS_BLOCK_REQUESTED, exs), u)
           \<and> vmem (os u) = snd (F ((reg w)(0 := sr0)) (vmem w))
           \<and> vedl_get_syscall_args E h (os u) 0 = VE_SYSVE_VEO_BLOCK
           \<and> vedl_get_syscall_args E h (os u) 1 = fst (F ((reg w)(0 := sr0)) (vmem w))))"

text \<open>What the function finds: arguments in registers and, if any argument needs it, the frame.\<close>

definition arguments_passed ::
  "memory \<Rightarrow> u64 \<Rightarrow> u64 \<Rightarrow> arg_base list \<Rightarrow> (nat \<Rightarrow> u64) \<Rightarrow> memory \<Rightarrow> bool" where
  "arguments_passed vh addr sp as R M \<longleftrightarrow>
     R 12 = addr \<and> R 11 = sp
     \<and> (\<forall>i < min 8 (length as). arg_getRegVal (arg_at sp (data_off as i) (as ! i)) = Inr (R i))
     \<and> (any_flag_in as 0 \<longrightarrow> mem_read M sp (image_size as) = image_of vh sp as)"

text \<open>What the caller finds: each output buffer as the function left it, all else untouched.\<close>

definition outputs_delivered ::
  "memory \<Rightarrow> memory \<Rightarrow> u64 \<Rightarrow> arg_base list \<Rightarrow> memory \<Rightarrow> bool" where
  "outputs_delivered vh vh' sp as M \<longleftrightarrow>
     (\<forall>i < length as. flag_out (as ! i) \<longrightarrow>
        mem_read vh' (arg_buff (as ! i)) (unat (arg_len (as ! i)))
          = mem_read M (sp + of_nat (data_off as i)) (unat (arg_len (as ! i))))
     \<and> (\<forall>p n. (\<forall>a \<in> set as. flag_out a \<longrightarrow> disjoint_ranges p n (arg_buff a) (unat (arg_len a)))
          \<longrightarrow> mem_read vh' p n = mem_read vh p n)"

definition disjoint_outputs :: "arg_base list \<Rightarrow> bool" where
  "disjoint_outputs as \<longleftrightarrow>
     (\<forall>i < length as. \<forall>j < length as. i \<noteq> j \<longrightarrow> flag_out (as ! i) \<longrightarrow> flag_out (as ! j) \<longrightarrow>
        disjoint_ranges (arg_buff (as ! i)) (unat (arg_len (as ! i)))
          (arg_buff (as ! j)) (unat (arg_len (as ! j))))"

section \<open>The call\<close>

text \<open>What \<^verbatim>\<open>copyout\<close> brings back when the frame can be read.\<close>

lemma copyout_frame:
  fixes w :: 'os
  assumes "arguments ca = map Some as" and "int (image_size as) \<le> INT_MAX" and "disjoint_outputs as"
    and "xfer sp (image_size as) w = ((rv, mem_read M sp (image_size as)), w')"
  shows "\<exists>ca' vh' w'. copyout xfer (set_up ca vh0 sp as) vh w = (Inr (ca', vh'), w')
     \<and> arguments ca' = arguments (set_up ca vh0 sp as) \<and> outputs_delivered vh vh' sp as M
     \<and> (\<not> list_ex flag_out as \<longrightarrow> w' = w)"
proof (cases "list_ex flag_out as")
  case True
  let ?ca = "set_up ca vh0 sp as" and ?bs = "mem_read M sp (image_size as)"
  have "setup_args vh0 ca (sp + of_nat (image_size as)) = Inr (?ca, sp)"
    using setup_args_fits [OF assms(1,2)] by simp
  moreover have "copied_out ?ca" using True by (simp add: set_up_def)
  ultimately obtain vh' where vh': "copyout xfer ?ca vh w = (Inr (?ca\<lparr>stack_buf := Some ?bs\<rparr>, vh'), w')"
      "\<forall>i < length as. flag_out (as ! i) \<longrightarrow> mem_read vh' (arg_buff (as ! i)) (unat (arg_len (as ! i)))
         = Veo_Prelude.slice (data_off as i) (unat (arg_len (as ! i))) ?bs"
      "\<forall>p n. (\<forall>a \<in> set as. flag_out a \<longrightarrow> disjoint_ranges p n (arg_buff a) (unat (arg_len a)))
         \<longrightarrow> mem_read vh' p n = mem_read vh p n"
    using copyout_delivers [of ca as vh0 "sp + of_nat (image_size as)" ?ca sp xfer w rv ?bs w' vh] assms
    unfolding disjoint_outputs_def by auto
  have "Veo_Prelude.slice (data_off as i) (unat (arg_len (as ! i))) ?bs
      = mem_read M (sp + of_nat (data_off as i)) (unat (arg_len (as ! i)))"
    if "i < length as" "flag_out (as ! i)" for i
    using data_off_bound(1) [OF assms(2) that(1)] that(2) by (intro slice_mem_read) (simp add: flag_out_iff)
  with vh' True show ?thesis by (fastforce simp: outputs_delivered_def)
next
  case False
  then have "\<not> flag_out (as ! i)" if "i < length as" for i
    using that by (auto simp: list_ex_iff)
  then show ?thesis using False
    by (simp add: copyout_def set_up_def outputs_delivered_def)
qed

lemma run_call_ve_memory:
  fixes E :: "'os veos"
  assumes machine: "ve_machine E (os_handle (tc s)) reg vmem"
    and F: "ve_function E (os_handle (tc s)) reg vmem addr F"
    and args: "args_heap s ref = Some ca" "arguments ca = map Some as" "int (image_size as) \<le> INT_MAX"
    and "disjoint_outputs as"
    and sp: "sp = ve_sp (tc s) - of_nat (image_size as)"
    and frame: "\<And>w. \<exists>rv w'. ve_recv_data E (os_handle (tc s)) sp (image_size as) w
           = ((rv, mem_read (vmem w) sp (image_size as)), w')"
  shows "\<exists>R M t. run_call E addr ref c s = Some (Inr (0, setResult c (fst (F R M)) VEO_COMMAND_OK), t)
     \<and> arguments_passed (vh_mem s) addr sp as R M \<and> outputs_delivered (vh_mem s) (vh_mem t) sp as (snd (F R M))
     \<and> (\<exists>ca'. args_heap t = (args_heap s)(ref \<mapsto> ca') \<and> arguments ca' = map Some (place_all sp as (slot_off (length as))))
     \<and> (\<not> any_flag_in as 0 \<longrightarrow> M = vmem (os s)) \<and> (\<not> list_ex flag_out as \<longrightarrow> vmem (os t) = snd (F R M))"
proof -
  let ?h = "os_handle (tc s)" and ?ca = "set_up ca (vh_mem s) sp as"
  obtain t w sr0 where t: "doCall E addr ref s = Some (Inr (), t)"
      "os t = un_block_and_retval_req E ?h NR_ve_sysve sr0 w" "ctx_state (tc t) = VEO_STATE_RUNNING"
    and raw: "reg w 12 = addr" "reg w 11 = ve_sp (tc t)" "ve_sp (tc t) = ve_sp (tc s) - of_nat (image_size as)"
      "\<forall>i < min 8 (length as). arg_getRegVal (arg_at (ve_sp (tc t)) (data_off as i) (as ! i)) = Inr (reg w i)"
      "as \<noteq> [] \<longrightarrow> sr0 = reg w 0"
      "any_flag_in as 0 \<longrightarrow> mem_read (vmem w) (ve_sp (tc t)) (image_size as) = image_of (vh_mem s) (ve_sp (tc t)) as"
      "\<not> any_flag_in as 0 \<longrightarrow> vmem w = vmem (os s)"
    using doCall_convention [OF machine args, of addr] by blast
  have "ve_sp (tc t) = sp" using raw(3) sp by simp
  note w = raw(1) raw(2,4) [unfolded this] raw(5) raw(6) [unfolded this]
  have t2: "args_heap t = (args_heap s)(ref \<mapsto> ?ca)" "vh_mem t = vh_mem s" "os_handle (tc t) = ?h"
    using doCall_eq [OF args, of E addr] t(1) sp by auto
  let ?R = "(reg w)(0 := sr0)" and ?M = "vmem w"
  have passed: "arguments_passed (vh_mem s) addr sp as ?R ?M"
    using w by (auto simp: arguments_passed_def)
  obtain exs u where u: "defaultExceptionHandler E 0 t = Some (Inr (VEO_HANDLER_STATUS_BLOCK_REQUESTED, exs), u)"
      "vmem (os u) = snd (F ?R ?M)" "vedl_get_syscall_args E ?h (os u) 0 = VE_SYSVE_VEO_BLOCK"
      "vedl_get_syscall_args E ?h (os u) 1 = fst (F ?R ?M)"
    using F t w(1) t2(3) unfolding ve_function_def by blast
  have same: "vh_mem u = vh_mem s" "args_heap u = (args_heap s)(ref \<mapsto> ?ca)" "os_handle (tc u) = ?h"
    using defaultExceptionHandler_outcomes [OF u(1) t(3)] t2 by (auto simp: same_but_ve_def)
  obtain rv w' where "ve_recv_data E ?h sp (image_size as) (os u)
      = ((rv, mem_read (snd (F ?R ?M)) sp (image_size as)), w')"
    using frame [of "os u"] u(2) by auto
  note copyout_frame [OF args(2,3) \<open>disjoint_outputs as\<close>, of "ve_recv_data E ?h", OF this]
  moreover have "arguments ?ca = map Some (place_all sp as (slot_off (length as)))"
    by (simp add: set_up_def)
  ultimately
  obtain ca' vh' w'' where out: "copyout (ve_recv_data E ?h) ?ca (vh_mem s) (os u) = (Inr (ca', vh'), w'')"
      "arguments ca' = map Some (place_all sp as (slot_off (length as)))"
      "outputs_delivered (vh_mem s) vh' sp as (snd (F ?R ?M))" "\<not> list_ex flag_out as \<longrightarrow> w'' = os u"
    by metis
  let ?u = "u\<lparr>tc := (tc u)\<lparr>ve_sp := vedl_get_syscall_args E ?h (os u) 5\<rparr>\<rparr>"
  have "run_call E addr ref c s = Some (Inr (0, setResult c (fst (F ?R ?M)) VEO_COMMAND_OK),
      ?u\<lparr>args_heap := (args_heap u)(ref \<mapsto> ca'), vh_mem := vh', os := w''\<rparr>)"
    using t(1) u same out(1)
    by (simp add: run_call_def executeVE_def collectReturnValue_def copyout_call_def)
  with passed out(2-4) same(2) u(2) raw(7) show ?thesis by (intro exI) (rule conjI, assumption, auto)
qed

lemma run_call_ve_function:
  fixes E :: "'os veos"
  assumes machine: "ve_machine E (os_handle (tc s)) reg vmem"
    and F: "ve_function E (os_handle (tc s)) reg vmem addr F"
    and args: "args_heap s ref = Some ca" "arguments ca = map Some as" "int (image_size as) \<le> INT_MAX"
    and "disjoint_outputs as"
    and sp: "sp = ve_sp (tc s) - of_nat (image_size as)"
    and frame: "\<And>w. \<exists>rv w'. ve_recv_data E (os_handle (tc s)) sp (image_size as) w
           = ((rv, mem_read (vmem w) sp (image_size as)), w')"
  shows "\<exists>R M t. run_call E addr ref c s = Some (Inr (0, setResult c (fst (F R M)) VEO_COMMAND_OK), t)
     \<and> arguments_passed (vh_mem s) addr sp as R M \<and> outputs_delivered (vh_mem s) (vh_mem t) sp as (snd (F R M))
     \<and> (\<exists>ca'. args_heap t = (args_heap s)(ref \<mapsto> ca') \<and> arguments ca' = map Some (place_all sp as (slot_off (length as))))"
  using run_call_ve_memory [OF assms, of c] by blast

lemma remote_call:
  fixes E :: "'os veos"
  assumes "ctx_heap (wk (ps s)) ctx = Some c" and "idle ((wk (ps s))\<lparr>tc := c\<rparr>)" and "addr \<noteq> 0"
    and "ve_machine E (os_handle c) reg vmem" and "ve_function E (os_handle c) reg vmem addr F"
    and "args_heap (wk (ps s)) ref = Some ca" and "arguments ca = map Some as"
    and "int (image_size as) \<le> INT_MAX" and "disjoint_outputs as"
    and "sp = ve_sp c - of_nat (image_size as)"
    and "\<forall>w. \<exists>rv w'. ve_recv_data E (os_handle c) sp (image_size as) w
           = ((rv, mem_read (vmem w) sp (image_size as)), w')"
  shows "\<exists>i s1 t R M. veo_call_async ctx addr ref s = Some (Inr i, s1) \<and> i \<noteq> VEO_REQUEST_ID_INVALID
     \<and> veo_call_wait_result E ctx i s1 = Some (Inr (VEO_COMMAND_OK, Some (fst (F R M))), t)
     \<and> arguments_passed (vh_mem (wk (ps s))) addr sp as R M
     \<and> outputs_delivered (vh_mem (wk (ps s))) (vh_mem (wk (ps t))) sp as (snd (F R M))"
proof -
  let ?x = "(wk (ps s))\<lparr>tc := c\<rparr>" and ?i = "next_id ((wk (ps s))\<lparr>tc := c\<rparr>)"
  let ?cmd = "new_Command ?i (CallFunction addr ref)"
  let ?q = "requested (called s ctx c (CallFunction addr ref))"
  have q: "os_handle (tc ?q) = os_handle c" "ve_sp (tc ?q) = ve_sp c" "args_heap ?q = args_heap (wk (ps s))"
      "vh_mem ?q = vh_mem (wk (ps s))"
    by (simp_all add: requested_def forget_def issued_def called_def Let_def)
  obtain R M u where u: "run_call E addr ref ?cmd ?q
        = Some (Inr (0, setResult ?cmd (fst (F R M)) VEO_COMMAND_OK), u)"
      "arguments_passed (vh_mem (wk (ps s))) addr sp as R M"
      "outputs_delivered (vh_mem (wk (ps s))) (vh_mem u) sp as (snd (F R M))"
    using run_call_ve_function [of E ?q reg vmem addr F ref ca as sp ?cmd] assms(4-11) q by auto
  from call_and_wait [OF assms(1-3) refl refl u(1)] u(2,3) show ?thesis by metis
qed


section \<open>Calls on the worker\<close>

lemma outputs_delivered_none:
  assumes "outputs_delivered vh vh' sp as M" and "\<not> list_ex flag_out as"
  shows "vh' = vh"
proof
  fix p
  have "mem_read vh' p 1 = mem_read vh p 1"
    using assms by (auto simp: outputs_delivered_def list_ex_iff)
  then show "vh' p = vh p" by (simp add: mem_read_def)
qed

lemma doOnContext_function:
  fixes E :: "'os veos"
  assumes "ready s" and "completed s = []" and "func \<noteq> 0"
    and "ve_machine E (os_handle (tc s)) reg vmem" and "ve_function E (os_handle (tc s)) reg vmem func F"
    and "args_heap s ref = Some ca" and "arguments ca = map Some as"
    and "int (image_size as) \<le> INT_MAX" and "\<not> list_ex flag_out as"
    and "sp = ve_sp (tc s) - of_nat (image_size as)"
    and "\<forall>a k w. \<exists>rv w'. ve_recv_data E (os_handle (tc s)) a k w = ((rv, mem_read (vmem w) a k), w')"
  shows "\<exists>R M w. doOnContext E func ref s = Some (Inr (fst (F R M)), w)
     \<and> arguments_passed (vh_mem s) func sp as R M \<and> ready w \<and> completed w = []
     \<and> os_handle (tc w) = os_handle (tc s) \<and> vh_mem w = vh_mem s \<and> ctx_heap w = ctx_heap s
     \<and> (\<exists>ca'. args_heap w = (args_heap s)(ref \<mapsto> ca'))"
proof -
  let ?c = "new_Command (next_id s) (CallFunction func ref)" and ?q = "requested s"
  have id: "idle s" using assms(1,2) by (simp add: idle_def)
  have q: "os_handle (tc ?q) = os_handle (tc s)" "ve_sp (tc ?q) = ve_sp (tc s)" "args_heap ?q = args_heap s"
      "vh_mem ?q = vh_mem s" "ctx_heap ?q = ctx_heap s" "completed ?q = []" "pending ?q = []"
      "request (comq (tc ?q)) = request (comq (tc s))"
    using assms(2) idleD(2) [OF id] by (simp_all add: requested_def) (simp_all add: forget_def issued_def)
  have "disjoint_outputs as" using assms(9) by (auto simp: disjoint_outputs_def list_ex_iff)
  with run_call_ve_function [of E ?q reg vmem func F ref ca as sp ?c] assms(4-8,10,11) q
  obtain R M u where u: "run_call E func ref ?c ?q = Some (Inr (0, setResult ?c (fst (F R M)) VEO_COMMAND_OK), u)"
      "arguments_passed (vh_mem s) func sp as R M" "outputs_delivered (vh_mem s) (vh_mem u) sp as (snd (F R M))"
      "\<exists>ca'. args_heap u = (args_heap s)(ref \<mapsto> ca')"
    by auto
  let ?w = "set_completed (completed s) (complete_command 0 (setResult ?c (fst (F R M)) VEO_COMMAND_OK) u)"
  have "doOnContext E func ref s = bindP (submit (CallFunction func ref)) (\<lambda>i. bindP (callWaitResult E i) request_value) s"
    using idleD [OF id] assms(3) by (simp add: doOnContext_def callAsync_def bindP_def)
  then have call: "doOnContext E func ref s = Some (Inr (fst (F R M)), ?w)"
    using submit_and_wait [OF id, of E "CallFunction func ref" 0 ?c "fst (F R M)" VEO_COMMAND_OK u request_value] u(1)
    by (simp add: request_value_def)
  have same: "same_queues ?q u"
    by (rule run_command_same_queues [where f = "CallFunction func ref" and E = E]) (use u(1) in simp)
  have "ctx_state (tc u) = VEO_STATE_BLOCKED" using run_call_outcomes [OF u(1)] by simp
  with same have "ready ?w"
    using q(7,8) idleD(3) [OF id]
    by (simp add: ready_def pending_def same_queues_def complete_command_def set_completed_def set_comq_def Let_def)
  moreover have "os_handle (tc ?w) = os_handle (tc s)" "vh_mem ?w = vh_mem s" "ctx_heap ?w = ctx_heap s"
      "args_heap ?w = args_heap u"
    using same q(1,5) outputs_delivered_none [OF u(3) assms(9)] run_call_ctx_heap [OF u(1)]
    by (simp_all add: same_queues_def complete_command_def set_completed_def set_comq_def Let_def)
  moreover have "completed ?w = []" using assms(2) by simp
  ultimately show ?thesis using call u(2,4) by metis
qed

end
