(* ===== verification/Worker_Calls.thy ===== *)
theory Worker_Calls
  imports Remote_Call
begin

text \<open>
  The operations of the process handle that pass names to the VE, as remote procedure calls on
  the worker: loading a library and finding a symbol.
\<close>

section \<open>Strings passed by reference\<close>

lemma by_reference:
  assumes "arguments_passed vh addr sp as R M" and "i < length as" and "i < 8"
    and "as ! i = ArgOnStack b l inn out v"
  shows "R i = sp + of_nat (data_off as i)"
    and "any_flag_in as 0 \<Longrightarrow>
      mem_read M (R i) (unat l) = (if inn then mem_read vh b (unat l) else replicate (unat l) 0)"
proof -
  show R: "R i = sp + of_nat (data_off as i)"
    using assms by (force simp: arguments_passed_def)
  assume "any_flag_in as 0"
  then have M: "mem_read M sp (image_size as) = image_of vh sp as"
    using assms(1) by (simp add: arguments_passed_def)
  have "data_off as i + unat l \<le> image_size as"
    using data_off_le_image_size [OF assms(2)] assms(4) by simp
  then have "mem_read M (R i) (unat l) = Veo_Prelude.slice (data_off as i) (unat l) (image_of vh sp as)"
    using slice_mem_read [of "data_off as i" "unat l" "image_size as" M sp] M R by simp
  then show "mem_read M (R i) (unat l) = (if inn then mem_read vh b (unat l) else replicate (unat l) 0)"
    using image_of_buffer [OF assms(2,4), of vh sp] by simp
qed

lemma passed_by_reference:
  assumes "arguments_passed vh addr sp as R M" and "i < length as" and "i < 8"
    and "as ! i = ArgOnStack b l True out v"
  shows "mem_read M (R i) (unat l) = mem_read vh b (unat l)"
proof -
  have "any_flag_in as 0" using assms(2,4) by (force simp: any_flag_in_iff flag_in_iff)
  from by_reference(2) [OF assms this] show ?thesis by simp
qed

lemma strlen_from_terminated:
  assumes "strlen_from m p k = Some n"
  shows "m (p + of_nat n) = 0"
  by (rule strlen_from.raw_induct [OF _ assms]) (auto split: if_splits)

lemma c_string_terminated:
  assumes "c_string m p = Some str"
  shows "mem_read m p (length str + 1) = str @ [0]"
proof -
  obtain n where n: "strlen_from m p 0 = Some n" "str = mem_read m p n"
    using assms by (auto simp: c_string_def)
  then have "length str = n" by simp
  then show ?thesis using n strlen_from_terminated [OF n(1)] by (simp add: mem_read_def)
qed

text \<open>The bytes of a string literal.\<close>

definition ascii :: "string \<Rightarrow> bytes" where
  "ascii str = map of_char str"

text \<open>A string whose bytes and NUL are found at an address.\<close>

lemma c_string_stored:
  assumes "0 \<notin> set str" and "mem_read m p (length str + 1) = str @ [0]"
  shows "c_string m p = Some str"
proof -
  have m: "m (p + of_nat i) = (str @ [0]) ! i" if "i < length str + 1" for i
    using that by (simp add: assms(2) [symmetric])
  have "strlen_from m p k = Some (length str)" if "k \<le> length str" for k
    using that
  proof (induction "length str - k" arbitrary: k)
    case 0
    then show ?case using m [of "length str"] by (subst strlen_from.simps) (auto simp: nth_append)
  next
    case (Suc d)
    then have "k < length str" by simp
    then have "m (p + of_nat k) \<noteq> 0" using assms(1) m [of k] nth_mem [of k str] by (metis less_SucI nth_append Suc_eq_plus1)
    moreover have "strlen_from m p (Suc k) = Some (length str)" using Suc by simp
    ultimately show ?case by (subst strlen_from.simps) simp
  qed
  moreover have "mem_read m p (length str) = str"
    by (rule nth_equalityI) (simp_all add: m nth_append)
  ultimately show ?thesis by (simp add: c_string_def)
qed

section \<open>A worker and the functions of veorun\<close>

text \<open>
  The worker is idle, no result waits for it, its VE thread runs the function \<open>F\<close> at \<open>func\<close>, and
  VE memory can be read.
\<close>

definition worker_runs ::
  "'os veos \<Rightarrow> ('os \<Rightarrow> nat \<Rightarrow> u64) \<Rightarrow> ('os \<Rightarrow> memory) \<Rightarrow> u64 \<Rightarrow> ve_semantics \<Rightarrow> 'os tstate \<Rightarrow> bool" where
  "worker_runs E reg vmem func F s \<longleftrightarrow>
     ready s \<and> completed s = [] \<and> func \<noteq> 0
     \<and> ve_machine E (os_handle (tc s)) reg vmem \<and> ve_function E (os_handle (tc s)) reg vmem func F
     \<and> (\<forall>a k w. \<exists>rv w'. ve_recv_data E (os_handle (tc s)) a k w = ((rv, mem_read (vmem w) a k), w'))"

lemma worker_runs_call:
  fixes E :: "'os veos"
  assumes "worker_runs E reg vmem func F (wk s)"
    and "arguments ca = map Some as" and "int (image_size as) \<le> INT_MAX" and "\<not> list_ex flag_out as"
  shows "\<exists>R M w. on_worker (doOnContext E func (local_ref s)) (enter_args ca s)
       = Some (Inr (fst (F R M)), (enter_args ca s)\<lparr>wk := w\<rparr>)
     \<and> arguments_passed (vh_mem (wk s)) func (ve_sp (tc (wk s)) - of_nat (image_size as)) as R M
     \<and> ready w \<and> completed w = [] \<and> os_handle (tc w) = os_handle (tc (wk s))
     \<and> vh_mem w = vh_mem (wk s) \<and> ctx_heap w = ctx_heap (wk s)
     \<and> (\<exists>ca'. args_heap w = (args_heap (wk s))(local_ref s \<mapsto> ca'))"
proof -
  let ?s = "wk (enter_args ca s)"
  have s: "tc ?s = tc (wk s)" "vh_mem ?s = vh_mem (wk s)" "ctx_heap ?s = ctx_heap (wk s)"
      "args_heap ?s = (args_heap (wk s))(local_ref s \<mapsto> ca)"
    by (simp_all add: enter_args_def)
  then have "ready ?s" "completed ?s = []"
    using assms(1) by (simp_all add: worker_runs_def ready_def completed_def pending_def)
  with doOnContext_function [of ?s func E reg vmem F "local_ref s" ca as, OF _ _ _ _ _ _ assms(2-4) refl] assms(1) s
  show ?thesis by (fastforce simp: worker_runs_def on_worker_def)
qed

text \<open>What the operations leave as it was.\<close>

definition worker_kept :: "'os pstate \<Rightarrow> 'os pstate \<Rightarrow> bool" where
  "worker_kept s t \<longleftrightarrow>
     ready (wk t) \<and> completed (wk t) = [] \<and> os_handle (tc (wk t)) = os_handle (tc (wk s))
     \<and> vh_mem (wk t) = vh_mem (wk s) \<and> ctx_heap (wk t) = ctx_heap (wk s) \<and> args_heap (wk t) = args_heap (wk s)
     \<and> local_ref t = local_ref s \<and> raw_object t = raw_object s \<and> funcs (ph t) = funcs (ph s)"

lemma worker_kept_leave:
  assumes "ready w" "completed w = []" "os_handle (tc w) = os_handle (tc (wk s))"
    "vh_mem w = vh_mem (wk s)" "ctx_heap w = ctx_heap (wk s)"
    "\<exists>ca'. args_heap w = (args_heap (wk s))(local_ref s \<mapsto> ca')"
  shows "worker_kept s (leave_args s ((enter_args ca s)\<lparr>wk := w\<rparr>))"
  using assms by (auto simp: worker_kept_def ready_def completed_def pending_def leave_args_def enter_args_def)

lemma loadLibrary_call:
  fixes P :: "'os proc_env"
  assumes "worker_runs (veos_env P) reg vmem (load_library (funcs (ph s))) F (wk s)"
    and "c_string (vh_mem (wk s)) p = Some name" and "length name \<le> VEO_SYMNAME_LEN_MAX"
    and "\<forall>R M. fst (F R M) = 0 \<longrightarrow> getVeorunVersion (ph s) < VEORUN_VERSION4 P"
  shows "\<exists>R M t. loadLibrary P p s = Some (Inr (fst (F R M)), t)
     \<and> mem_read M (R 0) (length name + 1) = name @ [0] \<and> worker_kept s t \<and> ph t = ph s"
proof -
  let ?n = "length name" and ?as = "[ArgOnStack p (1 + of_nat (length name)) True False None]"
  let ?ca = "(new_CallArgs (raw_object s))\<lparr>arguments := map Some ?as\<rparr>"
  have len: "unat (1 + of_nat ?n :: u64) = ?n + 1"
    using assms(3) by (simp add: VEO_SYMNAME_LEN_MAX_def unat_word_ariths unat_of_nat)
  have built: "setOnStack (new_CallArgs (raw_object s)) VEO_INTENT_IN 0 p (of_nat (?n + 1)) = Inr ?ca"
    by (simp add: setOnStack_def store_arg_def new_CallArgs_def INT_MAX_def)
  have "int (image_size ?as) \<le> INT_MAX"
    using assms(3) len
    by (simp add: image_size_def data_size_def slot_off_def PARAM_AREA_OFFSET_def INT_MAX_def VEO_SYMNAME_LEN_MAX_def)
  from worker_runs_call [OF assms(1) _ this, of ?ca] obtain R M w where
    w: "on_worker (doOnContext (veos_env P) (load_library (funcs (ph s))) (local_ref s)) (enter_args ?ca s)
        = Some (Inr (fst (F R M)), (enter_args ?ca s)\<lparr>wk := w\<rparr>)"
      "arguments_passed (vh_mem (wk s)) (load_library (funcs (ph s))) (ve_sp (tc (wk s)) - of_nat (image_size ?as)) ?as R M"
      "ready w" "completed w = []" "os_handle (tc w) = os_handle (tc (wk s))" "vh_mem w = vh_mem (wk s)"
      "ctx_heap w = ctx_heap (wk s)" "\<exists>ca'. args_heap w = (args_heap (wk s))(local_ref s \<mapsto> ca')"
    by auto
  have "mem_read M (R 0) (?n + 1) = name @ [0]"
    using passed_by_reference [OF w(2), where i = 0 and out = False] c_string_terminated [OF assms(2)] len by simp
  moreover have "loadLibrary P p s = Some (Inr (fst (F R M)), leave_args s ((enter_args ?ca s)\<lparr>wk := w\<rparr>))"
    using assms(3,4) strlen_Some(1) [OF assms(2)] built w(1)
    by (auto simp: loadLibrary_def with_args_eq not_less)
  ultimately show ?thesis
    using worker_kept_leave [OF w(3-8)] by (fastforce simp: leave_args_def enter_args_def)
qed

lemma getSym_call:
  fixes P :: "'os proc_env"
  assumes "worker_runs (veos_env P) reg vmem (find_sym (funcs (ph s))) F (wk s)"
    and "c_string (vh_mem (wk s)) p = Some name" and "length name \<le> VEO_SYMNAME_LEN_MAX"
    and "sym_name (ph s) (libhdl, name) = None"
  shows "\<exists>R M t. getSym P libhdl p s = Some (Inr (fst (F R M)), t)
     \<and> R 0 = libhdl \<and> mem_read M (R 1) (length name + 1) = name @ [0] \<and> worker_kept s t
     \<and> (fst (F R M) \<noteq> 0 \<longrightarrow> sym_name (ph t) = (sym_name (ph s))((libhdl, name) \<mapsto> fst (F R M)))"
proof -
  let ?n = "length name" and ?as = "[ArgU64 libhdl, ArgOnStack p (1 + of_nat (length name)) True False None]"
  let ?ca = "sym_args (raw_object s) libhdl p (length name)"
  have len: "unat (1 + of_nat ?n :: u64) = ?n + 1"
    using assms(3) by (simp add: VEO_SYMNAME_LEN_MAX_def unat_word_ariths unat_of_nat)
  have "int (image_size ?as) \<le> INT_MAX"
    using assms(3) len
    by (simp add: image_size_def data_size_def slot_off_def PARAM_AREA_OFFSET_def INT_MAX_def VEO_SYMNAME_LEN_MAX_def)
  from worker_runs_call [OF assms(1) _ this, of ?ca] obtain R M w where
    w: "on_worker (doOnContext (veos_env P) (find_sym (funcs (ph s))) (local_ref s)) (enter_args ?ca s)
        = Some (Inr (fst (F R M)), (enter_args ?ca s)\<lparr>wk := w\<rparr>)"
      "arguments_passed (vh_mem (wk s)) (find_sym (funcs (ph s))) (ve_sp (tc (wk s)) - of_nat (image_size ?as)) ?as R M"
      "ready w" "completed w = []" "os_handle (tc w) = os_handle (tc (wk s))" "vh_mem w = vh_mem (wk s)"
      "ctx_heap w = ctx_heap (wk s)" "\<exists>ca'. args_heap w = (args_heap (wk s))(local_ref s \<mapsto> ca')"
    by (auto simp: sym_args_def)
  let ?t = "(enter_args ?ca s)\<lparr>wk := w\<rparr>"
  let ?t' = "leave_args s (if fst (F R M) = 0 then ?t else sym_store (libhdl, name) (fst (F R M)) ?t)"
  have "R 0 = libhdl" using w(2) by (force simp: arguments_passed_def)
  moreover have "mem_read M (R 1) (?n + 1) = name @ [0]"
    using passed_by_reference [OF w(2), where i = 1 and out = False] c_string_terminated [OF assms(2)] len by simp
  moreover have "getSym P libhdl p s = Some (Inr (fst (F R M)), ?t')"
    using getSym_eq [OF assms(2,3), of P libhdl] w(1) assms(4) by (simp add: sym_lookup_def)
  moreover have "worker_kept s ?t'"
    using worker_kept_leave [OF w(3-8), of ?ca]
    by (auto simp: worker_kept_def sym_store_def leave_args_def ready_def completed_def pending_def)
  ultimately show ?thesis by (fastforce simp: sym_store_def)
qed

text \<open>
  C15: loading a library and finding a symbol in it.  The loader on the VE is called with the name of
  the library, complete with its NUL, at the address in its first register; a handle it gives is
  the result of \<^verbatim>\<open>loadLibrary\<close>.  \<^verbatim>\<open>getSym\<close> with that handle and a name calls the search function with
  the handle and the name; the address found is the result, and is remembered for that handle and
  name.
\<close>

theorem symbol_of_loaded_library:
  fixes P :: "'os proc_env"
  assumes "worker_runs (veos_env P) reg vmem (load_library (funcs (ph s))) Load (wk s)"
    and "worker_runs (veos_env P) reg vmem (find_sym (funcs (ph s))) Find (wk s)"
    and "c_string (vh_mem (wk s)) lib = Some libname" and "length libname \<le> VEO_SYMNAME_LEN_MAX"
    and "c_string (vh_mem (wk s)) p = Some name" and "length name \<le> VEO_SYMNAME_LEN_MAX"
    and "\<forall>R M. fst (Load R M) \<noteq> 0" and "sym_name (ph s) = Map.empty"
  shows "\<exists>R M t R' M' u. loadLibrary P lib s = Some (Inr (fst (Load R M)), t)
     \<and> mem_read M (R 0) (length libname + 1) = libname @ [0]
     \<and> getSym P (fst (Load R M)) p t = Some (Inr (fst (Find R' M')), u)
     \<and> R' 0 = fst (Load R M) \<and> mem_read M' (R' 1) (length name + 1) = name @ [0]
     \<and> (fst (Find R' M') \<noteq> 0 \<longrightarrow> sym_name (ph u) (fst (Load R M), name) = Some (fst (Find R' M')))
     \<and> worker_kept s u"
proof -
  obtain R M t where t: "loadLibrary P lib s = Some (Inr (fst (Load R M)), t)"
      "mem_read M (R 0) (length libname + 1) = libname @ [0]" "worker_kept s t" "ph t = ph s"
    using loadLibrary_call [OF assms(1,3,4)] assms(7) by blast
  have "worker_runs (veos_env P) reg vmem (find_sym (funcs (ph t))) Find (wk t)"
    using assms(2) t(3) by (simp add: worker_runs_def worker_kept_def)
  moreover have "c_string (vh_mem (wk t)) p = Some name" "sym_name (ph t) (fst (Load R M), name) = None"
    using assms(5,8) t(3,4) by (simp_all add: worker_kept_def)
  ultimately obtain R' M' u where u: "getSym P (fst (Load R M)) p t = Some (Inr (fst (Find R' M')), u)"
      "R' 0 = fst (Load R M)" "mem_read M' (R' 1) (length name + 1) = name @ [0]" "worker_kept t u"
      "fst (Find R' M') \<noteq> 0 \<longrightarrow> sym_name (ph u) = (sym_name (ph t))((fst (Load R M), name) \<mapsto> fst (Find R' M'))"
    using getSym_call [OF _ _ assms(6)] by metis
  have "worker_kept s u" using t(3) u(4) by (simp add: worker_kept_def)
  moreover have "fst (Find R' M') \<noteq> 0 \<longrightarrow> sym_name (ph u) (fst (Load R M), name) = Some (fst (Find R' M'))"
    using u(5) by simp
  ultimately show ?thesis using t u by blast
qed

section \<open>Calls one after the other\<close>

text \<open>No command makes a context the main one.\<close>

interpretation main_flag: frame_relation "\<lambda>s t. is_main_thread (tc t) = is_main_thread (tc s)"
  by unfold_locales simp_all

text \<open>A context that waits for requests, with no result left behind.\<close>

definition context_ready :: "nat \<Rightarrow> u64 \<Rightarrow> 'os astate \<Rightarrow> bool" where
  "context_ready h ctx s \<longleftrightarrow>
     (\<exists>c. ctx_heap (wk (ps s)) ctx = Some c \<and> os_handle c = h \<and> ctx_state c = VEO_STATE_BLOCKED
        \<and> \<not> isMainThread c \<and> request (comq c) = \<lparr>bq_queue = [], bq_state = VEO_QUEUE_READY\<rparr>
        \<and> bq_queue (completion (comq c)) = [])"

text \<open>What a call on a context leaves alone.\<close>

definition process_kept :: "'os astate \<Rightarrow> 'os astate \<Rightarrow> bool" where
  "process_kept s t \<longleftrightarrow>
     tc (wk (ps t)) = tc (wk (ps s)) \<and> ph (ps t) = ph (ps s) \<and> local_ref (ps t) = local_ref (ps s)
     \<and> raw_object (ps t) = raw_object (ps s)"

lemma context_call:
  fixes E :: "'os veos"
  assumes "context_ready h ctx s" and "func \<noteq> 0"
    and "ve_machine E h reg vmem" and "ve_function E h reg vmem func F"
    and "args_heap (wk (ps s)) ref = Some ca" and "arguments ca = map Some as"
    and "int (image_size as) \<le> INT_MAX" and "disjoint_outputs as"
    and "\<forall>a k w. \<exists>rv w'. ve_recv_data E h a k w = ((rv, mem_read (vmem w) a k), w')"
  shows "\<exists>i s1 t R M sp. veo_call_async ctx func ref s = Some (Inr i, s1) \<and> i \<noteq> VEO_REQUEST_ID_INVALID
     \<and> veo_call_wait_result E ctx i s1 = Some (Inr (VEO_COMMAND_OK, Some (fst (F R M))), t)
     \<and> arguments_passed (vh_mem (wk (ps s))) func sp as R M
     \<and> outputs_delivered (vh_mem (wk (ps s))) (vh_mem (wk (ps t))) sp as (snd (F R M))
     \<and> context_ready h ctx t \<and> process_kept s t \<and> args_heap (wk (ps t)) ref \<noteq> None"
proof -
  let ?f = "CallFunction func ref"
  obtain c where c: "ctx_heap (wk (ps s)) ctx = Some c" "os_handle c = h" "ctx_state c = VEO_STATE_BLOCKED"
      "request (comq c) = \<lparr>bq_queue = [], bq_state = VEO_QUEUE_READY\<rparr>" "bq_queue (completion (comq c)) = []" "\<not> is_main_thread c"
    using assms(1) unfolding context_ready_def by auto
  let ?x = "(wk (ps s))\<lparr>tc := c\<rparr>" and ?i = "fst (fetch_id (seq_no c))"
  let ?cmd = "new_Command ?i ?f"
  let ?y = "set_pending [?cmd] (issued ?x)"
  let ?s1 = "s\<lparr>ps := (ps s)\<lparr>wk := ?y\<lparr>tc := tc (wk (ps s)), ctx_heap := (ctx_heap ?y)(ctx \<mapsto> tc ?y)\<rparr>\<rparr>\<rparr>"
  let ?z = "(wk (ps ?s1))\<lparr>tc := tc ?y\<rparr>"
  let ?q = "set_pending [] (forget ?i ?z)"
  have x: "pending ?x = []" "completed ?x = []" using c(4,5) by (simp_all add: pending_def completed_def)
  have "callAsync func ref ?x = Some (Inr ?i, ?y)"
    using assms(2) c(3,4) x(1) by (simp add: callAsync_def submitted_state)
  then have async: "veo_call_async ctx func ref s = Some (Inr ?i, ?s1)"
    unfolding veo_call_async_def by (intro or_code_Some on_context_Some [OF c(1)])
  have z: "pending ?z = [?cmd]" "completed ?z = []" "ctx_state (tc ?z) = VEO_STATE_BLOCKED" "?i \<in> rem_reqid (tc ?z)"
      "bq_state (request (comq (tc ?z))) = VEO_QUEUE_READY"
    using c(3-5) by (simp_all add: pending_def completed_def set_pending_def set_comq_def issued_def)
  have q: "os_handle (tc ?q) = h" "args_heap ?q = args_heap (wk (ps s))" "vh_mem ?q = vh_mem (wk (ps s))"
      "pending ?q = []" "completed ?q = []" "bq_state (request (comq (tc ?q))) = VEO_QUEUE_READY"
    using c(2,4,5) by (simp_all add: set_pending_def forget_def set_comq_def issued_def pending_def completed_def)
  obtain R M u where u: "run_call E func ref ?cmd ?q = Some (Inr (0, setResult ?cmd (fst (F R M)) VEO_COMMAND_OK), u)"
      "arguments_passed (vh_mem (wk (ps s))) func (ve_sp (tc ?q) - of_nat (image_size as)) as R M"
      "outputs_delivered (vh_mem (wk (ps s))) (vh_mem u) (ve_sp (tc ?q) - of_nat (image_size as)) as (snd (F R M))"
      "args_heap u ref \<noteq> None"
    using run_call_ve_function [of E ?q reg vmem func F ref ca as _ ?cmd, OF _ _ _ _ _ _ refl] assms(3-9) q(1-3) by auto
  let ?r = "setResult ?cmd (fst (F R M)) VEO_COMMAND_OK"
  let ?w = "set_completed [] (complete_command 0 ?r u)"
  have "await E ?i (forget ?i ?z) = Some (Inr ?r, ?w)"
    using await_own_command [of "forget ?i ?z" ?cmd "[]" E 0 ?r u] u(1) z(1-3) by (simp add: state_simps)
  then have "callWaitResult E ?i ?z = Some (Inr (VEO_COMMAND_OK, Some (fst (F R M))), ?w)"
    using z(4) by (simp add: callWaitResult_eq)
  then have wait: "veo_call_wait_result E ctx ?i ?s1 = Some (Inr (VEO_COMMAND_OK, Some (fst (F R M))),
      ?s1\<lparr>ps := (ps ?s1)\<lparr>wk := ?w\<lparr>tc := tc (wk (ps ?s1)), ctx_heap := (ctx_heap ?w)(ctx \<mapsto> tc ?w)\<rparr>\<rparr>\<rparr>)"
    (is "_ = Some (_, ?t)")
    unfolding veo_call_wait_result_def by (intro or_code_Some on_context_Some [where c = "tc ?y"]) simp_all
  have same: "same_queues ?q u"
    by (rule run_command_same_queues [where f = ?f and E = E]) (use u(1) in simp)
  have "ctx_state (tc u) = VEO_STATE_BLOCKED" using run_call_outcomes [OF u(1)] by simp
  then have "ctx_state (tc ?w) = VEO_STATE_BLOCKED" by simp
  moreover have "request (comq (tc ?w)) = request (comq (tc ?q))" "os_handle (tc ?w) = h"
    using same q(1) by (simp_all add: same_queues_def complete_command_def set_completed_def set_comq_def Let_def)
  moreover have "request (comq (tc ?q)) = \<lparr>bq_queue = [], bq_state = VEO_QUEUE_READY\<rparr>"
    using q(4,6) by (cases "request (comq (tc ?q))") (simp add: pending_def)
  moreover have "bq_queue (completion (comq (tc ?w))) = []"
    by (simp add: completed_def [symmetric])
  moreover have "is_main_thread (tc u) = is_main_thread (tc ?q)"
    by (rule main_flag.run_command_returns [where f = ?f and E = E]) (use u(1) in simp)
  then have "\<not> isMainThread (tc ?w)"
    using c(6) by (simp add: set_completed_def complete_command_def set_pending_def forget_def issued_def set_comq_def Let_def)
  ultimately have "context_ready h ctx ?t"
    unfolding context_ready_def by (intro exI [of _ "tc ?w"] conjI) (simp_all only: not_False_eq_True, simp)
  moreover have "vh_mem (wk (ps ?t)) = vh_mem u" "args_heap (wk (ps ?t)) = args_heap u" "process_kept s ?t"
    by (simp_all add: complete_command_def set_completed_def set_comq_def process_kept_def Let_def)
  moreover have "?i \<noteq> VEO_REQUEST_ID_INVALID" by (rule fetch_id_valid)
  ultimately show ?thesis using async wait u(2-4) by (intro exI conjI) (assumption | simp)+
qed

lemma context_close:
  assumes "context_ready h ctx s"
  shows "\<exists>t. veo_context_close E ctx s = Some (Inr 0, t) \<and> ctx_heap (wk (ps t)) ctx = None
     \<and> vh_mem (wk (ps t)) = vh_mem (wk (ps s)) \<and> process_kept s t"
proof -
  obtain c where c: "ctx_heap (wk (ps s)) ctx = Some c" "ctx_state c = VEO_STATE_BLOCKED" "\<not> is_main_thread c"
      "request (comq c) = \<lparr>bq_queue = [], bq_state = VEO_QUEUE_READY\<rparr>" "bq_queue (completion (comq c)) = []"
    using assms unfolding context_ready_def by auto
  let ?x = "(wk (ps s))\<lparr>tc := c\<rparr>" and ?i = "fst (fetch_id (seq_no c))"
  let ?y = "set_pending [new_Command ?i (CloseContext ?i)] (issued ?x)"
  let ?w = "set_completed [] (closed_state E ?i (set_pending [] ?y))"
  have "pending ?x = []" "completed ?y = []"
    using c(4,5) by (simp_all add: pending_def completed_def set_pending_def set_comq_def issued_def)
  then have "await E ?i ?y = Some (Inr (setResult (new_Command ?i DummyReply) 0 0), ?w)"
    using await_close [of ?y ?i "[]" E] c(2) by simp
  then have "close E ?x = Some (Inr 0, ?w)"
    using close_eq [of ?x E] c(2,4) \<open>pending ?x = []\<close> by (simp add: getRetval_def state_simps)
  then have "on_context ctx (close E) s = Some (Inr 0, s\<lparr>ps := (ps s)\<lparr>wk :=
      ?w\<lparr>tc := tc (wk (ps s)), ctx_heap := (ctx_heap ?w)(ctx \<mapsto> tc ?w)\<rparr>\<rparr>\<rparr>)"
    by (rule on_context_Some [OF c(1)])
  then show ?thesis
    using c(1,3)
    by (simp add: veo_context_close_def process_kept_def set_completed_def closed_state_def set_pending_def
        set_comq_def issued_def)
qed

text \<open>
  A call by name: the symbol is looked up on the worker, which is ready for the next operation
  again, and the function is called on the context.
\<close>

definition worker_again :: "'os astate \<Rightarrow> 'os astate \<Rightarrow> bool" where
  "worker_again s t \<longleftrightarrow>
     ready (wk (ps t)) \<and> completed (wk (ps t)) = [] \<and> os_handle (tc (wk (ps t))) = os_handle (tc (wk (ps s)))
     \<and> funcs (ph (ps t)) = funcs (ph (ps s))"

lemma call_by_name:
  fixes P :: "'os proc_env"
  assumes "context_ready h ctx s" and "func \<noteq> 0"
    and "worker_runs (veos_env P) reg vmem (find_sym (funcs (ph (ps s)))) Find (wk (ps s))"
    and "c_string (vh_mem (wk (ps s))) p = Some name" and "length name \<le> VEO_SYMNAME_LEN_MAX"
    and "sym_name (ph (ps s)) (libhdl, name) = None"
    and "\<forall>R M. R 0 = libhdl \<and> mem_read M (R 1) (length name + 1) = name @ [0] \<longrightarrow> fst (Find R M) = func"
    and "ve_machine (veos_env P) h reg vmem" and "ve_function (veos_env P) h reg vmem func F"
    and "args_heap (wk (ps s)) ref = Some ca" and "arguments ca = map Some as"
    and "int (image_size as) \<le> INT_MAX" and "disjoint_outputs as"
    and "\<forall>a k w. \<exists>rv w'. ve_recv_data (veos_env P) h a k w = ((rv, mem_read (vmem w) a k), w')"
  shows "\<exists>i s1 t R M sp. veo_call_async_by_name P ctx libhdl p ref s = Some (Inr i, s1) \<and> i \<noteq> VEO_REQUEST_ID_INVALID
     \<and> veo_call_wait_result (veos_env P) ctx i s1 = Some (Inr (VEO_COMMAND_OK, Some (fst (F R M))), t)
     \<and> arguments_passed (vh_mem (wk (ps s))) func sp as R M
     \<and> outputs_delivered (vh_mem (wk (ps s))) (vh_mem (wk (ps t))) sp as (snd (F R M))
     \<and> context_ready h ctx t \<and> worker_again s t \<and> args_heap (wk (ps t)) ref \<noteq> None
     \<and> sym_name (ph (ps t)) = (sym_name (ph (ps s)))((libhdl, name) \<mapsto> func)"
proof -
  obtain u where u: "getSym P libhdl p (ps s) = Some (Inr func, u)" "worker_kept (ps s) u"
      "sym_name (ph u) = (sym_name (ph (ps s)))((libhdl, name) \<mapsto> func)"
    using getSym_call [OF assms(3-6)] assms(2,7) by metis
  let ?a = "s\<lparr>ps := u\<rparr>"
  have kept: "vh_mem (wk u) = vh_mem (wk (ps s))" "ctx_heap (wk u) = ctx_heap (wk (ps s))"
      "args_heap (wk u) = args_heap (wk (ps s))"
    using u(2) by (simp_all add: worker_kept_def)
  then have ready: "context_ready h ctx ?a" "args_heap (wk (ps ?a)) ref = Some ca"
    using assms(1,10) by (simp_all add: context_ready_def)
  obtain i s1 t R M sp where t: "veo_call_async ctx func ref ?a = Some (Inr i, s1)" "i \<noteq> VEO_REQUEST_ID_INVALID"
      "veo_call_wait_result (veos_env P) ctx i s1 = Some (Inr (VEO_COMMAND_OK, Some (fst (F R M))), t)"
      "arguments_passed (vh_mem (wk (ps s))) func sp as R M"
      "outputs_delivered (vh_mem (wk (ps s))) (vh_mem (wk (ps t))) sp as (snd (F R M))"
      "context_ready h ctx t" "process_kept ?a t" "args_heap (wk (ps t)) ref \<noteq> None"
    using context_call [OF ready(1) assms(2,8,9) ready(2) assms(11-14)] kept(1) by auto
  have "veo_call_async_by_name P ctx libhdl p ref s = Some (Inr i, s1)"
    using t(1) u(1)
    by (simp add: veo_call_async_by_name_def callAsyncByName_def veo_call_async_def or_code_def catchP_def on_proc_def)
  moreover have "worker_again s t" "sym_name (ph (ps t)) = (sym_name (ph (ps s)))((libhdl, name) \<mapsto> func)"
    using t(7) u(2,3)
    by (simp_all add: worker_again_def process_kept_def worker_kept_def ready_def completed_def pending_def)
  ultimately show ?thesis using t(2-6,8) by blast
qed

end
