(* ===== verification/Sample_Batch.thy ===== *)
theory Sample_Batch
  imports Remote_Call
begin

text \<open>
  The sample program \<^verbatim>\<open>src/examples/simplefunccall.c\<close>: a batch of calls of one VE function is
  submitted to a context before the first result is waited for.
\<close>

section \<open>The two loops\<close>

fun submit_calls :: "nat \<Rightarrow> u64 \<Rightarrow> u64 \<Rightarrow> nat \<Rightarrow> ('os astate, u64 list) prog" where
  "submit_calls 0 ctx func argp = returnP []"
| "submit_calls (Suc k) ctx func argp =
     bindP (veo_call_async ctx func argp)
       (\<lambda>i. bindP (submit_calls k ctx func argp) (\<lambda>is. returnP (i # is)))"

fun wait_calls :: "'os veos \<Rightarrow> u64 \<Rightarrow> u64 list \<Rightarrow> ('os astate, (int \<times> u64 option) list) prog" where
  "wait_calls E ctx [] = returnP []"
| "wait_calls E ctx (i # is) =
     bindP (veo_call_wait_result E ctx i)
       (\<lambda>r. bindP (wait_calls E ctx is) (\<lambda>rs. returnP (r # rs)))"

section \<open>A context with a batch of calls\<close>

text \<open>
  Arguments passed by value keep no state between calls, so that one argument object serves all
  calls of a batch.
\<close>

fun by_value :: "arg_base \<Rightarrow> bool" where
  "by_value (ArgOnStack b l i out v) = False"
| "by_value a = True"

definition values_passed :: "u64 \<Rightarrow> arg_base list \<Rightarrow> (nat \<Rightarrow> u64) \<Rightarrow> bool" where
  "values_passed func as R \<longleftrightarrow>
     R 12 = func \<and> (\<forall>j < min 8 (length as). arg_getRegVal (as ! j) = Inr (R j))"

lemma by_value_at: "by_value a \<Longrightarrow> arg_at sp off a = a \<and> \<not> flag_out a"
  by (cases a) simp_all

lemma place_by_value: "list_all by_value as \<Longrightarrow> place_all sp as off = as"
  by (induction as arbitrary: off) (simp_all add: by_value_at)

lemma disjoint_by_value: "list_all by_value as \<Longrightarrow> disjoint_outputs as"
  by (simp add: disjoint_outputs_def list_all_length by_value_at)

lemma values_passedI: "arguments_passed vh func sp as R M \<Longrightarrow> list_all by_value as \<Longrightarrow> values_passed func as R"
  by (auto simp: arguments_passed_def values_passed_def list_all_length by_value_at)

text \<open>
  The calls with the IDs \<open>is\<close> are queued on the context, whose next ID comes from the counter
  \<open>n\<close>, and no result is there for an ID of the set \<open>U\<close>.
\<close>

definition batch ::
  "nat \<Rightarrow> u64 \<Rightarrow> u64 \<Rightarrow> nat \<Rightarrow> arg_base list \<Rightarrow> u64 set \<Rightarrow> u64 \<Rightarrow> u64 list \<Rightarrow> 'os astate \<Rightarrow> bool" where
  "batch h ctx func argp as U n is s \<longleftrightarrow>
     (\<exists>c ca. ctx_heap (wk (ps s)) ctx = Some c \<and> os_handle c = h \<and> seq_no c = n
        \<and> ctx_state c = VEO_STATE_BLOCKED
        \<and> request (comq c) = \<lparr>bq_queue = map (\<lambda>i. new_Command i (CallFunction func argp)) is,
                              bq_state = VEO_QUEUE_READY\<rparr>
        \<and> set is \<subseteq> rem_reqid c
        \<and> cmd_id ` set (bq_queue (completion (comq c))) \<inter> U = {}
        \<and> args_heap (wk (ps s)) argp = Some ca \<and> arguments ca = map Some as)"

lemma batch_submit:
  assumes "batch h ctx func argp as U n is s" and "func \<noteq> 0"
  shows "\<exists>t. veo_call_async ctx func argp s = Some (Inr (fst (fetch_id n)), t)
     \<and> batch h ctx func argp as U (snd (fetch_id n)) (is @ [fst (fetch_id n)]) t"
proof -
  let ?i = "fst (fetch_id n)"
  obtain c ca where c: "ctx_heap (wk (ps s)) ctx = Some c" "os_handle c = h" "seq_no c = n"
      "ctx_state c = VEO_STATE_BLOCKED"
      "request (comq c) = \<lparr>bq_queue = map (\<lambda>i. new_Command i (CallFunction func argp)) is, bq_state = VEO_QUEUE_READY\<rparr>"
      "set is \<subseteq> rem_reqid c" "cmd_id ` set (bq_queue (completion (comq c))) \<inter> U = {}"
    and ca: "args_heap (wk (ps s)) argp = Some ca" "arguments ca = map Some as"
    using assms(1) unfolding batch_def by blast
  let ?x = "(wk (ps s))\<lparr>tc := c\<rparr>"
  let ?t = "set_pending (pending ?x @ [new_Command ?i (CallFunction func argp)]) (issued ?x)"
  have "callAsync func argp ?x = Some (Inr ?i, ?t)"
    using assms(2) c by (simp add: callAsync_def submitted_state)
  then have "veo_call_async ctx func argp s = Some (Inr ?i, s\<lparr>ps := (ps s)\<lparr>wk :=
      ?t\<lparr>tc := tc (wk (ps s)), ctx_heap := (ctx_heap ?t)(ctx \<mapsto> tc ?t)\<rparr>\<rparr>\<rparr>)"
    unfolding veo_call_async_def by (intro or_code_Some on_context_Some [OF c(1)])
  moreover have "pending ?x = map (\<lambda>i. new_Command i (CallFunction func argp)) is"
    using c(5) by (simp add: pending_def)
  ultimately show ?thesis
    using c ca by (simp add: batch_def set_pending_def set_comq_def issued_def) blast
qed

lemma batch_submit_all:
  assumes "batch h ctx func argp as U n is s" and "func \<noteq> 0"
  shows "\<exists>t n'. submit_calls k ctx func argp s = Some (Inr (issue_ids k n), t)
     \<and> batch h ctx func argp as U n' (is @ issue_ids k n) t"
  using assms(1)
proof (induction k arbitrary: n "is" s)
  case (Suc k)
  from batch_submit [OF Suc.prems assms(2)] obtain t where t:
      "veo_call_async ctx func argp s = Some (Inr (fst (fetch_id n)), t)"
      "batch h ctx func argp as U (snd (fetch_id n)) (is @ [fst (fetch_id n)]) t" by blast
  from Suc.IH [OF t(2)] t(1) show ?case by auto
qed auto

lemma batch_wait:
  fixes E :: "'os veos"
  assumes "batch h ctx func argp as U n (i # is) s" and "i \<in> U" and "i \<notin> set is"
    and "ve_machine E h reg vmem" and "ve_function E h reg vmem func F"
    and "\<forall>a k w. \<exists>rv w'. ve_recv_data E h a k w = ((rv, mem_read (vmem w) a k), w')"
    and "list_all by_value as" and "int (image_size as) \<le> INT_MAX"
  shows "\<exists>R M t. veo_call_wait_result E ctx i s = Some (Inr (VEO_COMMAND_OK, Some (fst (F R M))), t)
     \<and> values_passed func as R \<and> batch h ctx func argp as U n is t"
proof -
  let ?f = "CallFunction func argp"
  let ?c = "new_Command i ?f" and ?post = "map (\<lambda>i. new_Command i ?f) is"
  obtain c ca where c: "ctx_heap (wk (ps s)) ctx = Some c" "os_handle c = h" "seq_no c = n"
      "ctx_state c = VEO_STATE_BLOCKED"
      "request (comq c) = \<lparr>bq_queue = ?c # ?post, bq_state = VEO_QUEUE_READY\<rparr>"
      "set (i # is) \<subseteq> rem_reqid c" "cmd_id ` set (bq_queue (completion (comq c))) \<inter> U = {}"
    and ca: "args_heap (wk (ps s)) argp = Some ca" "arguments ca = map Some as"
    using assms(1) unfolding batch_def by auto
  let ?x = "(wk (ps s))\<lparr>tc := c\<rparr>"
  let ?y = "set_pending ?post (forget i ?x)"
  have y: "tc ?y = c\<lparr>rem_reqid := rem_reqid c - {i},
        comq := (comq c)\<lparr>request := \<lparr>bq_queue = ?post, bq_state = VEO_QUEUE_READY\<rparr>\<rparr>\<rparr>"
      "args_heap ?y = args_heap (wk (ps s))" "ctx_heap ?y = ctx_heap (wk (ps s))"
    using c(5) by (simp_all add: set_pending_def forget_def set_comq_def)
  have "\<exists>R M u. run_call E func argp ?c ?y = Some (Inr (0, setResult ?c (fst (F R M)) VEO_COMMAND_OK), u)
     \<and> values_passed func as R \<and> (\<exists>ca'. args_heap u argp = Some ca' \<and> arguments ca' = map Some as)"
    using run_call_ve_function [of E ?y reg vmem func F argp ca as _ ?c, OF _ _ ca(1) [folded y(2)] ca(2) assms(8)
        disjoint_by_value [OF assms(7)] refl] assms(4-6) c(2) y(1)
    by (fastforce simp: place_by_value [OF assms(7)] intro: values_passedI [OF _ assms(7)])
  then obtain R M u ca' where u: "run_call E func argp ?c ?y = Some (Inr (0, setResult ?c (fst (F R M)) VEO_COMMAND_OK), u)"
    and R: "values_passed func as R"
    and ca': "args_heap u argp = Some ca'" "arguments ca' = map Some as"
    by blast
  let ?r = "setResult ?c (fst (F R M)) VEO_COMMAND_OK"
  let ?w = "set_completed (completed ?x) (complete_command 0 ?r u)"
  have "pending (forget i ?x) = ?c # ?post" "i \<notin> cmd_id ` set (completed ?x)"
    using c(5,7) assms(2) by (auto simp: pending_def completed_def forget_def)
  then have "await E i (forget i ?x) = Some (Inr ?r, ?w)"
    using await_own_command [of "forget i ?x" ?c ?post E 0 ?r u] u c(4) by (simp add: state_simps)
  then have "callWaitResult E i ?x = Some (Inr (VEO_COMMAND_OK, Some (fst (F R M))), ?w)"
    using c(6) by (simp add: callWaitResult_eq)
  then have wait: "veo_call_wait_result E ctx i s = Some (Inr (VEO_COMMAND_OK, Some (fst (F R M))),
      s\<lparr>ps := (ps s)\<lparr>wk := ?w\<lparr>tc := tc (wk (ps s)), ctx_heap := (ctx_heap ?w)(ctx \<mapsto> tc ?w)\<rparr>\<rparr>\<rparr>)"
    unfolding veo_call_wait_result_def by (intro or_code_Some on_context_Some [OF c(1)])
  have same: "same_queues ?y u" by (rule run_command_same_queues [where f = ?f and E = E]) (use u in simp)
  have "ctx_state (tc u) = VEO_STATE_BLOCKED" using run_call_outcomes [OF u] by simp
  with same y(1) c(2,3,6,7) assms(3)
  have "os_handle (tc ?w) = h" "seq_no (tc ?w) = n" "ctx_state (tc ?w) = VEO_STATE_BLOCKED"
      "request (comq (tc ?w)) = \<lparr>bq_queue = ?post, bq_state = VEO_QUEUE_READY\<rparr>"
      "set is \<subseteq> rem_reqid (tc ?w)" "bq_queue (completion (comq (tc ?w))) = bq_queue (completion (comq c))"
      "args_heap ?w = args_heap u"
    by (auto simp: same_queues_def complete_command_def set_completed_def set_comq_def completed_def)
  with c(7) ca' have "batch h ctx func argp as U n is (s\<lparr>ps := (ps s)\<lparr>wk :=
      ?w\<lparr>tc := tc (wk (ps s)), ctx_heap := (ctx_heap ?w)(ctx \<mapsto> tc ?w)\<rparr>\<rparr>\<rparr>)"
    unfolding batch_def by (intro exI [of _ "tc ?w"] exI [of _ ca']) simp
  with wait R show ?thesis by blast
qed

lemma batch_wait_all:
  fixes E :: "'os veos"
  assumes "batch h ctx func argp as U n is s" and "set is \<subseteq> U" and "distinct is"
    and "ve_machine E h reg vmem" and "ve_function E h reg vmem func F"
    and "\<forall>a k w. \<exists>rv w'. ve_recv_data E h a k w = ((rv, mem_read (vmem w) a k), w')"
    and "list_all by_value as" and "int (image_size as) \<le> INT_MAX"
  shows "\<exists>rs t. wait_calls E ctx is s = Some (Inr rs, t) \<and> length rs = length is
     \<and> (\<forall>r \<in> set rs. \<exists>R M. r = (VEO_COMMAND_OK, Some (fst (F R M))) \<and> values_passed func as R)
     \<and> batch h ctx func argp as U n [] t"
  using assms(1-3)
proof (induction "is" arbitrary: s)
  case (Cons i "is")
  obtain R M t where t: "veo_call_wait_result E ctx i s = Some (Inr (VEO_COMMAND_OK, Some (fst (F R M))), t)"
      "values_passed func as R" "batch h ctx func argp as U n is t"
    using batch_wait [OF Cons.prems(1) _ _ assms(4-8)] Cons.prems by auto
  then obtain rs u where "wait_calls E ctx is t = Some (Inr rs, u)" "length rs = length is"
      "\<forall>r \<in> set rs. \<exists>R M. r = (VEO_COMMAND_OK, Some (fst (F R M))) \<and> values_passed func as R" "batch h ctx func argp as U n [] u"
    using Cons.IH [OF t(3)] Cons.prems by auto
  with t(1,2) show ?case
    by (intro exI [of _ "(VEO_COMMAND_OK, Some (fst (F R M))) # rs"] exI [of _ u]) auto
qed auto

text \<open>
  A batch of calls.  On an idle context with no result waiting, any number of calls of a VE function
  (fewer than \<open>2 ^ 64\<close>) with arguments by value can be submitted before the first of them is waited
  for: each gets a valid ID of its own, and waiting for them in their order gives, each time, the
  status OK and what the function returns for the arguments in its registers.
\<close>

theorem batch_of_calls:
  fixes E :: "'os veos"
  assumes "ctx_heap (wk (ps s)) ctx = Some c" and "ready ((wk (ps s))\<lparr>tc := c\<rparr>)"
    and "bq_queue (completion (comq c)) = []" and "func \<noteq> 0" and "k < 2 ^ 64"
    and "args_heap (wk (ps s)) argp = Some ca" and "arguments ca = map Some as"
    and "list_all by_value as" and "int (image_size as) \<le> INT_MAX"
    and "ve_machine E (os_handle c) reg vmem" and "ve_function E (os_handle c) reg vmem func F"
    and "\<forall>a k w. \<exists>rv w'. ve_recv_data E (os_handle c) a k w = ((rv, mem_read (vmem w) a k), w')"
  shows "\<exists>ids s1 rs t. submit_calls k ctx func argp s = Some (Inr ids, s1) \<and> length ids = k
     \<and> distinct ids \<and> VEO_REQUEST_ID_INVALID \<notin> set ids
     \<and> wait_calls E ctx ids s1 = Some (Inr rs, t) \<and> length rs = k
     \<and> (\<forall>r \<in> set rs. \<exists>R M. r = (VEO_COMMAND_OK, Some (fst (F R M))) \<and> values_passed func as R)"
proof -
  let ?ids = "issue_ids k (seq_no c)"
  have "request (comq c) = \<lparr>bq_queue = [], bq_state = VEO_QUEUE_READY\<rparr>"
    using assms(2) by (cases "request (comq c)") (simp add: ready_def pending_def)
  then have "batch (os_handle c) ctx func argp as UNIV (seq_no c) [] s"
    using assms(1-3,6,7) by (simp add: batch_def ready_def)
  from batch_submit_all [OF this assms(4), of k]
  obtain s1 n where s1: "submit_calls k ctx func argp s = Some (Inr ?ids, s1)"
      "batch (os_handle c) ctx func argp as UNIV n ?ids s1" by auto
  from batch_wait_all [OF s1(2) _ issue_ids_distinct [OF assms(5)] assms(10-12,8,9)] s1(1)
  show ?thesis using issue_ids_distinct [OF assms(5)] issue_ids_valid by auto
qed

end
