(* ===== verification/Memory_Requests.thy ===== *)
theory Memory_Requests
  imports Worker_Calls Sample_Batch
begin

text \<open>
  Memory transfers and calls on one context: the requests queued on it act, in their order, on the
  memories of the VH and of the VE.
\<close>

section \<open>The sequential machine\<close>

text \<open>
  What a request does with the memory of the VH and the memory of the VE, with the value it gives:
  \<open>G\<close> are the functions on the VE by address, \<open>A\<close> the argument objects with arguments by value.
\<close>

inductive mem_exec ::
  "(u64 \<Rightarrow> ve_semantics option) \<Rightarrow> (nat \<Rightarrow> arg_base list option) \<Rightarrow> closure
     \<Rightarrow> memory \<times> memory \<Rightarrow> u64 \<Rightarrow> memory \<times> memory \<Rightarrow> bool"
  for G A where
  to_ve: "mem_exec G A (WriteMem dst src sz) (V, M) 0 (V, mem_write M dst (mem_read V src (unat sz)))"
| from_ve: "mem_exec G A (ReadMem dst src sz) (V, M) 0 (mem_write V dst (mem_read M src (unat sz)), M)"
| call: "G func = Some F \<Longrightarrow> A ref = Some as \<Longrightarrow> values_passed func as R \<Longrightarrow>
    mem_exec G A (CallFunction func ref) (V, M) (fst (F R M)) (V, snd (F R M))"

inductive_cases write_execE: "mem_exec G A (WriteMem dst src sz) m v m'"
inductive_cases read_execE: "mem_exec G A (ReadMem dst src sz) m v m'"
inductive_cases call_execE: "mem_exec G A (CallFunction func ref) m v m'"

inductive mem_run ::
  "(u64 \<Rightarrow> ve_semantics option) \<Rightarrow> (nat \<Rightarrow> arg_base list option) \<Rightarrow> closure list
     \<Rightarrow> memory \<times> memory \<Rightarrow> u64 list \<Rightarrow> memory \<times> memory \<Rightarrow> bool"
  for G A where
  Nil: "mem_run G A [] m [] m"
| Cons: "mem_exec G A f m v m' \<Longrightarrow> mem_run G A fs m' vs m'' \<Longrightarrow> mem_run G A (f # fs) m (v # vs) m''"

inductive_simps mem_run_Nil [simp]: "mem_run G A [] m vs m'"
inductive_simps mem_run_Cons [simp]: "mem_run G A (f # fs) m vs m'"

section \<open>The environment\<close>

text \<open>A transfer between the memories succeeds; reading leaves the memory of the VE as it is.\<close>

definition ve_memory :: "'os veos \<Rightarrow> nat \<Rightarrow> ('os \<Rightarrow> memory) \<Rightarrow> bool" where
  "ve_memory E h vmem \<longleftrightarrow>
     (\<forall>a k w. \<exists>w'. ve_recv_data E h a k w = ((0, mem_read (vmem w) a k), w') \<and> vmem w' = vmem w)
     \<and> (\<forall>a bs w. fst (ve_send_data E h a bs w) = 0)"

definition ve_functions ::
  "'os veos \<Rightarrow> nat \<Rightarrow> ('os \<Rightarrow> nat \<Rightarrow> u64) \<Rightarrow> ('os \<Rightarrow> memory) \<Rightarrow> (u64 \<Rightarrow> ve_semantics option) \<Rightarrow> bool" where
  "ve_functions E h reg vmem G \<longleftrightarrow>
     ve_machine E h reg vmem \<and> ve_memory E h vmem \<and> (\<forall>func F. G func = Some F \<longrightarrow> ve_function E h reg vmem func F)"

text \<open>The argument objects of \<open>A\<close>: at most eight arguments, all by value, so that no frame is sent.\<close>

definition args_by_value :: "(nat \<Rightarrow> arg_base list option) \<Rightarrow> bool" where
  "args_by_value A \<longleftrightarrow> (\<forall>ref as. A ref = Some as \<longrightarrow> list_all by_value as \<and> length as \<le> 8)"

definition args_held :: "(nat \<Rightarrow> arg_base list option) \<Rightarrow> 'os tstate \<Rightarrow> bool" where
  "args_held A s \<longleftrightarrow>
     (\<forall>ref as. A ref = Some as \<longrightarrow> (\<exists>ca. args_heap s ref = Some ca \<and> arguments ca = map Some as))"

fun supported :: "(u64 \<Rightarrow> ve_semantics option) \<Rightarrow> (nat \<Rightarrow> arg_base list option) \<Rightarrow> closure \<Rightarrow> bool" where
  "supported G A (CallFunction func ref) = (func \<noteq> 0 \<and> G func \<noteq> None \<and> A ref \<noteq> None)"
| "supported G A (ReadMem dst src sz) = True"
| "supported G A (WriteMem dst src sz) = True"
| "supported G A f = False"

definition memories :: "('os \<Rightarrow> memory) \<Rightarrow> 'os tstate \<Rightarrow> memory \<times> memory" where
  "memories vmem s = (vh_mem s, vmem (os s))"

section \<open>One request\<close>

lemma no_frame:
  assumes "list_all by_value as" and "length as \<le> 8"
  shows "\<not> any_flag_in as 0" "\<not> list_ex flag_out as" "int (image_size as) \<le> INT_MAX"
proof -
  have free: "by_value a \<Longrightarrow> n < 8 \<Longrightarrow> \<not> flag_in n a \<and> \<not> flag_out a \<and> stack_bytes a = 0" for a n
    by (cases a) (simp_all add: NUM_ARGS_ON_REGISTER_def)
  show "\<not> any_flag_in as 0" "\<not> list_ex flag_out as"
    using assms free by (auto simp: any_flag_in_iff list_ex_length list_all_length by_value_at)
  have "data_size as = 0"
    using assms(1) free [of _ 0] by (simp add: data_size_def list_all_iff)
  then show "int (image_size as) \<le> INT_MAX"
    using assms(2) by (simp add: image_size_def slot_off_def PARAM_AREA_OFFSET_def INT_MAX_def)
qed

lemma run_call_by_value:
  fixes E :: "'os veos"
  assumes "ve_functions E (os_handle (tc s)) reg vmem G" and "G func = Some F"
    and "args_heap s ref = Some ca" "arguments ca = map Some as" and "list_all by_value as" "length as \<le> 8"
  shows "\<exists>R t ca'. run_call E func ref c s = Some (Inr (0, setResult c (fst (F R (vmem (os s)))) VEO_COMMAND_OK), t)
     \<and> values_passed func as R \<and> vh_mem t = vh_mem s \<and> vmem (os t) = snd (F R (vmem (os s)))
     \<and> args_heap t = (args_heap s)(ref \<mapsto> ca') \<and> arguments ca' = map Some as"
proof -
  let ?sp = "ve_sp (tc s) - of_nat (image_size as)"
  note flags = no_frame [OF assms(5,6)]
  have env: "ve_machine E (os_handle (tc s)) reg vmem" "ve_function E (os_handle (tc s)) reg vmem func F"
      "\<exists>rv w'. ve_recv_data E (os_handle (tc s)) a k w = ((rv, mem_read (vmem w) a k), w')" for a k w
    using assms(1,2) by (auto simp: ve_functions_def ve_memory_def) metis
  obtain R M t ca' where t: "run_call E func ref c s = Some (Inr (0, setResult c (fst (F R M)) VEO_COMMAND_OK), t)"
      "arguments_passed (vh_mem s) func ?sp as R M" "outputs_delivered (vh_mem s) (vh_mem t) ?sp as (snd (F R M))"
      "args_heap t = (args_heap s)(ref \<mapsto> ca')" "arguments ca' = map Some (place_all ?sp as (slot_off (length as)))"
      "M = vmem (os s)" "vmem (os t) = snd (F R M)"
    using run_call_ve_memory [OF env(1,2) assms(3,4) flags(3) disjoint_by_value [OF assms(5)] refl env(3), of c]
      flags(1,2) by blast
  moreover have "vh_mem t = vh_mem s" by (rule outputs_delivered_none [OF t(3) flags(2)])
  ultimately show ?thesis
    using values_passedI [OF t(2) assms(5)] place_by_value [OF assms(5)] by auto
qed

text \<open>Every supported request succeeds and does to the memories what the machine says.\<close>

lemma run_supported:
  fixes E :: "'os veos"
  assumes "ve_functions E (os_handle (tc s)) reg vmem G" and "args_by_value A" and "args_held A s"
    and "supported G A f" and "ctx_state (tc s) = VEO_STATE_BLOCKED"
  shows "\<exists>v t. run_command E f c s = Some (Inr (0, setResult c v VEO_COMMAND_OK), t)
     \<and> mem_exec G A f (memories vmem s) v (memories vmem t) \<and> args_held A t
     \<and> ctx_state (tc t) = VEO_STATE_BLOCKED \<and> ctx_heap t = ctx_heap s"
proof (cases f)
  case (CallFunction func ref)
  then obtain F as ca where F: "G func = Some F" "A ref = Some as" "args_heap s ref = Some ca"
      "arguments ca = map Some as" "list_all by_value as" "length as \<le> 8"
    using assms(2-4) unfolding args_by_value_def args_held_def by auto metis
  obtain R t ca' where t: "run_call E func ref c s = Some (Inr (0, setResult c (fst (F R (vmem (os s)))) VEO_COMMAND_OK), t)"
      "values_passed func as R" "vh_mem t = vh_mem s" "vmem (os t) = snd (F R (vmem (os s)))"
      "args_heap t = (args_heap s)(ref \<mapsto> ca')" "arguments ca' = map Some as"
    using run_call_by_value [OF assms(1) F(1,3-6), of c] by blast
  have "mem_exec G A f (memories vmem s) (fst (F R (vmem (os s)))) (memories vmem t)"
    using mem_exec.call [of G func F A ref as R] F t by (simp add: CallFunction memories_def)
  moreover have "args_held A t" using assms(3) F(2) t(5,6) by (auto simp: args_held_def)
  moreover have "ctx_state (tc t) = VEO_STATE_BLOCKED" using run_call_outcomes [OF t(1)] by simp
  ultimately show ?thesis using t(1) run_call_ctx_heap [OF t(1)] by (simp add: CallFunction)
next
  case (ReadMem dst src sz)
  obtain w where w: "ve_recv_data E (os_handle (tc s)) src (unat sz) (os s)
      = ((0, mem_read (vmem (os s)) src (unat sz)), w)" "vmem w = vmem (os s)"
    using assms(1) unfolding ve_functions_def ve_memory_def by blast
  then show ?thesis
    using assms(3,5) mem_exec.from_ve [of G A dst src sz "vh_mem s" "vmem (os s)"]
    by (simp add: ReadMem run_transfer_def readMem_def os_call_def memories_def args_held_def)
next
  case (WriteMem dst src sz)
  let ?bs = "mem_read (vh_mem s) src (unat sz)"
  have "fst (ve_send_data E (os_handle (tc s)) dst ?bs (os s)) = 0"
      "vmem (snd (ve_send_data E (os_handle (tc s)) dst ?bs (os s))) = mem_write (vmem (os s)) dst ?bs"
    using assms(1) by (simp_all add: ve_functions_def ve_memory_def ve_machine_def)
  then show ?thesis
    using assms(3,5) mem_exec.to_ve [of G A dst src sz "vh_mem s" "vmem (os s)"]
    by (simp add: WriteMem run_transfer_def writeMem_def os_call_def memories_def args_held_def split: prod.split)
qed (use assms(4) in simp_all)

section \<open>The queues\<close>

text \<open>
  A context, as the current one, with the requests \<open>todo\<close> in its request queue and the results \<open>ready\<close>
  in its completion queue.
\<close>

definition serving ::
  "nat \<Rightarrow> (nat \<Rightarrow> arg_base list option) \<Rightarrow> (u64 \<times> closure) list \<Rightarrow> (u64 \<times> closure \<times> u64) list \<Rightarrow> 'os tstate \<Rightarrow> bool" where
  "serving h A todo results s \<longleftrightarrow>
     os_handle (tc s) = h \<and> \<not> is_main_thread (tc s) \<and> ctx_state (tc s) = VEO_STATE_BLOCKED
     \<and> bq_state (request (comq (tc s))) = VEO_QUEUE_READY
     \<and> pending s = map (\<lambda>(i, f). new_Command i f) todo
     \<and> completed s = map (\<lambda>(i, f, v). setResult (new_Command i f) v VEO_COMMAND_OK) results
     \<and> args_held A s"

lemma completed_ids:
  "serving h A todo results s \<Longrightarrow> cmd_id ` set (completed s) = fst ` set results"
  by (force simp: serving_def state_simps image_iff)

text \<open>One iteration of the event loop.\<close>

lemma serving_iter:
  fixes E :: "'os veos"
  assumes "serving h A ((i, f) # todo) results s"
    and "ve_functions E h reg vmem G" and "args_by_value A" and "supported G A f"
  shows "\<exists>v t. eventLoop_iter E s = Some (Inr LoopContinue, t) \<and> serving h A todo (results @ [(i, f, v)]) t
     \<and> mem_exec G A f (memories vmem s) v (memories vmem t)
     \<and> ctx_heap t = ctx_heap s \<and> rem_reqid (tc t) = rem_reqid (tc s) \<and> seq_no (tc t) = seq_no (tc s)"
proof -
  let ?c = "new_Command i f" and ?s = "set_pending (map (\<lambda>(i, f). new_Command i f) todo) s"
  have s: "os_handle (tc ?s) = h" "ctx_state (tc ?s) = VEO_STATE_BLOCKED" "args_held A ?s" "ctx_heap ?s = ctx_heap s"
      "memories vmem ?s = memories vmem s" "\<not> is_main_thread (tc ?s)" "rem_reqid (tc ?s) = rem_reqid (tc s)"
      "seq_no (tc ?s) = seq_no (tc s)" "bq_state (request (comq (tc ?s))) = VEO_QUEUE_READY"
    using assms(1) by (simp_all add: serving_def set_pending_def set_comq_def args_held_def memories_def)
  obtain v t where t: "run_command E f ?c ?s = Some (Inr (0, setResult ?c v VEO_COMMAND_OK), t)"
      "mem_exec G A f (memories vmem s) v (memories vmem t)" "args_held A t" "ctx_state (tc t) = VEO_STATE_BLOCKED"
      "ctx_heap t = ctx_heap s"
    using run_supported [of E ?s reg vmem G A f ?c] assms(2-4) s by auto
  let ?w = "complete_command 0 (setResult ?c v VEO_COMMAND_OK) t"
  have "eventLoop_iter E s = Some (Inr LoopContinue, ?w)"
    using assms(1) t(1) by (simp add: eventLoop_iter_eq serving_def state_simps)
  moreover have same: "same_queues ?s t" by (rule run_command_same_queues [OF t(1)])
  moreover have "is_main_thread (tc t) = is_main_thread (tc ?s)" by (rule main_flag.run_command_returns [OF t(1)])
  moreover have "pending t = map (\<lambda>(i, f). new_Command i f) todo" "completed t = completed s"
    using same by (simp_all add: same_queues_views)
  moreover have "memories vmem ?w = memories vmem t" "args_held A ?w = args_held A t" "ctx_heap ?w = ctx_heap t"
    by (simp_all add: complete_command_def set_comq_def memories_def args_held_def Let_def)
  ultimately show ?thesis
    using assms(1) s t(2-5)
    by (intro exI [of _ v] exI [of _ ?w])
      (simp add: serving_def same_queues_def complete_command_def set_comq_def Let_def pending_def completed_def)
qed

lemma serving_take:
  assumes "serving h A todo (xs @ (i, f, v) # ys) s" and "i \<notin> fst ` set xs"
  shows "await E i s = Some (Inr (setResult (new_Command i f) v VEO_COMMAND_OK),
       set_completed (map (\<lambda>(i, f, v). setResult (new_Command i f) v VEO_COMMAND_OK) (xs @ ys)) s)"
    and "serving h A todo (xs @ ys)
       (set_completed (map (\<lambda>(i, f, v). setResult (new_Command i f) v VEO_COMMAND_OK) (xs @ ys)) s)"
proof -
  let ?r = "\<lambda>(i, f, v). setResult (new_Command i f) v VEO_COMMAND_OK"
  have "completed s = map ?r xs @ ?r (i, f, v) # map ?r ys" using assms(1) by (simp add: serving_def)
  moreover have "i \<notin> cmd_id ` set (map ?r xs)" using assms(2) by (force simp: state_simps)
  ultimately have "take_completion i s = Some (Inr (?r (i, f, v)), set_completed (map ?r xs @ map ?r ys) s)"
    by (intro take_completion_first) (simp_all add: state_simps)
  then show "await E i s = Some (Inr (setResult (new_Command i f) v VEO_COMMAND_OK), set_completed (map ?r (xs @ ys)) s)"
    by (subst await.simps) simp
  show "serving h A todo (xs @ ys) (set_completed (map ?r (xs @ ys)) s)"
    using assms(1) by (simp add: serving_def set_completed_def set_comq_def args_held_def completed_def pending_def)
qed

text \<open>Waiting executes the requests in front of the one waited for, and that one.\<close>

lemma serving_await:
  fixes E :: "'os veos"
  assumes "serving h A (pre @ (i, f) # post) results s" and "i \<notin> fst ` set results" and "i \<notin> fst ` set pre"
    and "ve_functions E h reg vmem G" and "args_by_value A" and "\<forall>g \<in> set (map snd pre @ [f]). supported G A g"
  shows "\<exists>vs v t. await E i s = Some (Inr (setResult (new_Command i f) v VEO_COMMAND_OK), t)
     \<and> length vs = length pre \<and> mem_run G A (map snd pre @ [f]) (memories vmem s) (vs @ [v]) (memories vmem t)
     \<and> serving h A post (results @ map2 (\<lambda>(j, g) u. (j, g, u)) pre vs) t
     \<and> ctx_heap t = ctx_heap s \<and> rem_reqid (tc t) = rem_reqid (tc s) \<and> seq_no (tc t) = seq_no (tc s)"
  using assms(1-3,6)
proof (induction pre arbitrary: results s)
  case Nil
  then obtain v t where t: "eventLoop_iter E s = Some (Inr LoopContinue, t)" "serving h A post (results @ [(i, f, v)]) t"
      "mem_exec G A f (memories vmem s) v (memories vmem t)"
      "ctx_heap t = ctx_heap s" "rem_reqid (tc t) = rem_reqid (tc s)" "seq_no (tc t) = seq_no (tc s)"
    using serving_iter [OF _ assms(4,5), of i f post results s] by auto
  have "await E i s = await E i t"
    using Nil.prems(1,2) t(1) by (intro await_continue) (simp_all add: completed_ids)
  with serving_take(1) [OF t(2) Nil.prems(2), of E] serving_take(2) [OF t(2) Nil.prems(2)] t(3-6) show ?case
    by (intro exI [of _ "[]"] exI [of _ v]) (auto simp: memories_def set_completed_def set_comq_def)
next
  case (Cons p pre)
  obtain j g where p: "p = (j, g)" by fastforce
  obtain u t where t: "eventLoop_iter E s = Some (Inr LoopContinue, t)"
      "serving h A (pre @ (i, f) # post) (results @ [(j, g, u)]) t" "mem_exec G A g (memories vmem s) u (memories vmem t)"
      "ctx_heap t = ctx_heap s" "rem_reqid (tc t) = rem_reqid (tc s)" "seq_no (tc t) = seq_no (tc s)"
    using serving_iter [OF _ assms(4,5), of j g "pre @ (i, f) # post" results s] Cons.prems(1,4) p by auto
  have "await E i s = await E i t"
    using Cons.prems(1,2) t(1) by (intro await_continue) (simp_all add: completed_ids)
  moreover obtain vs v w where "await E i t = Some (Inr (setResult (new_Command i f) v VEO_COMMAND_OK), w)"
      "length vs = length pre" "mem_run G A (map snd pre @ [f]) (memories vmem t) (vs @ [v]) (memories vmem w)"
      "serving h A post ((results @ [(j, g, u)]) @ map2 (\<lambda>(j, g) u. (j, g, u)) pre vs) w"
      "ctx_heap w = ctx_heap t" "rem_reqid (tc w) = rem_reqid (tc t)" "seq_no (tc w) = seq_no (tc t)"
    using Cons.IH [OF t(2)] Cons.prems p by auto
  moreover from this(3) have "mem_run G A (g # map snd pre @ [f]) (memories vmem s) (u # vs @ [v]) (memories vmem w)"
    by (rule mem_run.Cons [OF t(3)])
  ultimately show ?case
    using t(4-6) p by (intro exI [of _ "u # vs"] exI [of _ v] exI [of _ w]) (simp del: mem_run_Cons)
qed

section \<open>Through the C API\<close>

definition serves ::
  "nat \<Rightarrow> u64 \<Rightarrow> (nat \<Rightarrow> arg_base list option) \<Rightarrow> u64 \<Rightarrow> (u64 \<times> closure) list \<Rightarrow> (u64 \<times> closure \<times> u64) list
     \<Rightarrow> 'os astate \<Rightarrow> bool" where
  "serves h ctx A n todo results s \<longleftrightarrow>
     (\<exists>c. ctx_heap (wk (ps s)) ctx = Some c \<and> seq_no c = n \<and> serving h A todo results ((wk (ps s))\<lparr>tc := c\<rparr>)
        \<and> fst ` set todo \<union> fst ` set results \<subseteq> rem_reqid c \<and> distinct (map fst todo @ map fst results))"

text \<open>The context \<open>ctx\<close> is left in the state \<open>t\<close>.\<close>

lemma servesI:
  assumes "serving h A todo results t" and "seq_no (tc t) = n"
    and "set (map fst todo @ map fst results) \<subseteq> rem_reqid (tc t)" and "distinct (map fst todo @ map fst results)"
  shows "serves h ctx A n todo results
     (s\<lparr>ps := (ps s)\<lparr>wk := t\<lparr>tc := c, ctx_heap := (ctx_heap t)(ctx \<mapsto> tc t)\<rparr>\<rparr>\<rparr>)"
  using assms by (simp add: serves_def serving_def pending_def completed_def args_held_def)

fun request_of :: "u64 \<Rightarrow> closure \<Rightarrow> ('os astate, u64) prog" where
  "request_of ctx (CallFunction func ref) = veo_call_async ctx func ref"
| "request_of ctx (ReadMem dst src sz) = veo_async_read_mem ctx dst src sz"
| "request_of ctx (WriteMem dst src sz) = veo_async_write_mem ctx dst src sz"
| "request_of ctx f = throwP UndefinedBehaviour"

lemma request_of_submit:
  assumes "supported G A f" and "ctx_heap (wk (ps s)) ctx = Some c" and "ctx_state c = VEO_STATE_BLOCKED"
    and "submit f ((wk (ps s))\<lparr>tc := c\<rparr>) = Some (Inr i, y)"
  shows "request_of ctx f s = Some (Inr i, s\<lparr>ps := (ps s)\<lparr>wk :=
     y\<lparr>tc := tc (wk (ps s)), ctx_heap := (ctx_heap y)(ctx \<mapsto> tc y)\<rparr>\<rparr>\<rparr>)"
  using assms
  by (cases f) (simp_all add: veo_call_async_def veo_async_read_mem_def veo_async_write_mem_def or_code_def catchP_def
      on_context_def callAsync_def asyncReadMem_def asyncWriteMem_def)

lemma serves_submit:
  assumes "serves h ctx A n todo results s" and "supported G A f"
    and "fst (fetch_id n) \<notin> fst ` set todo \<union> fst ` set results"
  shows "\<exists>t. request_of ctx f s = Some (Inr (fst (fetch_id n)), t)
     \<and> serves h ctx A (snd (fetch_id n)) (todo @ [(fst (fetch_id n), f)]) results t
     \<and> memories vmem (wk (ps t)) = memories vmem (wk (ps s)) \<and> process_kept s t"
proof -
  let ?i = "fst (fetch_id n)"
  obtain c where c: "ctx_heap (wk (ps s)) ctx = Some c" "seq_no c = n" "serving h A todo results ((wk (ps s))\<lparr>tc := c\<rparr>)"
      "fst ` set todo \<union> fst ` set results \<subseteq> rem_reqid c" "distinct (map fst todo @ map fst results)"
    using assms(1) unfolding serves_def by blast
  let ?x = "(wk (ps s))\<lparr>tc := c\<rparr>"
  let ?y = "set_pending (map (\<lambda>(i, f). new_Command i f) (todo @ [(?i, f)])) (issued ?x)"
  let ?t = "s\<lparr>ps := (ps s)\<lparr>wk := ?y\<lparr>tc := tc (wk (ps s)), ctx_heap := (ctx_heap ?y)(ctx \<mapsto> tc ?y)\<rparr>\<rparr>\<rparr>"
  have "submit f ?x = Some (Inr ?i, ?y)"
    using c(2,3) by (simp add: serving_def submitted_state)
  moreover have "ctx_state c = VEO_STATE_BLOCKED" using c(3) by (simp add: serving_def)
  ultimately have "request_of ctx f s = Some (Inr ?i, ?t)"
    by (intro request_of_submit [OF assms(2) c(1)])
  moreover have "serves h ctx A (snd (fetch_id n)) (todo @ [(?i, f)]) results ?t"
    by (rule servesI) (use c assms(3) in \<open>auto simp: serving_def set_pending_def issued_def set_comq_def
        pending_def completed_def args_held_def\<close>)
  ultimately show ?thesis
    by (intro exI [of _ ?t]) (simp add: memories_def process_kept_def set_pending_def issued_def set_comq_def)
qed

lemma serves_wait:
  fixes E :: "'os veos"
  assumes "serves h ctx A n (pre @ (i, f) # post) results s"
    and "ve_functions E h reg vmem G" and "args_by_value A" and "\<forall>g \<in> set (map snd pre @ [f]). supported G A g"
  shows "\<exists>vs v t. veo_call_wait_result E ctx i s = Some (Inr (VEO_COMMAND_OK, Some v), t)
     \<and> length vs = length pre
     \<and> mem_run G A (map snd pre @ [f]) (memories vmem (wk (ps s))) (vs @ [v]) (memories vmem (wk (ps t)))
     \<and> serves h ctx A n post (results @ map2 (\<lambda>(j, g) u. (j, g, u)) pre vs) t"
proof -
  obtain c where c: "ctx_heap (wk (ps s)) ctx = Some c" "seq_no c = n"
      "serving h A (pre @ (i, f) # post) results ((wk (ps s))\<lparr>tc := c\<rparr>)"
      "fst ` set (pre @ (i, f) # post) \<union> fst ` set results \<subseteq> rem_reqid c"
      "distinct (map fst (pre @ (i, f) # post) @ map fst results)"
    using assms(1) unfolding serves_def by blast
  let ?x = "(wk (ps s))\<lparr>tc := c\<rparr>"
  have x: "serving h A (pre @ (i, f) # post) results (forget i ?x)"
    using c(3) by (simp add: serving_def forget_def pending_def completed_def args_held_def)
  have fresh: "i \<notin> fst ` set results" "i \<notin> fst ` set pre" using c(5) by auto
  obtain vs v t where t: "await E i (forget i ?x) = Some (Inr (setResult (new_Command i f) v VEO_COMMAND_OK), t)"
      "length vs = length pre" "mem_run G A (map snd pre @ [f]) (memories vmem ?x) (vs @ [v]) (memories vmem t)"
      "serving h A post (results @ map2 (\<lambda>(j, g) u. (j, g, u)) pre vs) t"
      "ctx_heap t = ctx_heap (wk (ps s))" "rem_reqid (tc t) = rem_reqid c - {i}" "seq_no (tc t) = n"
    using serving_await [OF x fresh assms(2-4)] c(2) by (auto simp: forget_def memories_def)
  let ?t = "s\<lparr>ps := (ps s)\<lparr>wk := t\<lparr>tc := tc (wk (ps s)), ctx_heap := (ctx_heap t)(ctx \<mapsto> tc t)\<rparr>\<rparr>\<rparr>"
  have "callWaitResult E i ?x = Some (Inr (VEO_COMMAND_OK, Some v), t)"
    using t(1) c(4) by (simp add: callWaitResult_eq)
  then have "veo_call_wait_result E ctx i s = Some (Inr (VEO_COMMAND_OK, Some v), ?t)"
    unfolding veo_call_wait_result_def by (intro or_code_Some on_context_Some [OF c(1)])
  moreover have ids: "map fst (map2 (\<lambda>(j, g) u. (j, g, u)) pre vs) = map fst pre"
    by (rule nth_equalityI) (simp_all add: t(2) split: prod.split)
  then have "serves h ctx A n post (results @ map2 (\<lambda>(j, g) u. (j, g, u)) pre vs) ?t"
    using c(4,5) t(6) by (intro servesI [OF t(4,7)]) (auto simp: map_append ids simp del: map_map)
  ultimately show ?thesis
    using t(2,3) by (intro exI [of _ vs] exI [of _ v] exI [of _ ?t]) (simp add: memories_def)
qed

lemma serves_take:
  fixes E :: "'os veos"
  assumes "serves h ctx A n todo (xs @ (i, f, v) # ys) s"
  shows "\<exists>t. veo_call_wait_result E ctx i s = Some (Inr (VEO_COMMAND_OK, Some v), t)
     \<and> memories vmem (wk (ps t)) = memories vmem (wk (ps s)) \<and> serves h ctx A n todo (xs @ ys) t"
proof -
  obtain c where c: "ctx_heap (wk (ps s)) ctx = Some c" "seq_no c = n"
      "serving h A todo (xs @ (i, f, v) # ys) ((wk (ps s))\<lparr>tc := c\<rparr>)"
      "fst ` set todo \<union> fst ` set (xs @ (i, f, v) # ys) \<subseteq> rem_reqid c"
      "distinct (map fst todo @ map fst (xs @ (i, f, v) # ys))"
    using assms(1) unfolding serves_def by blast
  let ?x = "(wk (ps s))\<lparr>tc := c\<rparr>"
  let ?t = "set_completed (map (\<lambda>(i, f, v). setResult (new_Command i f) v VEO_COMMAND_OK) (xs @ ys)) (forget i ?x)"
  have x: "serving h A todo (xs @ (i, f, v) # ys) (forget i ?x)"
    using c(3) by (simp add: serving_def forget_def pending_def completed_def args_held_def)
  have fresh: "i \<notin> fst ` set xs" using c(5) by auto
  have "callWaitResult E i ?x = Some (Inr (VEO_COMMAND_OK, Some v), ?t)"
    using serving_take(1) [OF x fresh, of E] c(4) by (simp add: callWaitResult_eq)
  then have "veo_call_wait_result E ctx i s = Some (Inr (VEO_COMMAND_OK, Some v),
      s\<lparr>ps := (ps s)\<lparr>wk := ?t\<lparr>tc := tc (wk (ps s)), ctx_heap := (ctx_heap ?t)(ctx \<mapsto> tc ?t)\<rparr>\<rparr>\<rparr>)"
      (is "_ = Some (_, ?u)")
    unfolding veo_call_wait_result_def by (intro or_code_Some on_context_Some [OF c(1)])
  moreover have fields: "memories vmem ?t = memories vmem (wk (ps s))" "seq_no (tc ?t) = n"
      "rem_reqid (tc ?t) = rem_reqid c - {i}"
    using c(2) by (simp_all add: memories_def set_completed_def forget_def set_comq_def)
  moreover have "serves h ctx A n todo (xs @ ys) ?u"
    using c(4,5) by (intro servesI [OF serving_take(2) [OF x fresh] fields(2)]) (auto simp: fields(3))
  ultimately show ?thesis
    by (intro exI [of _ ?u]) (simp add: memories_def)
qed

section \<open>Any sequence of requests\<close>

fun submit_requests :: "u64 \<Rightarrow> closure list \<Rightarrow> ('os astate, u64 list) prog" where
  "submit_requests ctx [] = returnP []"
| "submit_requests ctx (f # fs) =
     bindP (request_of ctx f) (\<lambda>i. bindP (submit_requests ctx fs) (\<lambda>is. returnP (i # is)))"

lemma serves_ready:
  assumes "context_ready h ctx s" and "args_held A (wk (ps s))"
  shows "\<exists>n. serves h ctx A n [] [] s"
  using assms by (auto simp: context_ready_def serves_def serving_def pending_def completed_def args_held_def)

lemma ready_serves: "serves h ctx A n [] [] s \<Longrightarrow> context_ready h ctx s"
  by (auto simp: serves_def serving_def context_ready_def pending_def completed_def intro: blocking_queue.equality)

lemma serves_submit_all:
  assumes "serves h ctx A n todo [] s" and "\<forall>f \<in> set fs. supported G A f"
    and "distinct (map fst todo @ issue_ids (length fs) n)"
  shows "\<exists>n' t. submit_requests ctx fs s = Some (Inr (issue_ids (length fs) n), t)
     \<and> serves h ctx A n' (todo @ zip (issue_ids (length fs) n) fs) [] t
     \<and> memories vmem (wk (ps t)) = memories vmem (wk (ps s))"
  using assms
proof (induction fs arbitrary: n todo s)
  case (Cons f fs)
  let ?i = "fst (fetch_id n)"
  obtain t where t: "request_of ctx f s = Some (Inr ?i, t)" "serves h ctx A (snd (fetch_id n)) (todo @ [(?i, f)]) [] t"
      "memories vmem (wk (ps t)) = memories vmem (wk (ps s))"
    using serves_submit [OF Cons.prems(1), of G f vmem] Cons.prems(2,3) by auto
  moreover have "distinct (map fst (todo @ [(?i, f)]) @ issue_ids (length fs) (snd (fetch_id n)))"
    using Cons.prems(3) by auto
  ultimately obtain n' u where "submit_requests ctx fs t = Some (Inr (issue_ids (length fs) (snd (fetch_id n))), u)"
      "serves h ctx A n' ((todo @ [(?i, f)]) @ zip (issue_ids (length fs) (snd (fetch_id n))) fs) [] u"
      "memories vmem (wk (ps u)) = memories vmem (wk (ps t))"
    using Cons.IH [of "snd (fetch_id n)" "todo @ [(?i, f)]" t] Cons.prems(2) by auto
  with t show ?case by (intro exI [of _ n'] exI [of _ u]) simp
qed auto

lemma serves_wait_all:
  fixes E :: "'os veos"
  assumes "serves h ctx A n todo [] s" and "ve_functions E h reg vmem G" and "args_by_value A"
    and "\<forall>f \<in> set (map snd todo). supported G A f"
  shows "\<exists>vs t. wait_calls E ctx (map fst todo) s = Some (Inr (map (\<lambda>v. (VEO_COMMAND_OK, Some v)) vs), t)
     \<and> mem_run G A (map snd todo) (memories vmem (wk (ps s))) vs (memories vmem (wk (ps t)))
     \<and> serves h ctx A n [] [] t"
  using assms(1,4)
proof (induction todo arbitrary: s)
  case (Cons p todo)
  obtain i f where p: "p = (i, f)" by fastforce
  obtain v t where t: "veo_call_wait_result E ctx i s = Some (Inr (VEO_COMMAND_OK, Some v), t)"
      "mem_run G A [f] (memories vmem (wk (ps s))) [v] (memories vmem (wk (ps t)))" "serves h ctx A n todo [] t"
    using serves_wait [of h ctx A n "[]" i f todo "[]" s, OF _ assms(2,3)] Cons.prems p
    by (auto simp del: mem_run_Cons mem_run_Nil)
  obtain vs u where u: "wait_calls E ctx (map fst todo) t = Some (Inr (map (\<lambda>v. (VEO_COMMAND_OK, Some v)) vs), u)"
      "mem_run G A (map snd todo) (memories vmem (wk (ps t))) vs (memories vmem (wk (ps u)))"
      "serves h ctx A n [] [] u"
    using Cons.IH [OF t(3)] Cons.prems(2) by auto
  have "mem_run G A (f # map snd todo) (memories vmem (wk (ps s))) (v # vs) (memories vmem (wk (ps u)))"
    using t(2) u(2) by (intro mem_run.Cons) auto
  with t(1) u(1,3) p show ?case
    by (intro exI [of _ "v # vs"] exI [of _ u]) (simp del: mem_run_Cons)
qed auto


end
