(* ===== verification/Sample_Programs.thy ===== *)
theory Sample_Programs
  imports Sample_Batch Worker_Calls Creation
begin

text \<open>
  Sample programs of the library (\<^verbatim>\<open>src/examples\<close>) as clients of the C API:
  \<^verbatim>\<open>test_child1.c\<close>, \<^verbatim>\<open>test_child2.c\<close> and \<^verbatim>\<open>simplefunccall.c\<close> with the VE functions they call
  (\<^verbatim>\<open>libvehello.c\<close>, \<^verbatim>\<open>libvehello2.c\<close>, \<^verbatim>\<open>libvesimplefunc.c\<close>).  What the VE functions print, and
  messages on the standard error stream, are left out.
\<close>

section \<open>The VE functions\<close>

text \<open>
  An \<^verbatim>\<open>int\<close> parameter is the lower half of its register; a result of type \<^verbatim>\<open>int\<close> is extended with
  its sign when it is converted to \<^verbatim>\<open>uint64_t\<close>.  Additions are those of the VE processor, which wrap
  around where C leaves the overflow undefined.
\<close>

definition simplefunc :: ve_semantics where
  "simplefunc R M = (R 0, M)"

definition hello :: ve_semantics where
  "hello R M = (scast (ucast (R 0) + 1 :: u32), M)"

definition hello2 :: ve_semantics where
  "hello2 R M =
     (let i = (ucast (R 0) :: u32)
      in if i \<noteq> 42 then (0, M) else (scast (i + 1), M))"

section \<open>The state of a program\<close>

text \<open>
  \<open>boot\<close> is the state in which the process handle is constructed, \<open>api\<close> that of the C API from
  then on.  \<open>vh_out\<close> lists what was written with \<^verbatim>\<open>printf\<close>: the format, without its line end, and
  the arguments as 64-bit values.
\<close>

record 'os sample =
  boot :: "'os cstate"
  api :: "'os astate"
  vh_out :: "(string \<times> u64 list) list"

text \<open>
  The build constants and environment variables that \<^verbatim>\<open>veo_proc_create\<close> uses, the addresses of the
  string literals of the program, the argument object that operator new gives, the numbers of
  the process and of its threads, and the address of the process handle.
\<close>

record 'os sample_env =
  spawn :: "'os spawn_env"
  ve_device :: "int \<Rightarrow> string"
  veos_socket_path :: "int \<Rightarrow> string"
  veos_socket_room :: nat
  env_venodelist :: "string option"
  env_venodenum :: "string option"
  default_veorun :: string
  env_veorun :: "string option"
  literal :: "string \<Rightarrow> u64"
  args_object :: nat
  args_storage :: call_args
  pid_value :: u64
  main_tid :: u64
  child_tid :: u64
  proc_address :: u64

datatype sample_end = Exit int | Finished

definition on_api :: "('os astate, 'a) prog \<Rightarrow> ('os sample, 'a) prog" where
  "on_api p s = (case p (api s) of None \<Rightarrow> None | Some (r, t) \<Rightarrow> Some (r, s\<lparr>api := t\<rparr>))"

definition printf :: "string \<Rightarrow> u64 list \<Rightarrow> ('os sample, unit) prog" where
  "printf fmt args = modifyP (\<lambda>s. s\<lparr>vh_out := vh_out s @ [(fmt, args)]\<rparr>)"

text \<open>\<^verbatim>\<open>printf(msg); exit(1);\<close>\<close>

definition fail_with :: "string \<Rightarrow> ('os sample, sample_end) prog" where
  "fail_with msg = bindP (printf msg []) (\<lambda>_. returnP (Exit 1))"

text \<open>
  New pseudo threads run up to their first wait before the program goes on: the worker after
  the process has been created, and the thread of a context after it has been opened.
\<close>

definition worker_starts :: "'os veos \<Rightarrow> ('os pstate, unit) prog" where
  "worker_starts E s =
     bindP (on_worker (start_child_thread E (os_handle (tc (wk s))))) (\<lambda>_. returnP ()) s"

definition context_starts :: "'os veos \<Rightarrow> u64 \<Rightarrow> ('os astate, unit) prog" where
  "context_starts E ctx s =
     (case ctx_heap (wk (ps s)) ctx of
        None \<Rightarrow> returnP () s
      | Some c \<Rightarrow> bindP (on_context ctx (start_child_thread E (os_handle c))) (\<lambda>_. returnP ()) s)"

definition context_open :: "'os proc_env \<Rightarrow> ('os astate, u64) prog" where
  "context_open P =
     bindP (veo_context_open P) (\<lambda>ctx. bindP (context_starts (veos_env P) ctx) (\<lambda>_. returnP ctx))"

text \<open>\<^verbatim>\<open>veo_proc_create(venode)\<close>: whether the handle is not NULL.\<close>

definition proc_create :: "'os sample_env \<Rightarrow> int \<Rightarrow> ('os sample, bool) prog" where
  "proc_create D venode s =
     (case veo_proc_create (ve_device D) (veos_socket_path D) (veos_socket_room D) (veo_proc__create (spawn D))
             (env_venodelist D) (env_venodenum D) (default_veorun D) (env_veorun D) venode (boot s) of
        None \<Rightarrow> None
      | Some (Inl e, t) \<Rightarrow> Some (Inl e, s\<lparr>boot := t\<rparr>)
      | Some (Inr None, t) \<Rightarrow> Some (Inr False, s\<lparr>boot := t\<rparr>)
      | Some (Inr (Some p), t) \<Rightarrow>
          bindP (on_api (on_proc (worker_starts (veos_env (penv (spawn D)))))) (\<lambda>_. returnP True)
            (s\<lparr>boot := t, api := \<lparr>ps = process_state p t, c_errno = cur_errno t, attrs = Map.empty\<rparr>\<rparr>))"

section \<open>\<^verbatim>\<open>test_child1.c\<close> and \<^verbatim>\<open>test_child2.c\<close>\<close>

text \<open>
  The function \<^verbatim>\<open>child\<close> of the two programs, which differ in the library they load, from the loading
  on.  The argument object is an index here, so that the test for NULL has no counterpart.
\<close>

definition child_result :: "u64 \<Rightarrow> int \<times> u64 option \<Rightarrow> ('os sample, sample_end) prog" where
  "child_result i r =
     (case r of (ret, retval) \<Rightarrow>
        if ret \<noteq> VEO_COMMAND_OK then fail_with ''veo_call_wait_result() failed!''
        else case retval of
               None \<Rightarrow> throwP UndefinedBehaviour
             | Some v \<Rightarrow>
                 if v \<noteq> 43 then fail_with ''veo_call_wait_result() failed!''
                 else bindP (printf ''0x%lx: %d, %lu'' [i, word_of_int ret, v]) (\<lambda>_. returnP Finished))"

definition child_call :: "'os sample_env \<Rightarrow> u64 \<Rightarrow> u64 \<Rightarrow> ('os sample, sample_end) prog" where
  "child_call D func ctx =
     bindP (on_api (veo_args_alloc (args_object D) (args_storage D)))
       (\<lambda>argp. bindP (on_api (veo_args_set_i64 argp 0 42))
       (\<lambda>rv. if rv \<noteq> 0 then fail_with ''veo_args_set_i64() failed!''
          else bindP (on_api (veo_call_async ctx func argp))
            (\<lambda>i. if i = VEO_REQUEST_ID_INVALID then fail_with ''veo_call_async() failed!''
               else bindP (printf ''VEO request ID = 0x%lx'' [i])
                 (\<lambda>_. bindP (on_api (veo_call_wait_result (veos_env (penv (spawn D))) ctx i))
                 (\<lambda>r. bindP (child_result i r)
                 (\<lambda>e. bindP (if e = Finished then on_api (veo_args_free argp) else returnP ())
                 (\<lambda>_. returnP e)))))))"

definition child_body :: "'os sample_env \<Rightarrow> string \<Rightarrow> ('os sample, sample_end) prog" where
  "child_body D lib =
     (let P = penv (spawn D)
      in bindP (on_api (veo_load_library P (literal D lib)))
           (\<lambda>handle. if handle = 0 then fail_with ''veo_load_library() failed!''
              else bindP (printf ''handle = %p'' [handle])
                (\<lambda>_. bindP (on_api (veo_get_sym P handle (literal D ''hello'')))
                (\<lambda>func. if func = 0 then fail_with ''veo_get_sym() failed!''
                   else bindP (printf ''symbol address = %p'' [func])
                     (\<lambda>_. bindP (on_api (context_open P))
                     (\<lambda>ctx. if ctx = 0 then fail_with ''veo_context_open() failed!''
                        else bindP (printf ''VEO context = %p'' [ctx]) (\<lambda>_. child_call D func ctx)))))))"

definition child :: "'os sample_env \<Rightarrow> string \<Rightarrow> ('os sample, sample_end) prog" where
  "child D lib =
     bindP (printf ''PID = %d, tid = %d'' [pid_value D, child_tid D])
       (\<lambda>_. bindP (proc_create D 0)
       (\<lambda>proc. if \<not> proc then returnP (Exit 1) else child_body D lib))"

definition child2 :: "'os sample_env \<Rightarrow> ('os sample, sample_end) prog" where
  "child2 D = child D ''./libvehello2.so''"

text \<open>\<^verbatim>\<open>main\<close>: it creates the thread and joins it; a call of \<^verbatim>\<open>exit\<close> in the thread ends the program.\<close>

definition after_child :: "sample_end \<Rightarrow> ('os sample, int) prog" where
  "after_child e =
     (case e of Exit n \<Rightarrow> returnP n | Finished \<Rightarrow> bindP (printf ''end'' []) (\<lambda>_. returnP 0))"

definition test_child1 :: "'os sample_env \<Rightarrow> ('os sample, int) prog" where
  "test_child1 D =
     bindP (printf ''main PID = %d, tid = %d'' [pid_value D, main_tid D])
       (\<lambda>_. bindP (child D ''./libvehello.so'') after_child)"

definition test_child2 :: "'os sample_env \<Rightarrow> ('os sample, int) prog" where
  "test_child2 D = bindP (child2 D) after_child"

lemma on_api_Some [simp]: "p (api s) = Some (r, t) \<Longrightarrow> on_api p s = Some (r, s\<lparr>api := t\<rparr>)"
  by (simp add: on_api_def)

lemma hello_functions:
  "F \<in> {hello, hello2} \<Longrightarrow> R 0 = 42 \<Longrightarrow> fst (F R M) = 43"
  by (auto simp: hello_def hello2_def)

text \<open>The state of the C API after \<^verbatim>\<open>veo_args_alloc\<close> and \<^verbatim>\<open>veo_args_set_i64(argp, 0, v)\<close>.\<close>

definition with_i64 :: "nat \<Rightarrow> call_args \<Rightarrow> u64 \<Rightarrow> 'os astate \<Rightarrow> 'os astate" where
  "with_i64 ca raw v s = s\<lparr>ps := (ps s)\<lparr>wk := (wk (ps s))\<lparr>args_heap :=
     (args_heap (wk (ps s)))(ca \<mapsto> (new_CallArgs raw)\<lparr>arguments := [Some (ArgI64 v)]\<rparr>)\<rparr>\<rparr>\<rparr>"

lemma alloc_and_set:
  "bindP (on_api (veo_args_alloc ca raw)) (\<lambda>argp. bindP (on_api (veo_args_set_i64 argp 0 v)) (k argp)) s
     = k ca 0 (s\<lparr>api := with_i64 ca raw v (api s)\<rparr>)"
  by (simp add: with_i64_def veo_args_alloc_def veo_args_set_i64_def veo_args_set_def or_code_def catchP_def
      on_args_def set_arg_def store_arg_def new_CallArgs_def INT_MAX_def on_api_def Let_def bindP_def)

lemma child_call_passes:
  fixes D :: "'os sample_env"
  defines "E \<equiv> veos_env (penv (spawn D))"
  assumes "func \<noteq> 0" and "ctx_heap (wk (ps (api s))) ctx = Some c" and "idle ((wk (ps (api s)))\<lparr>tc := c\<rparr>)"
    and "F \<in> {hello, hello2}" and "ve_machine E (os_handle c) reg vmem"
    and "ve_function E (os_handle c) reg vmem func F"
    and "\<forall>a k w. \<exists>rv w'. ve_recv_data E (os_handle c) a k w = ((rv, mem_read (vmem w) a k), w')"
  shows "\<exists>i t. child_call D func ctx s = Some (Inr Finished, t) \<and> i \<noteq> VEO_REQUEST_ID_INVALID
     \<and> vh_out t = vh_out s @ [(''VEO request ID = 0x%lx'', [i]), (''0x%lx: %d, %lu'', [i, 0, 43])]"
proof -
  let ?ca = "args_object D" and ?as = "[ArgI64 42]"
  let ?a = "with_i64 ?ca (args_storage D) 42 (api s)" and ?sp = "ve_sp c - of_nat (image_size [ArgI64 42])"
  have "ctx_heap (wk (ps ?a)) ctx = Some c" "idle ((wk (ps ?a))\<lparr>tc := c\<rparr>)"
    using assms(3,4) by (simp_all add: with_i64_def idle_def ready_def pending_def completed_def next_id_def)
  moreover have "args_heap (wk (ps ?a)) ?ca = Some ((new_CallArgs (args_storage D))\<lparr>arguments := map Some ?as\<rparr>)"
    by (simp add: with_i64_def)
  moreover have "disjoint_outputs ?as" by (simp add: disjoint_outputs_def)
  moreover have "int (image_size ?as) \<le> INT_MAX"
    by (simp add: image_size_def data_size_def slot_off_def PARAM_AREA_OFFSET_def INT_MAX_def)
  ultimately obtain i s1 t R M where call: "veo_call_async ctx func ?ca ?a = Some (Inr i, s1)"
      "i \<noteq> VEO_REQUEST_ID_INVALID"
      "veo_call_wait_result E ctx i s1 = Some (Inr (VEO_COMMAND_OK, Some (fst (F R M))), t)"
    and R: "arguments_passed (vh_mem (wk (ps ?a))) func ?sp ?as R M"
    using remote_call [of ?a ctx c func E reg vmem F ?ca _ ?as, OF _ _ assms(2,6,7)] assms(8) by fastforce
  have "R 0 = 42" using R by (simp add: arguments_passed_def)
  then have "fst (F R M) = 43" by (rule hello_functions [OF assms(5)])
  with call show ?thesis
    unfolding child_call_def
    by (simp add: alloc_and_set) (simp add: printf_def child_result_def E_def veo_args_free_def on_api_def VEO_COMMAND_OK_def)
qed

text \<open>
  The tests \<^verbatim>\<open>test_child1.c\<close> and \<^verbatim>\<open>test_child2.c\<close> pass.  Once the library has been loaded,
  the symbol found and a context opened whose thread waits for requests, the call of \<^verbatim>\<open>hello\<close>
  gets a valid ID, comes back with the status OK and the value 43, and none of the tests of
  the program fails.
\<close>

theorem child_test_passes:
  fixes D :: "'os sample_env"
  assumes "veo_load_library (penv (spawn D)) (literal D lib) (api s) = Some (Inr handle, a1)" and "handle \<noteq> 0"
    and "veo_get_sym (penv (spawn D)) handle (literal D ''hello'') a1 = Some (Inr func, a2)" and "func \<noteq> 0"
    and "context_open (penv (spawn D)) a2 = Some (Inr ctx, a3)" and "ctx \<noteq> 0"
    and "ctx_heap (wk (ps a3)) ctx = Some c" and "idle ((wk (ps a3))\<lparr>tc := c\<rparr>)"
    and "F \<in> {hello, hello2}" and "ve_machine (veos_env (penv (spawn D))) (os_handle c) reg vmem"
    and "ve_function (veos_env (penv (spawn D))) (os_handle c) reg vmem func F"
    and "\<forall>a k w. \<exists>rv w'. ve_recv_data (veos_env (penv (spawn D))) (os_handle c) a k w
           = ((rv, mem_read (vmem w) a k), w')"
  shows "\<exists>i t. child_body D lib s = Some (Inr Finished, t) \<and> i \<noteq> VEO_REQUEST_ID_INVALID
     \<and> vh_out t = vh_out s @ [(''handle = %p'', [handle]), (''symbol address = %p'', [func]),
          (''VEO context = %p'', [ctx]), (''VEO request ID = 0x%lx'', [i]), (''0x%lx: %d, %lu'', [i, 0, 43])]"
proof -
  let ?s = "s\<lparr>api := a3, vh_out := vh_out s @ [(''handle = %p'', [handle]), (''symbol address = %p'', [func]),
          (''VEO context = %p'', [ctx])]\<rparr>"
  have "child_body D lib s = child_call D func ctx ?s"
    using assms(1-6) by (simp add: child_body_def printf_def Let_def)
  with child_call_passes [of func ?s ctx c F D reg vmem] assms(4,7-12) show ?thesis by simp
qed

section \<open>\<^verbatim>\<open>simplefunccall.c\<close>\<close>

text \<open>\<^verbatim>\<open>atoi\<close> gives zero where there is no number; beyond the range of \<^verbatim>\<open>int\<close> it has no meaning.\<close>

definition atoi :: "string \<Rightarrow> int result" where
  "atoi str =
     (case scan_int str of
        None \<Rightarrow> Inr 0
      | Some v \<Rightarrow> if in_int_range v then Inr v else Inl UndefinedBehaviour)"

text \<open>
  The array \<^verbatim>\<open>reqid[count]\<close> has no meaning unless \<^verbatim>\<open>count\<close> is positive.  The time between the two
  readings of the clock, which the program prints, is left out.
\<close>

definition simplefunc_calls :: "'os sample_env \<Rightarrow> int \<Rightarrow> ('os sample, int) prog" where
  "simplefunc_calls D num =
     (let P = penv (spawn D)
      in bindP (on_api (veo_load_library P (literal D ''./libvesimplefunc.so'')))
           (\<lambda>libhandle. if libhandle = 0 then returnP 1
              else bindP (on_api (veo_get_sym P libhandle (literal D ''simplefunc'')))
                (\<lambda>func. bindP (on_api (context_open P))
                (\<lambda>ctx. bindP (on_api (veo_args_alloc (args_object D) (args_storage D)))
                (\<lambda>argp. if num \<le> 0 then throwP UndefinedBehaviour
                   else bindP (on_api (submit_calls (nat num) ctx func argp))
                     (\<lambda>reqid. bindP (on_api (wait_calls (veos_env P) ctx reqid))
                     (\<lambda>_. bindP (printf ''%f'' [])
                     (\<lambda>_. bindP (on_api (veo_args_free argp))
                     (\<lambda>_. bindP (on_api (veo_context_close (veos_env P) ctx))
                     (\<lambda>_. returnP 0))))))))))"

definition simplefunccall :: "'os sample_env \<Rightarrow> string list \<Rightarrow> ('os sample, int) prog" where
  "simplefunccall D argv =
     (if length argv \<noteq> 1 \<and> length argv \<noteq> 2 then returnP 1
      else bindP (resultP (if length argv = 2 then atoi (argv ! 1) else Inr 10))
             (\<lambda>num. bindP (proc_create D 0)
             (\<lambda>proc. if \<not> proc then returnP 1 else simplefunc_calls D num)))"

text \<open>A count that is not positive, or no number at all, gets as far as the array.\<close>

theorem simplefunccall_needs_positive_count:
  fixes D :: "'os sample_env"
  assumes "atoi arg = Inr num" and "num \<le> 0" and "proc_create D 0 s = Some (Inr True, s1)"
    and "veo_load_library (penv (spawn D)) (literal D ''./libvesimplefunc.so'') (api s1) = Some (Inr handle, a1)"
    and "handle \<noteq> 0"
    and "veo_get_sym (penv (spawn D)) handle (literal D ''simplefunc'') a1 = Some (Inr func, a2)"
    and "context_open (penv (spawn D)) a2 = Some (Inr ctx, a3)"
  shows "\<exists>t. simplefunccall D [prog, arg] s = Some (Inl UndefinedBehaviour, t)"
  using assms by (simp add: simplefunccall_def simplefunc_calls_def veo_args_alloc_def Let_def)

end
