(* ===== verification/Sample_Fortran.thy ===== *)
theory Sample_Fortran
  imports Sample_Programs
begin

text \<open>
  The sample program \<^verbatim>\<open>src/examples/fortrantest.c\<close> with its VE library \<^verbatim>\<open>libfortrantest.f90\<close>:
  arguments passed by reference in both directions, arguments passed by value, and calls by name.
\<close>

section \<open>The VE functions\<close>

text \<open>
  \<^verbatim>\<open>SUB1(x, ret)\<close> takes both arguments by reference; it returns no value, so that the register for
  one holds something, \<open>g\<close>.  \<^verbatim>\<open>FUNC1(x, y)\<close> takes its arguments by value.  An \<^verbatim>\<open>INTEGER\<close> has 32 bits.
\<close>

definition sub1 :: "((nat \<Rightarrow> u64) \<Rightarrow> memory \<Rightarrow> u64) \<Rightarrow> ve_semantics" where
  "sub1 g R M =
     (let x = (ucast (le_word (mem_read M (R 0) 4)) :: u32)
      in (g R M, mem_write M (R 1) (word_image (x + 1))))"

definition func1 :: ve_semantics where
  "func1 R M = (scast (ucast (R 0) + ucast (R 1) :: u32), M)"

section \<open>The program\<close>

text \<open>The variables \<^verbatim>\<open>x\<close> and \<^verbatim>\<open>y\<close> of the program are at the addresses \<open>px\<close> and \<open>py\<close>.\<close>

definition store_long :: "u64 \<Rightarrow> u64 \<Rightarrow> ('os sample, unit) prog" where
  "store_long a v = on_api (on_proc (write_vh a (word_image v)))"

definition load_long :: "u64 \<Rightarrow> 'os sample \<Rightarrow> u64" where
  "load_long a s = le_word (mem_read (vh_mem (wk (ps (api s)))) a 8)"

text \<open>
  The result of a call is printed with the variable \<^verbatim>\<open>rv\<close>, which keeps what it had before if no value
  was stored; it has no value at first.
\<close>

definition print_call :: "u64 \<Rightarrow> int \<Rightarrow> u64 option \<Rightarrow> ('os sample, unit) prog" where
  "print_call i status rv =
     (case rv of
        None \<Rightarrow> throwP UndefinedBehaviour
      | Some v \<Rightarrow> printf ''id #%d: %d (return value = %lu)'' [i, word_of_int status, v])"

definition fortran_calls :: "'os sample_env \<Rightarrow> u64 \<Rightarrow> u64 \<Rightarrow> u64 \<Rightarrow> u64 \<Rightarrow> ('os sample, int) prog" where
  "fortran_calls D px py hdl ctx =
     (let P = penv (spawn D); E = veos_env P
      in bindP (on_api (veo_args_alloc (args_object D) (args_storage D)))
           (\<lambda>arg. bindP (store_long px 42)
           (\<lambda>_. bindP (on_api (veo_args_set_stack arg VEO_INTENT_IN 0 px 8))
           (\<lambda>_. bindP (on_api (veo_args_set_stack arg VEO_INTENT_OUT 1 py 8))
           (\<lambda>_. bindP (on_api (veo_call_async_by_name P ctx hdl (literal D ''sub1_'') arg))
           (\<lambda>id0. bindP (on_api (veo_call_wait_result E ctx id0))
           (\<lambda>(status, rv). bindP (print_call id0 status rv)
           (\<lambda>_. bindP (getP (load_long py))
           (\<lambda>y. bindP (printf ''y = %d'' [y])
           (\<lambda>_. bindP (on_api (veo_args_clear arg))
           (\<lambda>_. bindP (on_api (veo_args_set_i64 arg 0 1))
           (\<lambda>_. bindP (on_api (veo_args_set_i64 arg 1 2))
           (\<lambda>_. bindP (on_api (veo_call_async_by_name P ctx hdl (literal D ''func1_'') arg))
           (\<lambda>id1. bindP (on_api (veo_call_wait_result E ctx id1))
           (\<lambda>(status', rv'). bindP (print_call id1 status' (if rv' = None then rv else rv'))
           (\<lambda>_. bindP (on_api (veo_args_free arg))
           (\<lambda>_. bindP (on_api (veo_context_close E ctx))
           (\<lambda>_. returnP 0))))))))))))))))))"

definition fortrantest :: "'os sample_env \<Rightarrow> u64 \<Rightarrow> u64 \<Rightarrow> ('os sample, int) prog" where
  "fortrantest D px py =
     (let P = penv (spawn D)
      in bindP (proc_create D 0)
           (\<lambda>proc. if \<not> proc then returnP 1
              else bindP (printf ''proc %p is created'' [proc_address D])
                (\<lambda>_. bindP (on_api (veo_load_library P (literal D ''./libfortrantest.so'')))
                (\<lambda>hdl. bindP (printf ''library handle %#lx'' [hdl])
                (\<lambda>_. bindP (on_api (context_open P))
                (\<lambda>ctx. if ctx = 0 then returnP 1
                   else bindP (printf ''context %p is opened'' [ctx]) (\<lambda>_. fortran_calls D px py hdl ctx)))))))"

section \<open>What the functions see and leave behind\<close>

lemma take_word_image:
  "take 4 (word_image (x :: u64)) = word_image (ucast x :: u32)"
proof (rule nth_equalityI)
  fix i assume "i < length (take 4 (word_image x))"
  then have "i < 4" by simp
  then show "take 4 (word_image x) ! i = word_image (ucast x :: u32) ! i"
    by (intro bit_word_eqI) (auto simp: bit_word_image bit_ucast_iff)
qed simp

lemma take_mem_read: "k \<le> n \<Longrightarrow> take k (mem_read m p n) = mem_read m p k"
  by (simp add: mem_read_def take_map)

lemma mem_read_write_prefix:
  assumes "length bs \<le> n" and "n \<le> 2 ^ 64"
  shows "mem_read (mem_write m p bs) p n = bs @ drop (length bs) (mem_read m p n)"
proof (rule nth_equalityI)
  fix i assume "i < length (mem_read (mem_write m p bs) p n)"
  then have "i < n" by simp
  moreover from this assms(2) have "unat (of_nat i :: u64) = i" by (intro unat_of_nat64) simp
  ultimately show "mem_read (mem_write m p bs) p n ! i = (bs @ drop (length bs) (mem_read m p n)) ! i"
    by (auto simp: mem_write_def nth_append)
qed (use assms in simp)

text \<open>
  The 64-bit variables of the program are seen by \<^verbatim>\<open>SUB1\<close> through their lower halves; the upper half of
  the output is zero because the frame is.
\<close>

lemma sub1_result:
  fixes px py :: u64
  assumes "arguments_passed vh func sp [ArgOnStack px 8 True False None, ArgOnStack py 8 False True None] R M"
    and "mem_read vh px 8 = word_image (x :: u64)"
    and "outputs_delivered vh vh' sp [ArgOnStack px 8 True False None, ArgOnStack py 8 False True None] (snd (sub1 g R M))"
  shows "le_word (mem_read vh' py 8) = ucast (ucast x + 1 :: u32)"
proof -
  let ?as = "[ArgOnStack px 8 True False None, ArgOnStack py 8 False True None]"
  have flag: "any_flag_in ?as 0" by simp
  have "mem_read M (R 0) 8 = word_image x"
    using passed_by_reference [OF assms(1), where i = 0 and out = False] assms(2) by simp
  then have "mem_read M (R 0) 4 = word_image (ucast x :: u32)"
    using take_mem_read [of 4 8 M "R 0"] take_word_image [of x] by simp
  moreover have "(ucast (ucast y :: u64) :: u32) = y" for y :: u32
    by (rule bit_word_eqI) (simp add: bit_ucast_iff)
  ultimately have sub: "snd (sub1 g R M) = mem_write M (R 1) (word_image (ucast x + 1 :: u32))"
    by (simp add: sub1_def Let_def byte_simps)
  have R1: "R 1 = sp + of_nat (data_off ?as 1)" "mem_read M (R 1) 8 = replicate 8 0"
    using by_reference(1) [OF assms(1), where i = 1 and inn = False and out = True]
      by_reference(2) [OF assms(1) _ _ _ flag, where i = 1 and inn = False and out = True] by simp_all
  have "mem_read vh' py 8 = mem_read (snd (sub1 g R M)) (R 1) 8"
    using assms(3) R1(1) by (force simp: outputs_delivered_def dest: spec [of _ 1])
  also have "\<dots> = word_image (ucast x + 1 :: u32) @ replicate 4 0"
    unfolding sub using mem_read_write_prefix [of "word_image (ucast x + 1 :: u32)" 8 M "R 1"] R1(2) by simp
  finally show ?thesis by (simp add: byte_simps)
qed

section \<open>The program on a library with the two functions\<close>

text \<open>The arguments of the two calls, as the program sets them up.\<close>

definition by_ref_args :: "'os sample_env \<Rightarrow> u64 \<Rightarrow> u64 \<Rightarrow> 'os astate \<Rightarrow> 'os astate" where
  "by_ref_args D px py s = s\<lparr>ps := (ps s)\<lparr>wk := (wk (ps s))\<lparr>
     vh_mem := mem_write (vh_mem (wk (ps s))) px (word_image (42 :: u64)),
     args_heap := (args_heap (wk (ps s)))(args_object D \<mapsto> (new_CallArgs (args_storage D))\<lparr>arguments :=
       [Some (ArgOnStack px 8 True False None), Some (ArgOnStack py 8 False True None)]\<rparr>)\<rparr>\<rparr>\<rparr>"

definition by_value_args :: "'os sample_env \<Rightarrow> call_args \<Rightarrow> 'os astate \<Rightarrow> 'os astate" where
  "by_value_args D ca s = s\<lparr>ps := (ps s)\<lparr>wk := (wk (ps s))\<lparr>
     args_heap := (args_heap (wk (ps s)))(args_object D \<mapsto> ca\<lparr>arguments :=
       [Some (ArgI64 1), Some (ArgI64 2)]\<rparr>)\<rparr>\<rparr>\<rparr>"

lemma set_up_by_ref:
  "bindP (on_api (veo_args_alloc (args_object D) (args_storage D)))
     (\<lambda>arg. bindP (store_long px 42)
     (\<lambda>_. bindP (on_api (veo_args_set_stack arg VEO_INTENT_IN 0 px 8))
     (\<lambda>_. bindP (on_api (veo_args_set_stack arg VEO_INTENT_OUT 1 py 8)) (\<lambda>_. k arg)))) s
   = k (args_object D) (s\<lparr>api := by_ref_args D px py (api s)\<rparr>)"
  by (simp add: by_ref_args_def veo_args_alloc_def veo_args_set_stack_def or_code_def catchP_def on_args_def
      setOnStack_def store_arg_def new_CallArgs_def INT_MAX_def on_api_def store_long_def on_proc_def write_vh_def
      Let_def bindP_def numeral_2_eq_2)

lemma set_up_by_value:
  assumes "args_heap (wk (ps (api s))) (args_object D) = Some ca"
  shows "bindP (on_api (veo_args_clear (args_object D)))
     (\<lambda>_. bindP (on_api (veo_args_set_i64 (args_object D) 0 1))
     (\<lambda>_. bindP (on_api (veo_args_set_i64 (args_object D) 1 2)) (\<lambda>_. k))) s
   = k (s\<lparr>api := by_value_args D ca (api s)\<rparr>)"
  using assms
  by (simp add: by_value_args_def veo_args_clear_def clear_def veo_args_set_i64_def veo_args_set_def or_code_def
      catchP_def on_args_def set_arg_def store_arg_def INT_MAX_def on_api_def Let_def bindP_def numeral_2_eq_2)

lemma args_keep_process:
  "context_ready h ctx (by_ref_args D px py s) = context_ready h ctx s"
  "context_ready h ctx (by_value_args D ca s) = context_ready h ctx s"
  "worker_runs E reg vmem func F (wk (ps (by_ref_args D px py s))) = worker_runs E reg vmem func F (wk (ps s))"
  "worker_runs E reg vmem func F (wk (ps (by_value_args D ca s))) = worker_runs E reg vmem func F (wk (ps s))"
  "ph (ps (by_ref_args D px py s)) = ph (ps s)" "ph (ps (by_value_args D ca s)) = ph (ps s)"
  by (simp_all add: by_ref_args_def by_value_args_def context_ready_def worker_runs_def ready_def completed_def
      pending_def)

lemma args_memory:
  "vh_mem (wk (ps (by_ref_args D px py s))) = mem_write (vh_mem (wk (ps s))) px (word_image (42 :: u64))"
  "vh_mem (wk (ps (by_value_args D ca s))) = vh_mem (wk (ps s))"
  by (simp_all add: by_ref_args_def by_value_args_def)

text \<open>
  The hypotheses of the two calls: where the two names are in the memory of the program, what the
  search function of the VE gives for them, and that neither is known yet.
\<close>

definition fortran_library ::
  "'os sample_env \<Rightarrow> u64 \<Rightarrow> u64 \<Rightarrow> u64 \<Rightarrow> ve_semantics \<Rightarrow> u64 \<Rightarrow> u64 \<Rightarrow> 'os astate \<Rightarrow> bool" where
  "fortran_library D px py hdl Find a1 a2 s \<longleftrightarrow>
     mem_read (vh_mem (wk (ps s))) (literal D ''sub1_'') 6 = ascii ''sub1_'' @ [0]
     \<and> mem_read (vh_mem (wk (ps s))) (literal D ''func1_'') 7 = ascii ''func1_'' @ [0]
     \<and> disjoint_ranges (literal D ''sub1_'') 6 px 8 \<and> disjoint_ranges (literal D ''func1_'') 7 px 8
     \<and> disjoint_ranges (literal D ''func1_'') 7 py 8
     \<and> sym_name (ph (ps s)) (hdl, ascii ''sub1_'') = None \<and> sym_name (ph (ps s)) (hdl, ascii ''func1_'') = None
     \<and> a1 \<noteq> 0 \<and> a2 \<noteq> 0
     \<and> (\<forall>R M. R 0 = hdl \<and> mem_read M (R 1) 6 = ascii ''sub1_'' @ [0] \<longrightarrow> fst (Find R M) = a1)
     \<and> (\<forall>R M. R 0 = hdl \<and> mem_read M (R 1) 7 = ascii ''func1_'' @ [0] \<longrightarrow> fst (Find R M) = a2)"

lemma ascii_names:
  "length (ascii ''sub1_'') = 5" "length (ascii ''func1_'') = 6" "0 \<notin> set (ascii ''sub1_'')" "0 \<notin> set (ascii ''func1_'')"
  "ascii ''sub1_'' \<noteq> ascii ''func1_''"
  by (simp_all add: ascii_def)

lemma first_call:
  fixes D :: "'os sample_env"
  defines "P \<equiv> penv (spawn D)"
  assumes "fortran_library D px py hdl Find a1 a2 s" and "context_ready h ctx s"
    and "worker_runs (veos_env P) reg vmem (find_sym (funcs (ph (ps s)))) Find (wk (ps s))"
    and "ve_machine (veos_env P) h reg vmem" and "ve_function (veos_env P) h reg vmem a1 (sub1 g)"
    and "\<forall>a k w. \<exists>rv w'. ve_recv_data (veos_env P) h a k w = ((rv, mem_read (vmem w) a k), w')"
  shows "\<exists>i s1 t v. veo_call_async_by_name P ctx hdl (literal D ''sub1_'') (args_object D) (by_ref_args D px py s)
       = Some (Inr i, s1) \<and> i \<noteq> VEO_REQUEST_ID_INVALID
     \<and> veo_call_wait_result (veos_env P) ctx i s1 = Some (Inr (VEO_COMMAND_OK, Some v), t)
     \<and> le_word (mem_read (vh_mem (wk (ps t))) py 8) = 43
     \<and> mem_read (vh_mem (wk (ps t))) (literal D ''func1_'') 7 = ascii ''func1_'' @ [0]
     \<and> context_ready h ctx t \<and> worker_again s t \<and> args_heap (wk (ps t)) (args_object D) \<noteq> None
     \<and> sym_name (ph (ps t)) (hdl, ascii ''func1_'') = None"
proof -
  let ?s = "by_ref_args D px py s" and ?as = "[ArgOnStack px 8 True False None, ArgOnStack py 8 False True None]"
  note lib = assms(2) [unfolded fortran_library_def]
  have mem: "mem_read (vh_mem (wk (ps ?s))) (literal D ''sub1_'') 6 = ascii ''sub1_'' @ [0]"
      "mem_read (vh_mem (wk (ps ?s))) (literal D ''func1_'') 7 = ascii ''func1_'' @ [0]"
      "mem_read (vh_mem (wk (ps ?s))) px 8 = word_image (42 :: u64)"
    using lib by (simp_all add: args_memory mem_read_write_disjoint mem_read_write_same)
  then have str: "c_string (vh_mem (wk (ps ?s))) (literal D ''sub1_'') = Some (ascii ''sub1_'')"
    by (intro c_string_stored) (simp_all add: ascii_names)
  have args: "args_heap (wk (ps ?s)) (args_object D)
      = Some ((new_CallArgs (args_storage D))\<lparr>arguments := map Some ?as\<rparr>)"
    by (simp add: by_ref_args_def)
  have out: "disjoint_outputs ?as" "int (image_size ?as) \<le> INT_MAX"
    by (auto simp: disjoint_outputs_def image_size_def data_size_def slot_off_def PARAM_AREA_OFFSET_def INT_MAX_def
        nth_Cons split: nat.splits)
  obtain i s1 t R M sp where t:
      "veo_call_async_by_name P ctx hdl (literal D ''sub1_'') (args_object D) ?s = Some (Inr i, s1)"
      "i \<noteq> VEO_REQUEST_ID_INVALID"
      "veo_call_wait_result (veos_env P) ctx i s1 = Some (Inr (VEO_COMMAND_OK, Some (fst (sub1 g R M))), t)"
      "arguments_passed (vh_mem (wk (ps ?s))) a1 sp ?as R M"
      "outputs_delivered (vh_mem (wk (ps ?s))) (vh_mem (wk (ps t))) sp ?as (snd (sub1 g R M))"
      "context_ready h ctx t" "worker_again ?s t" "args_heap (wk (ps t)) (args_object D) \<noteq> None"
      "sym_name (ph (ps t)) = (sym_name (ph (ps ?s)))((hdl, ascii ''sub1_'') \<mapsto> a1)"
    using call_by_name [of h ctx ?s a1 P reg vmem Find "literal D ''sub1_''" "ascii ''sub1_''" hdl "sub1 g" "args_object D"
        _ ?as, OF _ _ _ str _ _ _ assms(5,6) args _ out(2,1) assms(7)] lib assms(3,4)
    by (auto simp: args_keep_process ascii_names VEO_SYMNAME_LEN_MAX_def)
  have "le_word (mem_read (vh_mem (wk (ps t))) py 8) = 43"
    using sub1_result [OF t(4) mem(3) t(5)] by simp
  moreover have "mem_read (vh_mem (wk (ps t))) (literal D ''func1_'') 7 = ascii ''func1_'' @ [0]"
    using t(5) mem(2) lib by (simp add: outputs_delivered_def)
  moreover have "worker_again s t" using t(7) by (simp add: worker_again_def args_keep_process by_ref_args_def)
  moreover have "sym_name (ph (ps t)) (hdl, ascii ''func1_'') = None"
    using t(9) lib ascii_names(5) by (simp add: args_keep_process)
  ultimately show ?thesis using t by blast
qed

lemma second_call:
  fixes D :: "'os sample_env"
  defines "P \<equiv> penv (spawn D)"
  assumes "mem_read (vh_mem (wk (ps s))) (literal D ''func1_'') 7 = ascii ''func1_'' @ [0]"
    and "sym_name (ph (ps s)) (hdl, ascii ''func1_'') = None" and "a2 \<noteq> 0"
    and "\<forall>R M. R 0 = hdl \<and> mem_read M (R 1) 7 = ascii ''func1_'' @ [0] \<longrightarrow> fst (Find R M) = a2"
    and "context_ready h ctx s"
    and "worker_runs (veos_env P) reg vmem (find_sym (funcs (ph (ps s)))) Find (wk (ps s))"
    and "ve_machine (veos_env P) h reg vmem" and "ve_function (veos_env P) h reg vmem a2 func1"
    and "\<forall>a k w. \<exists>rv w'. ve_recv_data (veos_env P) h a k w = ((rv, mem_read (vmem w) a k), w')"
  shows "\<exists>i s1 t. veo_call_async_by_name P ctx hdl (literal D ''func1_'') (args_object D) (by_value_args D ca s)
       = Some (Inr i, s1) \<and> i \<noteq> VEO_REQUEST_ID_INVALID
     \<and> veo_call_wait_result (veos_env P) ctx i s1 = Some (Inr (VEO_COMMAND_OK, Some 3), t) \<and> context_ready h ctx t"
proof -
  let ?s = "by_value_args D ca s" and ?as = "[ArgI64 1, ArgI64 2]"
  have str: "c_string (vh_mem (wk (ps ?s))) (literal D ''func1_'') = Some (ascii ''func1_'')"
    using assms(2) by (intro c_string_stored) (simp_all add: ascii_names args_memory)
  have args: "args_heap (wk (ps ?s)) (args_object D) = Some (ca\<lparr>arguments := map Some ?as\<rparr>)"
    by (simp add: by_value_args_def)
  have out: "disjoint_outputs ?as" "int (image_size ?as) \<le> INT_MAX"
    by (auto simp: disjoint_outputs_def image_size_def data_size_def slot_off_def PARAM_AREA_OFFSET_def INT_MAX_def
        nth_Cons split: nat.splits)
  obtain i s1 t R M sp where t:
      "veo_call_async_by_name P ctx hdl (literal D ''func1_'') (args_object D) ?s = Some (Inr i, s1)"
      "i \<noteq> VEO_REQUEST_ID_INVALID"
      "veo_call_wait_result (veos_env P) ctx i s1 = Some (Inr (VEO_COMMAND_OK, Some (fst (func1 R M))), t)"
      "arguments_passed (vh_mem (wk (ps ?s))) a2 sp ?as R M" "context_ready h ctx t"
    using call_by_name [of h ctx ?s a2 P reg vmem Find "literal D ''func1_''" "ascii ''func1_''" hdl func1 "args_object D"
        _ ?as, OF _ _ _ str _ _ _ assms(8,9) args _ out(2,1) assms(10)] assms(3-7)
    by (auto simp: args_keep_process ascii_names VEO_SYMNAME_LEN_MAX_def)
  have "arg_getRegVal (arg_at sp (data_off ?as j) (?as ! j)) = Inr (R j)" if "j < 2" for j
    using t(4) that by (simp add: arguments_passed_def)
  from this [of 0] this [of 1] have "R 0 = 1" "R 1 = 2" by simp_all
  then have "fst (func1 R M) = 3" by (simp add: func1_def)
  with t show ?thesis by metis
qed


end
