(* ===== verification/Sample_Memory.thy ===== *)
theory Sample_Memory
  imports Memory_Requests Sample_Fortran
begin

text \<open>
  The sample program \<^verbatim>\<open>src/examples/test_async_mem.c\<close> with its VE library \<^verbatim>\<open>libveasyncmem.c\<close>: a variable of
  the VE is read and written by asynchronous transfers, mixed with calls on the same context.
\<close>

section \<open>The program\<close>

text \<open>What the VE function prints is left out.\<close>

definition print_buffer :: ve_semantics where
  "print_buffer R M = (1, M)"

text \<open>
  The result of a request is printed with the variable \<^verbatim>\<open>retval\<close>, which keeps what it had before, \<open>old\<close>,
  if no value was stored; it has no value at first.
\<close>

definition stored :: "u64 option \<Rightarrow> u64 option \<Rightarrow> u64 option" where
  "stored rv old = (if rv = None then old else rv)"

definition print_result :: "u64 \<Rightarrow> int \<Rightarrow> u64 option \<Rightarrow> ('os sample, unit) prog" where
  "print_result i ret rv =
     (case rv of
        None \<Rightarrow> throwP UndefinedBehaviour
      | Some v \<Rightarrow> printf ''0x%lx: %d, %lu'' [i, word_of_int ret, v])"

text \<open>
  The two halves of the program, before and after the variable is written.  The variable \<^verbatim>\<open>buffer\<close> of
  the program is at the address \<open>pb\<close>, the one of the VE at \<open>bufptr\<close>.
\<close>

definition async_write :: "'os sample_env \<Rightarrow> u64 \<Rightarrow> u64 \<Rightarrow> u64 \<Rightarrow> u64 \<Rightarrow> nat \<Rightarrow> u64 option \<Rightarrow> ('os sample, int) prog" where
  "async_write D pb bufptr func ctx argp rv0 =
     (let E = veos_env (penv (spawn D))
      in bindP (store_long pb 0xc0ffee)
           (\<lambda>_. bindP (on_api (veo_async_write_mem ctx bufptr pb 8))
           (\<lambda>req. bindP (printf ''veo_async_write_mem() returned %ld'' [req])
           (\<lambda>_. bindP (on_api (veo_call_async ctx func argp))
           (\<lambda>j. bindP (printf ''veo_call_async() returned %ld'' [j])
           (\<lambda>_. bindP (on_api (veo_call_wait_result E ctx j))
           (\<lambda>(ret, rv1). bindP (print_result j ret (stored rv1 rv0))
           (\<lambda>_. bindP (on_api (veo_call_wait_result E ctx req))
           (\<lambda>(ret', rv2). bindP (print_result req ret' (stored rv2 (stored rv1 rv0)))
           (\<lambda>_. bindP (on_api (veo_context_close E ctx))
           (\<lambda>status. bindP (printf ''close status = %d'' [word_of_int status])
           (\<lambda>_. returnP 0))))))))))))"

definition async_transfers :: "'os sample_env \<Rightarrow> u64 \<Rightarrow> u64 \<Rightarrow> u64 \<Rightarrow> u64 \<Rightarrow> nat \<Rightarrow> ('os sample, int) prog" where
  "async_transfers D pb bufptr func ctx argp =
     (let E = veos_env (penv (spawn D))
      in bindP (on_api (veo_async_read_mem ctx pb bufptr 8))
           (\<lambda>req. bindP (printf ''veo_async_read_mem() returned %ld'' [req])
           (\<lambda>_. bindP (on_api (veo_call_wait_result E ctx req))
           (\<lambda>(_, rv0). bindP (getP (load_long pb))
           (\<lambda>buffer. bindP (printf ''%016lx'' [buffer])
           (\<lambda>_. bindP (on_api (veo_call_async ctx func argp))
           (\<lambda>i. bindP (printf ''veo_call_async() returned %ld'' [i])
           (\<lambda>_. bindP (on_api (veo_call_wait_result E ctx i))
           (\<lambda>(ret, rv1). bindP (print_result i ret (stored rv1 rv0))
           (\<lambda>_. async_write D pb bufptr func ctx argp (stored rv1 rv0)))))))))))"

definition test_async_mem :: "'os sample_env \<Rightarrow> u64 \<Rightarrow> ('os sample, int) prog" where
  "test_async_mem D pb =
     (let P = penv (spawn D)
      in bindP (proc_create D 0)
           (\<lambda>proc. if \<not> proc then returnP 1
              else bindP (on_api (veo_load_library P (literal D ''./libveasyncmem.so'')))
                (\<lambda>handle. bindP (printf ''handle = %p'' [handle])
                (\<lambda>_. bindP (on_api (context_open P))
                (\<lambda>ctx. bindP (printf ''VEO context = %p'' [ctx])
                (\<lambda>_. bindP (on_api (veo_args_alloc (args_object D) (args_storage D)))
                (\<lambda>argp. bindP (store_long pb 0)
                (\<lambda>_. bindP (on_api (veo_get_sym P handle (literal D ''buffer'')))
                (\<lambda>bufptr. bindP (on_api (veo_get_sym P handle (literal D ''print_buffer'')))
                (\<lambda>func. async_transfers D pb bufptr func ctx argp))))))))))"

section \<open>Requests of a program\<close>

lemma serves_request:
  fixes E :: "'os veos"
  assumes "serves h ctx A n [] [] s" and "supported G A f" and "ve_functions E h reg vmem G" and "args_by_value A"
  shows "\<exists>i s1 v t n'. request_of ctx f s = Some (Inr i, s1) \<and> i \<noteq> VEO_REQUEST_ID_INVALID
     \<and> veo_call_wait_result E ctx i s1 = Some (Inr (VEO_COMMAND_OK, Some v), t)
     \<and> mem_exec G A f (memories vmem (wk (ps s))) v (memories vmem (wk (ps t))) \<and> serves h ctx A n' [] [] t"
proof -
  let ?i = "fst (fetch_id n)"
  obtain s1 where s1: "request_of ctx f s = Some (Inr ?i, s1)" "serves h ctx A (snd (fetch_id n)) [(?i, f)] [] s1"
      "memories vmem (wk (ps s1)) = memories vmem (wk (ps s))"
    using serves_submit [OF assms(1,2), of vmem] by auto
  obtain v t where "veo_call_wait_result E ctx ?i s1 = Some (Inr (VEO_COMMAND_OK, Some v), t)"
      "mem_run G A [f] (memories vmem (wk (ps s1))) [v] (memories vmem (wk (ps t)))"
      "serves h ctx A (snd (fetch_id n)) [] [] t"
    using serves_wait [of h ctx A "snd (fetch_id n)" "[]" ?i f "[]" "[]" s1, OF _ assms(3,4)] s1(2) assms(2)
    by (auto simp del: mem_run_Cons mem_run_Nil)
  with s1(1,3) fetch_id_valid [of n] show ?thesis by (intro exI conjI) (assumption | simp | auto)+
qed

text \<open>Two requests, of which the second is waited for first.\<close>

lemma serves_two_requests:
  fixes E :: "'os veos"
  assumes "serves h ctx A n [] [] s" and "supported G A f" and "supported G A g"
    and "ve_functions E h reg vmem G" and "args_by_value A"
  shows "\<exists>i s1 j s2 u v t t' n'. request_of ctx f s = Some (Inr i, s1) \<and> request_of ctx g s1 = Some (Inr j, s2)
     \<and> veo_call_wait_result E ctx j s2 = Some (Inr (VEO_COMMAND_OK, Some v), t)
     \<and> veo_call_wait_result E ctx i t = Some (Inr (VEO_COMMAND_OK, Some u), t')
     \<and> mem_run G A [f, g] (memories vmem (wk (ps s))) [u, v] (memories vmem (wk (ps t')))
     \<and> i \<noteq> VEO_REQUEST_ID_INVALID \<and> j \<noteq> VEO_REQUEST_ID_INVALID \<and> i \<noteq> j \<and> serves h ctx A n' [] [] t'"
proof -
  let ?i = "fst (fetch_id n)" and ?m = "snd (fetch_id n)"
  let ?j = "fst (fetch_id ?m)"
  have ids: "?i \<noteq> ?j" using issue_ids_distinct [of "Suc (Suc 0)" n] by simp
  obtain s1 where s1: "request_of ctx f s = Some (Inr ?i, s1)" "serves h ctx A ?m [(?i, f)] [] s1"
      "memories vmem (wk (ps s1)) = memories vmem (wk (ps s))"
    using serves_submit [OF assms(1,2), of vmem] by auto
  obtain s2 where s2: "request_of ctx g s1 = Some (Inr ?j, s2)"
      "serves h ctx A (snd (fetch_id ?m)) [(?i, f), (?j, g)] [] s2" "memories vmem (wk (ps s2)) = memories vmem (wk (ps s1))"
    using serves_submit [OF s1(2) assms(3), of vmem] ids by auto
  have "serves h ctx A (snd (fetch_id ?m)) ([(?i, f)] @ (?j, g) # []) [] s2" using s2(2) by simp
  from serves_wait [OF this assms(4,5)] assms(2,3) obtain u v t where
    t: "veo_call_wait_result E ctx ?j s2 = Some (Inr (VEO_COMMAND_OK, Some v), t)"
      "mem_run G A [f, g] (memories vmem (wk (ps s2))) [u, v] (memories vmem (wk (ps t)))"
      "serves h ctx A (snd (fetch_id ?m)) [] [(?i, f, u)] t"
    by (auto simp: length_Suc_conv simp del: mem_run_Cons mem_run_Nil)
  obtain t' where "veo_call_wait_result E ctx ?i t = Some (Inr (VEO_COMMAND_OK, Some u), t')"
      "memories vmem (wk (ps t')) = memories vmem (wk (ps t))" "serves h ctx A (snd (fetch_id ?m)) [] [] t'"
    using serves_take [of h ctx A _ "[]" "[]" ?i f u "[]" t E vmem] t(3) by auto
  with s1(1,3) s2(1,3) t(1,2) ids fetch_id_valid [of n] fetch_id_valid [of ?m] show ?thesis
    by (intro exI conjI) (assumption | simp del: mem_run_Cons)+
qed

section \<open>The program\<close>

text \<open>A VE function that looks at the variable only, and gives a value that depends on it.\<close>

definition buffer_function :: "u64 \<Rightarrow> (bytes \<Rightarrow> u64) \<Rightarrow> ve_semantics" where
  "buffer_function bufptr g R M = (g (mem_read M bufptr 8), M)"

lemma print_buffer_function: "print_buffer = buffer_function bufptr (\<lambda>_. 1)"
  by (simp add: fun_eq_iff print_buffer_def buffer_function_def)

lemma serves_store:
  "serves h ctx A n [] [] s \<Longrightarrow>
   serves h ctx A n [] [] (s\<lparr>ps := (ps s)\<lparr>wk := (wk (ps s))\<lparr>vh_mem := V\<rparr>\<rparr>\<rparr>)"
  by (simp add: serves_def serving_def pending_def completed_def args_held_def)

lemma async_write_passes:
  fixes D :: "'os sample_env"
  assumes "serves h ctx [argp \<mapsto> []] n [] [] (api s)" and "func \<noteq> 0"
    and "ve_functions (veos_env (penv (spawn D))) h reg vmem [func \<mapsto> buffer_function bufptr g]"
  shows "\<exists>req j t. async_write D pb bufptr func ctx argp rv0 s = Some (Inr 0, t)
     \<and> VEO_REQUEST_ID_INVALID \<notin> {req, j}
     \<and> vh_out t = vh_out s
         @ [(''veo_async_write_mem() returned %ld'', [req]), (''veo_call_async() returned %ld'', [j]),
            (''0x%lx: %d, %lu'', [j, 0, g (word_image (0xc0ffee :: u64))]), (''0x%lx: %d, %lu'', [req, 0, 0]),
            (''close status = %d'', [0])]"
proof -
  let ?E = "veos_env (penv (spawn D))" and ?A = "[argp \<mapsto> []]" and ?G = "[func \<mapsto> buffer_function bufptr g]"
  let ?call = "CallFunction func argp" and ?mem = "\<lambda>a. memories vmem (wk (ps a))"
  let ?s = "(api s)\<lparr>ps := (ps (api s))\<lparr>wk := (wk (ps (api s)))
      \<lparr>vh_mem := mem_write (vh_mem (wk (ps (api s)))) pb (word_image (0xc0ffee :: u64))\<rparr>\<rparr>\<rparr>"
  have A: "args_by_value ?A" "supported ?G ?A ?call" using assms(2) by (simp_all add: args_by_value_def)
  have store: "serves h ctx ?A n [] [] ?s" by (rule serves_store [OF assms(1)])
  obtain req a3 j a4 u v t3 t4 n4 where t3: "veo_async_write_mem ctx bufptr pb 8 ?s = Some (Inr req, a3)"
      "veo_call_async ctx func argp a3 = Some (Inr j, a4)" "req \<noteq> VEO_REQUEST_ID_INVALID" "j \<noteq> VEO_REQUEST_ID_INVALID"
      "veo_call_wait_result ?E ctx j a4 = Some (Inr (VEO_COMMAND_OK, Some v), t3)"
      "veo_call_wait_result ?E ctx req t3 = Some (Inr (VEO_COMMAND_OK, Some u), t4)"
      "mem_run ?G ?A [WriteMem bufptr pb 8, ?call] (?mem ?s) [u, v] (?mem t4)" "serves h ctx ?A n4 [] [] t4"
    using serves_two_requests [OF store _ A(2) assms(3) A(1), of "WriteMem bufptr pb 8"]
    by (auto simp del: mem_run_Cons mem_run_Nil)
  have "u = 0" "v = g (word_image (0xc0ffee :: u64))"
    using t3(7) by (auto simp: memories_def buffer_function_def mem_simps elim!: write_execE call_execE)
  moreover obtain w where w: "veo_context_close ?E ctx t4 = Some (Inr 0, w)"
    using context_close [OF ready_serves [OF t3(8)]] by blast
  moreover have "store_long pb 0xc0ffee s = Some (Inr (), s\<lparr>api := ?s\<rparr>)"
    by (simp add: store_long_def on_api_def on_proc_def write_vh_def)
  ultimately show ?thesis
    using t3(1-6) unfolding async_write_def Let_def
    by (intro exI [of _ req] exI [of _ j]) (simp add: printf_def print_result_def stored_def VEO_COMMAND_OK_def)
qed

text \<open>
  C16: transfers and calls mixed: \<^verbatim>\<open>test_async_mem.c\<close>.  Let the function called be \<^verbatim>\<open>print_buffer\<close> or any other
  that looks at the variable of the VE.  The program runs to its end: it prints the value that the
  variable had, the first call finds the variable as it was, and the second call, submitted
  behind the transfer that writes the variable, finds the new value, although it is waited for before
  the transfer is; all four requests have the status OK.
\<close>

theorem async_memory_test_passes:
  fixes D :: "'os sample_env"
  assumes "context_ready h ctx (api s)" and "func \<noteq> 0"
    and "args_heap (wk (ps (api s))) argp = Some ca" and "arguments ca = []"
    and "ve_functions (veos_env (penv (spawn D))) h reg vmem [func \<mapsto> buffer_function bufptr g]"
  defines "B \<equiv> mem_read (vmem (os (wk (ps (api s))))) bufptr 8"
  shows "\<exists>req i req' j t. async_transfers D pb bufptr func ctx argp s = Some (Inr 0, t)
     \<and> VEO_REQUEST_ID_INVALID \<notin> {req, i, req', j}
     \<and> vh_out t = vh_out s
         @ [(''veo_async_read_mem() returned %ld'', [req]), (''%016lx'', [le_word B]),
            (''veo_call_async() returned %ld'', [i]), (''0x%lx: %d, %lu'', [i, 0, g B]),
            (''veo_async_write_mem() returned %ld'', [req']), (''veo_call_async() returned %ld'', [j]),
            (''0x%lx: %d, %lu'', [j, 0, g (word_image (0xc0ffee :: u64))]), (''0x%lx: %d, %lu'', [req', 0, 0]),
            (''close status = %d'', [0])]"
proof -
  let ?E = "veos_env (penv (spawn D))" and ?A = "[argp \<mapsto> []]" and ?G = "[func \<mapsto> buffer_function bufptr g]"
  let ?call = "CallFunction func argp" and ?mem = "\<lambda>a. memories vmem (wk (ps a))"
  let ?V = "vh_mem (wk (ps (api s)))" and ?M = "vmem (os (wk (ps (api s))))"
  have A: "args_by_value ?A" "args_held ?A (wk (ps (api s)))" "supported ?G ?A ?call"
    using assms(2-4) by (simp_all add: args_by_value_def args_held_def)
  obtain n where n: "serves h ctx ?A n [] [] (api s)" using serves_ready [OF assms(1) A(2)] by blast
  obtain req a1 v1 t1 n1 where t1: "veo_async_read_mem ctx pb bufptr 8 (api s) = Some (Inr req, a1)"
      "req \<noteq> VEO_REQUEST_ID_INVALID" "veo_call_wait_result ?E ctx req a1 = Some (Inr (VEO_COMMAND_OK, Some v1), t1)"
      "?mem t1 = (mem_write ?V pb B, ?M)" "serves h ctx ?A n1 [] [] t1"
    using serves_request [OF n, of ?G "ReadMem pb bufptr 8", OF _ assms(5) A(1)]
    by (auto simp: memories_def B_def elim!: read_execE)
  obtain i a2 t2 n2 where t2: "veo_call_async ctx func argp t1 = Some (Inr i, a2)"
      "i \<noteq> VEO_REQUEST_ID_INVALID" "veo_call_wait_result ?E ctx i a2 = Some (Inr (VEO_COMMAND_OK, Some (g B)), t2)"
      "?mem t2 = (mem_write ?V pb B, ?M)" "serves h ctx ?A n2 [] [] t2"
    using serves_request [OF t1(5) A(3) assms(5) A(1)] t1(4)
    by (auto simp: buffer_function_def B_def elim!: call_execE)
  have "mem_read (vh_mem (wk (ps t1))) pb 8 = B"
    using t1(4) by (simp add: memories_def B_def mem_simps)
  let ?s2 = "s\<lparr>api := t2, vh_out := vh_out s @ [(''veo_async_read_mem() returned %ld'', [req]), (''%016lx'', [le_word B]),
      (''veo_call_async() returned %ld'', [i]), (''0x%lx: %d, %lu'', [i, 0, g B])]\<rparr>"
  have "async_transfers D pb bufptr func ctx argp s = async_write D pb bufptr func ctx argp (Some (g B)) ?s2"
    using t1(1,3) t2(1,3) \<open>mem_read _ pb 8 = B\<close> unfolding async_transfers_def Let_def
    by (simp add: printf_def print_result_def stored_def VEO_COMMAND_OK_def load_long_def)
  moreover obtain req' j t where "async_write D pb bufptr func ctx argp (Some (g B)) ?s2 = Some (Inr 0, t)"
      "VEO_REQUEST_ID_INVALID \<notin> {req', j}" "vh_out t = vh_out ?s2
         @ [(''veo_async_write_mem() returned %ld'', [req']), (''veo_call_async() returned %ld'', [j]),
            (''0x%lx: %d, %lu'', [j, 0, g (word_image (0xc0ffee :: u64))]), (''0x%lx: %d, %lu'', [req', 0, 0]),
            (''close status = %d'', [0])]"
    using async_write_passes [of h ctx argp n2 ?s2, OF _ assms(2,5)] t2(5) by fastforce
  ultimately show ?thesis
    using t1(2) t2(2) by (intro exI [of _ req] exI [of _ i] exI [of _ req'] exI [of _ j] exI [of _ t]) simp
qed

end
