(* ===== verification/Process_Memory.thy ===== *)
theory Process_Memory
  imports Memory_Requests
begin

text \<open>
  Memory transfers through the process handle (\<^verbatim>\<open>readMem\<close> and \<^verbatim>\<open>writeMem\<close> of \<^verbatim>\<open>ProcHandle.cpp\<close>): requests to
  the worker that are waited for at once.
\<close>

text \<open>The worker waits for requests, holds no result, and reaches the memory of the VE.\<close>

definition worker_transfers :: "'os veos \<Rightarrow> ('os \<Rightarrow> nat \<Rightarrow> u64) \<Rightarrow> ('os \<Rightarrow> memory) \<Rightarrow> 'os tstate \<Rightarrow> bool" where
  "worker_transfers E reg vmem s \<longleftrightarrow>
     ready s \<and> completed s = [] \<and> ve_machine E (os_handle (tc s)) reg vmem \<and> ve_memory E (os_handle (tc s)) vmem"

text \<open>What a transfer leaves alone.\<close>

definition transfer_kept :: "'os pstate \<Rightarrow> 'os pstate \<Rightarrow> bool" where
  "transfer_kept s t \<longleftrightarrow>
     t = s\<lparr>wk := (wk s)\<lparr>vh_mem := vh_mem (wk t), os := os (wk t), tc := tc (wk t)\<rparr>\<rparr> \<and> os_handle (tc (wk t)) = os_handle (tc (wk s))"

text \<open>The transfers are the supported requests when there are no functions.\<close>

lemma run_transfer_memory:
  fixes E :: "'os veos"
  assumes "supported Map.empty Map.empty f" and "ve_machine E (os_handle (tc s)) reg vmem"
    and "ve_memory E (os_handle (tc s)) vmem"
  shows "\<exists>V w. run_command E f c s = Some (Inr (0, setResult c 0 VEO_COMMAND_OK), s\<lparr>vh_mem := V, os := w\<rparr>)
     \<and> mem_exec Map.empty Map.empty f (memories vmem s) 0 (V, vmem w)"
proof (cases f)
  case (ReadMem dst src sz)
  obtain w where "ve_recv_data E (os_handle (tc s)) src (unat sz) (os s)
      = ((0, mem_read (vmem (os s)) src (unat sz)), w)" "vmem w = vmem (os s)"
    using assms(3) unfolding ve_memory_def by blast
  then show ?thesis
    using mem_exec.from_ve [of Map.empty Map.empty dst src sz "vh_mem s" "vmem (os s)"]
    by (intro exI [of _ "mem_write (vh_mem s) dst (mem_read (vmem (os s)) src (unat sz))"] exI [of _ w])
      (simp add: ReadMem run_transfer_def readMem_def os_call_def memories_def)
next
  case (WriteMem dst src sz)
  let ?r = "ve_send_data E (os_handle (tc s)) dst (mem_read (vh_mem s) src (unat sz)) (os s)"
  have "fst ?r = 0" "vmem (snd ?r) = mem_write (vmem (os s)) dst (mem_read (vh_mem s) src (unat sz))"
    using assms(2,3) by (simp_all add: ve_memory_def ve_machine_def)
  then show ?thesis
    using mem_exec.to_ve [of Map.empty Map.empty dst src sz "vh_mem s" "vmem (os s)"]
    by (intro exI [of _ "vh_mem s"] exI [of _ "snd ?r"])
      (simp add: WriteMem run_transfer_def writeMem_def os_call_def memories_def)
qed (use assms(1) in simp_all)

lemma worker_request:
  fixes E :: "'os veos"
  assumes "worker_transfers E reg vmem (wk s)" and "supported Map.empty Map.empty f"
  shows "\<exists>t. on_worker (bindP (submit f) (\<lambda>i. bindP (callWaitResult E i) transfer_value)) s = Some (Inr 0, t)
     \<and> mem_exec Map.empty Map.empty f (memories vmem (wk s)) 0 (memories vmem (wk t))
     \<and> worker_transfers E reg vmem (wk t) \<and> transfer_kept s t"
proof -
  let ?s = "requested (wk s)" and ?c = "new_Command (next_id (wk s)) f"
  have idle: "idle (wk s)" using assms(1) by (simp add: worker_transfers_def idle_def)
  have s: "os_handle (tc ?s) = os_handle (tc (wk s))" "memories vmem ?s = memories vmem (wk s)"
    by (simp_all add: requested_def forget_def issued_def memories_def)
  obtain V w where w: "run_command E f ?c ?s = Some (Inr (0, setResult ?c 0 VEO_COMMAND_OK), ?s\<lparr>vh_mem := V, os := w\<rparr>)"
      "mem_exec Map.empty Map.empty f (memories vmem (wk s)) 0 (V, vmem w)"
    using run_transfer_memory [OF assms(2), of E ?s reg vmem ?c] assms(1) s by (auto simp: worker_transfers_def)
  let ?w = "set_completed (completed (wk s)) (complete_command 0 (setResult ?c 0 VEO_COMMAND_OK) (?s\<lparr>vh_mem := V, os := w\<rparr>))"
  have "on_worker (bindP (submit f) (\<lambda>i. bindP (callWaitResult E i) transfer_value)) s = Some (Inr 0, s\<lparr>wk := ?w\<rparr>)"
    using submit_and_wait [OF idle w(1), of transfer_value] by (simp add: on_worker_def transfer_value_def)
  moreover have "worker_transfers E reg vmem ?w"
    using assms(1) by (simp add: worker_transfers_def ready_def pending_def completed_def complete_command_def
        set_completed_def set_comq_def Let_def requested_def forget_def issued_def)
  moreover have "\<exists>x. ?w = (wk s)\<lparr>vh_mem := V, os := w, tc := x\<rparr> \<and> os_handle x = os_handle (tc (wk s))"
    by (intro exI [of _ "tc ?w"]) (simp add: complete_command_def set_completed_def set_comq_def Let_def requested_def forget_def issued_def)
  then have "transfer_kept s (s\<lparr>wk := ?w\<rparr>)" "memories vmem ?w = (V, vmem w)"
    by (auto simp: transfer_kept_def memories_def)
  ultimately show ?thesis using w(2) by (intro exI [of _ "s\<lparr>wk := ?w\<rparr>"]) simp
qed

text \<open>The two functions of the C API.\<close>

lemma veo_read_mem_result:
  fixes P :: "'os proc_env"
  assumes "worker_transfers (veos_env P) reg vmem (wk (ps s))"
  shows "\<exists>t. veo_read_mem P dst src sz s = Some (Inr 0, s\<lparr>ps := t\<rparr>)
     \<and> vh_mem (wk t) = mem_write (vh_mem (wk (ps s))) dst (mem_read (vmem (os (wk (ps s)))) src (unat sz))
     \<and> vmem (os (wk t)) = vmem (os (wk (ps s)))
     \<and> worker_transfers (veos_env P) reg vmem (wk t) \<and> transfer_kept (ps s) t"
proof -
  have "ctx_state (tc (wk (ps s))) = VEO_STATE_BLOCKED" using assms by (simp add: worker_transfers_def ready_def)
  then have "proc_readMem P dst src sz (ps s) = on_worker (bindP (submit (ReadMem dst src sz))
      (\<lambda>i. bindP (callWaitResult (veos_env P) i) transfer_value)) (ps s)"
    by (simp add: proc_readMem_def on_worker_def asyncReadMem_def bindP_def)
  moreover obtain t where "on_worker (bindP (submit (ReadMem dst src sz))
      (\<lambda>i. bindP (callWaitResult (veos_env P) i) transfer_value)) (ps s) = Some (Inr 0, t)"
      "mem_exec Map.empty Map.empty (ReadMem dst src sz) (memories vmem (wk (ps s))) 0 (memories vmem (wk t))"
      "worker_transfers (veos_env P) reg vmem (wk t)" "transfer_kept (ps s) t"
    using worker_request [OF assms, of "ReadMem dst src sz"] by auto
  ultimately show ?thesis
    by (intro exI [of _ t]) (auto simp: veo_read_mem_def or_code_def catchP_def on_proc_def memories_def elim!: read_execE)
qed

lemma veo_write_mem_result:
  fixes P :: "'os proc_env"
  assumes "worker_transfers (veos_env P) reg vmem (wk (ps s))"
  shows "\<exists>t. veo_write_mem P dst src sz s = Some (Inr 0, s\<lparr>ps := t\<rparr>)
     \<and> vmem (os (wk t)) = mem_write (vmem (os (wk (ps s)))) dst (mem_read (vh_mem (wk (ps s))) src (unat sz))
     \<and> vh_mem (wk t) = vh_mem (wk (ps s))
     \<and> worker_transfers (veos_env P) reg vmem (wk t) \<and> transfer_kept (ps s) t"
proof -
  have "ctx_state (tc (wk (ps s))) = VEO_STATE_BLOCKED" using assms by (simp add: worker_transfers_def ready_def)
  then have "proc_writeMem P dst src sz (ps s) = on_worker (bindP (submit (WriteMem dst src sz))
      (\<lambda>i. bindP (callWaitResult (veos_env P) i) transfer_value)) (ps s)"
    by (simp add: proc_writeMem_def on_worker_def asyncWriteMem_def bindP_def)
  moreover obtain t where "on_worker (bindP (submit (WriteMem dst src sz))
      (\<lambda>i. bindP (callWaitResult (veos_env P) i) transfer_value)) (ps s) = Some (Inr 0, t)"
      "mem_exec Map.empty Map.empty (WriteMem dst src sz) (memories vmem (wk (ps s))) 0 (memories vmem (wk t))"
      "worker_transfers (veos_env P) reg vmem (wk t)" "transfer_kept (ps s) t"
    using worker_request [OF assms, of "WriteMem dst src sz"] by auto
  ultimately show ?thesis
    by (intro exI [of _ t]) (auto simp: veo_write_mem_def or_code_def catchP_def on_proc_def memories_def elim!: write_execE)
qed

text \<open>
  C14: a round trip through the memory of the VE.  While the worker waits for requests, \<^verbatim>\<open>veo_write_mem\<close> of any
  buffer and \<^verbatim>\<open>veo_read_mem\<close> of the same range back into any buffer both give zero; the second
  buffer then holds what the first one held, the rest of the memory of the VH is untouched, and in the
  memory of the VE just that range has been written.
\<close>

theorem process_memory_roundtrip:
  fixes P :: "'os proc_env" and src sz :: u64
  assumes "worker_transfers (veos_env P) reg vmem (wk (ps s))"
  defines "bs \<equiv> mem_read (vh_mem (wk (ps s))) src (unat sz)"
  shows "\<exists>s1 t. veo_write_mem P a src sz s = Some (Inr 0, s1) \<and> veo_read_mem P dst a sz s1 = Some (Inr 0, t)
     \<and> vh_mem (wk (ps t)) = mem_write (vh_mem (wk (ps s))) dst bs
     \<and> mem_read (vh_mem (wk (ps t))) dst (unat sz) = bs
     \<and> vmem (os (wk (ps t))) = mem_write (vmem (os (wk (ps s)))) a bs
     \<and> worker_transfers (veos_env P) reg vmem (wk (ps t))"
proof -
  obtain u where u: "veo_write_mem P a src sz s = Some (Inr 0, s\<lparr>ps := u\<rparr>)"
      "vmem (os (wk u)) = mem_write (vmem (os (wk (ps s)))) a bs" "vh_mem (wk u) = vh_mem (wk (ps s))"
      "worker_transfers (veos_env P) reg vmem (wk u)"
    using veo_write_mem_result [OF assms(1), of a src sz] unfolding bs_def by blast
  have same: "mem_read (mem_write m p bs) p (unat sz) = bs" for m p
    using unsigned_less [of sz, where 'a = nat] by (simp add: bs_def mem_simps)
  obtain t where "veo_read_mem P dst a sz (s\<lparr>ps := u\<rparr>) = Some (Inr 0, s\<lparr>ps := t\<rparr>)"
      "vh_mem (wk t) = mem_write (vh_mem (wk (ps s))) dst bs" "vmem (os (wk t)) = vmem (os (wk u))"
      "worker_transfers (veos_env P) reg vmem (wk t)"
    using veo_read_mem_result [of P reg vmem "s\<lparr>ps := u\<rparr>" dst a sz] u same by auto
  with u same show ?thesis by (intro exI conjI) (assumption | simp)+
qed

end
