(* ===== verification/Sample_Hello.thy ===== *)
theory Sample_Hello
  imports Sample_Memory Process_Memory
begin

text \<open>
  The sample program \<^verbatim>\<open>src/examples/hello.c\<close>: while a call is pending on a context, a variable of the
  VE is read and written through the process handle, and a second call is queued.
\<close>

section \<open>The program\<close>

text \<open>The variable \<^verbatim>\<open>buffer\<close> of the program is at the address \<open>pb\<close>, the one of the VE at \<open>bufptr\<close>.\<close>

definition hello_buffer :: "'os sample_env \<Rightarrow> u64 \<Rightarrow> u64 \<Rightarrow> ('os sample, unit) prog" where
  "hello_buffer D pb bufptr =
     (let P = penv (spawn D)
      in bindP (on_api (veo_read_mem P pb bufptr 8))
           (\<lambda>ret. bindP (printf ''veo_read_mem() returned %d'' [word_of_int ret])
           (\<lambda>_. bindP (getP (load_long pb))
           (\<lambda>buffer. bindP (printf ''%016lx'' [buffer])
           (\<lambda>_. bindP (store_long pb 0xc0ffee)
           (\<lambda>_. bindP (on_api (veo_write_mem P bufptr pb 8))
           (\<lambda>ret. printf ''veo_write_mem() returned %d'' [word_of_int ret])))))))"

definition hello_results :: "'os sample_env \<Rightarrow> u64 \<Rightarrow> nat \<Rightarrow> u64 \<Rightarrow> u64 \<Rightarrow> ('os sample, int) prog" where
  "hello_results D ctx argp i i2 =
     (let E = veos_env (penv (spawn D))
      in bindP (on_api (veo_call_wait_result E ctx i))
           (\<lambda>(ret, rv0). bindP (print_result i ret rv0)
           (\<lambda>_. bindP (on_api (veo_call_wait_result E ctx i2))
           (\<lambda>(ret, rv1). bindP (print_result i2 ret (stored rv1 rv0))
           (\<lambda>_. bindP (on_api (veo_args_free argp))
           (\<lambda>_. bindP (on_api (veo_context_close E ctx))
           (\<lambda>status. bindP (printf ''close status = %d'' [word_of_int status])
           (\<lambda>_. returnP 0))))))))"

definition hello_calls :: "'os sample_env \<Rightarrow> u64 \<Rightarrow> u64 \<Rightarrow> u64 \<Rightarrow> u64 \<Rightarrow> ('os sample, int) prog" where
  "hello_calls D pb handle func ctx =
     (let P = penv (spawn D)
      in bindP (on_api (veo_args_alloc (args_object D) (args_storage D)))
           (\<lambda>argp. bindP (on_api (veo_args_set_i64 argp 0 42))
           (\<lambda>_. bindP (on_api (veo_call_async ctx func argp))
           (\<lambda>i. bindP (printf ''VEO request ID = 0x%lx'' [i])
           (\<lambda>_. bindP (store_long pb 0)
           (\<lambda>_. bindP (on_api (veo_get_sym P handle (literal D ''buffer'')))
           (\<lambda>bufptr. bindP (hello_buffer D pb bufptr)
           (\<lambda>_. bindP (on_api (veo_get_sym P handle (literal D ''print_buffer'')))
           (\<lambda>func2. bindP (on_api (veo_call_async ctx func2 argp))
           (\<lambda>i2. hello_results D ctx argp i i2))))))))))"

definition hello_main :: "'os sample_env \<Rightarrow> u64 \<Rightarrow> ('os sample, int) prog" where
  "hello_main D pb =
     (let P = penv (spawn D)
      in bindP (proc_create D 0)
           (\<lambda>proc. if \<not> proc then returnP 1
              else bindP (on_api (veo_load_library P (literal D ''./libvehello.so'')))
                (\<lambda>handle. bindP (printf ''handle = %p'' [handle])
                (\<lambda>_. bindP (on_api (veo_get_sym P handle (literal D ''hello'')))
                (\<lambda>func. bindP (printf ''symbol address = %p'' [func])
                (\<lambda>_. bindP (on_api (context_open P))
                (\<lambda>ctx. bindP (printf ''VEO context = %p'' [ctx])
                (\<lambda>_. hello_calls D pb handle func ctx))))))))"

section \<open>The worker while calls are pending\<close>

text \<open>The calls \<open>todo\<close> are queued on the context, and the worker is free.\<close>

definition calls_queued ::
  "'os veos \<Rightarrow> ('os \<Rightarrow> nat \<Rightarrow> u64) \<Rightarrow> ('os \<Rightarrow> memory) \<Rightarrow> ve_semantics \<Rightarrow> nat \<Rightarrow> u64
     \<Rightarrow> (nat \<Rightarrow> arg_base list option) \<Rightarrow> u64 \<Rightarrow> (u64 \<times> closure) list \<Rightarrow> 'os astate \<Rightarrow> bool" where
  "calls_queued E reg vmem Find h ctx A n todo s \<longleftrightarrow>
     serves h ctx A n todo [] s \<and> worker_runs E reg vmem (find_sym (funcs (ph (ps s)))) Find (wk (ps s))
     \<and> worker_transfers E reg vmem (wk (ps s))"

lemma serves_cong:
  "ctx_heap (wk (ps t)) = ctx_heap (wk (ps s)) \<Longrightarrow> args_heap (wk (ps t)) = args_heap (wk (ps s)) \<Longrightarrow>
   serves h ctx A n todo results t = serves h ctx A n todo results s"
  by (simp add: serves_def serving_def pending_def completed_def args_held_def)

lemma worker_cong:
  assumes "ready (wk t)" and "completed (wk t) = []" and "os_handle (tc (wk t)) = os_handle (tc (wk s))"
    and "funcs (ph t) = funcs (ph s)"
  shows "worker_runs E reg vmem (find_sym (funcs (ph s))) Find (wk s) \<Longrightarrow>
      worker_runs E reg vmem (find_sym (funcs (ph t))) Find (wk t)"
    and "worker_transfers E reg vmem (wk s) \<Longrightarrow> worker_transfers E reg vmem (wk t)"
  using assms by (simp_all add: worker_runs_def worker_transfers_def)

lemma lookup_queued:
  fixes P :: "'os proc_env"
  assumes "calls_queued (veos_env P) reg vmem Find h ctx A n todo s"
    and "mem_read (vh_mem (wk (ps s))) p (length name + 1) = name @ [0]" and "0 \<notin> set name"
    and "length name \<le> VEO_SYMNAME_LEN_MAX" and "sym_name (ph (ps s)) (hdl, name) = None" and "addr \<noteq> 0"
    and "\<forall>R M. R 0 = hdl \<and> mem_read M (R 1) (length name + 1) = name @ [0] \<longrightarrow> fst (Find R M) = addr"
  shows "\<exists>t. veo_get_sym P hdl p s = Some (Inr addr, t) \<and> calls_queued (veos_env P) reg vmem Find h ctx A n todo t
     \<and> vh_mem (wk (ps t)) = vh_mem (wk (ps s)) \<and> sym_name (ph (ps t)) = (sym_name (ph (ps s)))((hdl, name) \<mapsto> addr)"
proof -
  have q: "serves h ctx A n todo [] s" "worker_transfers (veos_env P) reg vmem (wk (ps s))"
      "worker_runs (veos_env P) reg vmem (find_sym (funcs (ph (ps s)))) Find (wk (ps s))"
    using assms(1) by (simp_all add: calls_queued_def)
  obtain u where u: "getSym P hdl p (ps s) = Some (Inr addr, u)" "worker_kept (ps s) u"
      "sym_name (ph u) = (sym_name (ph (ps s)))((hdl, name) \<mapsto> addr)"
    using getSym_call [OF q(3) c_string_stored [OF assms(3,2)] assms(4,5)] assms(6,7) by metis
  have "serves h ctx A n todo [] (s\<lparr>ps := u\<rparr>)"
    using q(1) u(2) by (subst serves_cong [of _ s]) (simp_all add: worker_kept_def)
  moreover have "worker_runs (veos_env P) reg vmem (find_sym (funcs (ph u))) Find (wk u)"
      "worker_transfers (veos_env P) reg vmem (wk u)"
    using worker_cong [of u "ps s"] q(2,3) u(2) by (simp_all add: worker_kept_def)
  ultimately show ?thesis
    using u by (intro exI [of _ "s\<lparr>ps := u\<rparr>"])
      (simp add: veo_get_sym_def or_errno_def catchP_def on_proc_def calls_queued_def worker_kept_def)
qed

lemma store_queued:
  assumes "calls_queued E reg vmem Find h ctx A n todo (api s)"
  shows "\<exists>a. store_long p v s = Some (Inr (), s\<lparr>api := a\<rparr>) \<and> calls_queued E reg vmem Find h ctx A n todo a
     \<and> vh_mem (wk (ps a)) = mem_write (vh_mem (wk (ps (api s)))) p (word_image v)
     \<and> os (wk (ps a)) = os (wk (ps (api s))) \<and> ph (ps a) = ph (ps (api s))"
proof -
  let ?a = "(api s)\<lparr>ps := (ps (api s))\<lparr>wk := (wk (ps (api s)))
      \<lparr>vh_mem := mem_write (vh_mem (wk (ps (api s)))) p (word_image v)\<rparr>\<rparr>\<rparr>"
  have "calls_queued E reg vmem Find h ctx A n todo ?a"
    using assms serves_cong [of ?a "api s"]
    by (simp add: calls_queued_def worker_runs_def worker_transfers_def ready_def pending_def completed_def)
  then show ?thesis
    by (intro exI [of _ ?a]) (simp add: store_long_def on_api_def on_proc_def write_vh_def)
qed

lemma transfer_queued:
  fixes P :: "'os proc_env"
  assumes "calls_queued (veos_env P) reg vmem Find h ctx A n todo s"
  shows "\<exists>t. veo_read_mem P dst src sz s = Some (Inr 0, t) \<and> calls_queued (veos_env P) reg vmem Find h ctx A n todo t
     \<and> vh_mem (wk (ps t)) = mem_write (vh_mem (wk (ps s))) dst (mem_read (vmem (os (wk (ps s)))) src (unat sz))
     \<and> vmem (os (wk (ps t))) = vmem (os (wk (ps s))) \<and> ph (ps t) = ph (ps s)"
    and "\<exists>t. veo_write_mem P dst src sz s = Some (Inr 0, t) \<and> calls_queued (veos_env P) reg vmem Find h ctx A n todo t
     \<and> vmem (os (wk (ps t))) = mem_write (vmem (os (wk (ps s)))) dst (mem_read (vh_mem (wk (ps s))) src (unat sz))
     \<and> vh_mem (wk (ps t)) = vh_mem (wk (ps s)) \<and> ph (ps t) = ph (ps s)"
proof -
  have q: "serves h ctx A n todo [] s" "worker_transfers (veos_env P) reg vmem (wk (ps s))"
      "worker_runs (veos_env P) reg vmem (find_sym (funcs (ph (ps s)))) Find (wk (ps s))"
    using assms(1) by (simp_all add: calls_queued_def)
  have kept: "calls_queued (veos_env P) reg vmem Find h ctx A n todo (s\<lparr>ps := t\<rparr>)" "ph t = ph (ps s)"
    if t: "worker_transfers (veos_env P) reg vmem (wk t)" "transfer_kept (ps s) t" for t
  proof -
    have eq: "t = (ps s)\<lparr>wk := (wk (ps s))\<lparr>vh_mem := vh_mem (wk t), os := os (wk t), tc := tc (wk t)\<rparr>\<rparr>"
      using t(2) by (simp add: transfer_kept_def)
    have same: "ctx_heap (wk t) = ctx_heap (wk (ps s))" "args_heap (wk t) = args_heap (wk (ps s))"
      by (subst eq; simp)+
    show ph: "ph t = ph (ps s)" by (subst eq) simp
    have "serves h ctx A n todo [] (s\<lparr>ps := t\<rparr>)"
      using q(1) same by (subst serves_cong [of _ s]) simp_all
    moreover have "worker_runs (veos_env P) reg vmem (find_sym (funcs (ph t))) Find (wk t)"
      using worker_cong(1) [of t "ps s"] q(3) t ph by (simp add: worker_transfers_def transfer_kept_def)
    ultimately show "calls_queued (veos_env P) reg vmem Find h ctx A n todo (s\<lparr>ps := t\<rparr>)"
      using t(1) by (simp add: calls_queued_def)
  qed
  show "\<exists>t. veo_read_mem P dst src sz s = Some (Inr 0, t) \<and> calls_queued (veos_env P) reg vmem Find h ctx A n todo t
     \<and> vh_mem (wk (ps t)) = mem_write (vh_mem (wk (ps s))) dst (mem_read (vmem (os (wk (ps s)))) src (unat sz))
     \<and> vmem (os (wk (ps t))) = vmem (os (wk (ps s))) \<and> ph (ps t) = ph (ps s)"
    using veo_read_mem_result [OF q(2), of dst src sz] kept by fastforce
  show "\<exists>t. veo_write_mem P dst src sz s = Some (Inr 0, t) \<and> calls_queued (veos_env P) reg vmem Find h ctx A n todo t
     \<and> vmem (os (wk (ps t))) = mem_write (vmem (os (wk (ps s)))) dst (mem_read (vh_mem (wk (ps s))) src (unat sz))
     \<and> vh_mem (wk (ps t)) = vh_mem (wk (ps s)) \<and> ph (ps t) = ph (ps s)"
    using veo_write_mem_result [OF q(2), of dst src sz] kept by fastforce
qed

lemma submit_queued:
  assumes "calls_queued E reg vmem Find h ctx A n todo s" and "supported G A (CallFunction func ref)"
    and "fst (fetch_id n) \<notin> fst ` set todo"
  shows "\<exists>t. veo_call_async ctx func ref s = Some (Inr (fst (fetch_id n)), t)
     \<and> calls_queued E reg vmem Find h ctx A (snd (fetch_id n)) (todo @ [(fst (fetch_id n), CallFunction func ref)]) t
     \<and> vh_mem (wk (ps t)) = vh_mem (wk (ps s)) \<and> ph (ps t) = ph (ps s)"
proof -
  have q: "serves h ctx A n todo [] s" using assms(1) by (simp add: calls_queued_def)
  obtain t where t: "veo_call_async ctx func ref s = Some (Inr (fst (fetch_id n)), t)"
      "serves h ctx A (snd (fetch_id n)) (todo @ [(fst (fetch_id n), CallFunction func ref)]) [] t"
      "memories vmem (wk (ps t)) = memories vmem (wk (ps s))" "process_kept s t"
    using serves_submit [OF q assms(2), of vmem] assms(3) by auto
  have "calls_queued E reg vmem Find h ctx A (snd (fetch_id n)) (todo @ [(fst (fetch_id n), CallFunction func ref)]) t"
    using assms(1) t(2,4)
    by (simp add: calls_queued_def worker_runs_def worker_transfers_def process_kept_def ready_def pending_def completed_def)
  with t show ?thesis by (simp add: memories_def process_kept_def)
qed

text \<open>
  The variable of the VE is read, and the new value is in the memory of the VE afterwards, whatever
  is queued on the context.
\<close>

lemma hello_buffer_exchanges:
  fixes D :: "'os sample_env"
  defines "E \<equiv> veos_env (penv (spawn D))"
  assumes "calls_queued E reg vmem Find h ctx A n todo (api s)"
  shows "\<exists>t. hello_buffer D pb bufptr s = Some (Inr (), t) \<and> calls_queued E reg vmem Find h ctx A n todo (api t)
     \<and> vmem (os (wk (ps (api t)))) = mem_write (vmem (os (wk (ps (api s))))) bufptr (word_image (0xc0ffee :: u64))
     \<and> (\<forall>p k. disjoint_ranges p k pb 8 \<longrightarrow>
          mem_read (vh_mem (wk (ps (api t)))) p k = mem_read (vh_mem (wk (ps (api s)))) p k)
     \<and> ph (ps (api t)) = ph (ps (api s))
     \<and> vh_out t = vh_out s @ [(''veo_read_mem() returned %d'', [0]),
          (''%016lx'', [le_word (mem_read (vmem (os (wk (ps (api s))))) bufptr 8)]), (''veo_write_mem() returned %d'', [0])]"
proof -
  let ?P = "penv (spawn D)" and ?B = "mem_read (vmem (os (wk (ps (api s))))) bufptr 8"
  obtain a where a: "veo_read_mem ?P pb bufptr 8 (api s) = Some (Inr 0, a)"
      "calls_queued E reg vmem Find h ctx A n todo a" "vh_mem (wk (ps a)) = mem_write (vh_mem (wk (ps (api s)))) pb ?B"
      "vmem (os (wk (ps a))) = vmem (os (wk (ps (api s))))" "ph (ps a) = ph (ps (api s))"
    using transfer_queued(1) [OF assms(2) [unfolded E_def], of pb bufptr 8] by (auto simp: E_def)
  let ?s1 = "s\<lparr>api := a, vh_out := vh_out s @ [(''veo_read_mem() returned %d'', [0]), (''%016lx'', [le_word ?B])]\<rparr>"
  obtain b where b: "store_long pb 0xc0ffee ?s1 = Some (Inr (), ?s1\<lparr>api := b\<rparr>)"
      "calls_queued E reg vmem Find h ctx A n todo b"
      "vh_mem (wk (ps b)) = mem_write (vh_mem (wk (ps a))) pb (word_image (0xc0ffee :: u64))"
      "os (wk (ps b)) = os (wk (ps a))" "ph (ps b) = ph (ps a)"
    using store_queued [of E reg vmem Find h ctx A n todo ?s1 pb "0xc0ffee"] a(2) by auto
  obtain c where c: "veo_write_mem ?P bufptr pb 8 b = Some (Inr 0, c)" "calls_queued E reg vmem Find h ctx A n todo c"
      "vmem (os (wk (ps c))) = mem_write (vmem (os (wk (ps b)))) bufptr (mem_read (vh_mem (wk (ps b))) pb 8)"
      "vh_mem (wk (ps c)) = vh_mem (wk (ps b))" "ph (ps c) = ph (ps b)"
    using transfer_queued(2) [of ?P, OF b(2) [unfolded E_def], of bufptr pb 8] by (auto simp: E_def)
  have "hello_buffer D pb bufptr s
      = Some (Inr (), ?s1\<lparr>api := c, vh_out := vh_out ?s1 @ [(''veo_write_mem() returned %d'', [0])]\<rparr>)" (is "_ = Some (_, ?t)")
    using a(1,3) b(1) c(1) unfolding hello_buffer_def Let_def
    by (simp add: printf_def load_long_def mem_read_write_same)
  moreover have "mem_read (vh_mem (wk (ps c))) p k = mem_read (vh_mem (wk (ps (api s)))) p k"
    if "disjoint_ranges p k pb 8" for p k
    using that a(3) b(3) c(4) by (simp add: mem_read_write_disjoint)
  moreover have "vmem (os (wk (ps c))) = mem_write (vmem (os (wk (ps (api s))))) bufptr (word_image (0xc0ffee :: u64))"
    using a(4) b(3,4) c(3) by (simp add: mem_read_write_same)
  ultimately show ?thesis
    using a(5) b(5) c(2,5) by (intro exI [of _ ?t]) simp
qed

section \<open>The program runs\<close>

lemma call_values:
  assumes "mem_exec G [ref \<mapsto> [ArgI64 42]] (CallFunction func ref) m v m'"
  shows "G func = Some hello \<Longrightarrow> v = 43" "G func = Some print_buffer \<Longrightarrow> v = 1"
  using assms by (auto simp: values_passed_def hello_def print_buffer_def elim!: call_execE)

lemma hello_results_printed:
  fixes D :: "'os sample_env" and argp :: nat and func func2 :: u64
  defines "E \<equiv> veos_env (penv (spawn D))" and "A \<equiv> [argp \<mapsto> [ArgI64 42]]" and "G \<equiv> [func \<mapsto> hello, func2 \<mapsto> print_buffer]"
  assumes "serves h ctx A n [(i, CallFunction func argp), (i2, CallFunction func2 argp)] [] (api s)"
    and "func \<noteq> 0" and "func2 \<noteq> 0" and "func \<noteq> func2" and "ve_functions E h reg vmem G"
  shows "\<exists>t. hello_results D ctx argp i i2 s = Some (Inr 0, t)
     \<and> vh_out t = vh_out s @ [(''0x%lx: %d, %lu'', [i, 0, 43]), (''0x%lx: %d, %lu'', [i2, 0, 1]), (''close status = %d'', [0])]"
proof -
  let ?f = "CallFunction func argp" and ?g = "CallFunction func2 argp"
  have sup: "supported G A ?f" "supported G A ?g" "args_by_value A"
    using assms(5-7) by (simp_all add: G_def A_def args_by_value_def)
  obtain v a where a: "veo_call_wait_result E ctx i (api s) = Some (Inr (VEO_COMMAND_OK, Some v), a)"
      "mem_exec G A ?f (memories vmem (wk (ps (api s)))) v (memories vmem (wk (ps a)))" "serves h ctx A n [(i2, ?g)] [] a"
    using serves_wait [of h ctx A n "[]" i ?f "[(i2, ?g)]" "[]" "api s", OF _ assms(8) sup(3)] assms(4) sup(1) by auto
  obtain v2 b where b: "veo_call_wait_result E ctx i2 a = Some (Inr (VEO_COMMAND_OK, Some v2), b)"
      "mem_exec G A ?g (memories vmem (wk (ps a))) v2 (memories vmem (wk (ps b)))" "serves h ctx A n [] [] b"
    using serves_wait [of h ctx A n "[]" i2 ?g "[]" "[]" a, OF _ assms(8) sup(3)] a(3) sup(2) by auto
  have v: "v = 43" "v2 = 1"
    using call_values(1) [OF a(2) [unfolded A_def]] call_values(2) [OF b(2) [unfolded A_def]] assms(7)
    by (simp_all add: G_def)
  let ?b = "b\<lparr>ps := (ps b)\<lparr>wk := (wk (ps b))\<lparr>args_heap := (args_heap (wk (ps b)))(argp := None)\<rparr>\<rparr>\<rparr>"
  have "context_ready h ctx ?b" using ready_serves [OF b(3)] by (simp add: context_ready_def)
  then obtain w where w: "veo_context_close E ctx ?b = Some (Inr 0, w)" using context_close by blast
  have "hello_results D ctx argp i i2 s = Some (Inr 0, s\<lparr>api := w, vh_out := vh_out s
      @ [(''0x%lx: %d, %lu'', [i, 0, 43]), (''0x%lx: %d, %lu'', [i2, 0, 1]), (''close status = %d'', [0])]\<rparr>)"
    using a(1) b(1) v w unfolding hello_results_def Let_def E_def
    by (simp add: printf_def print_result_def stored_def veo_args_free_def VEO_COMMAND_OK_def)
  then show ?thesis by simp
qed

text \<open>The names that the program looks up, and what the VE finds for them.\<close>

definition hello_library ::
  "'os sample_env \<Rightarrow> u64 \<Rightarrow> u64 \<Rightarrow> ve_semantics \<Rightarrow> u64 \<Rightarrow> u64 \<Rightarrow> 'os astate \<Rightarrow> bool" where
  "hello_library D pb hdl Find bufptr func2 s \<longleftrightarrow>
     mem_read (vh_mem (wk (ps s))) (literal D ''buffer'') 7 = ascii ''buffer'' @ [0]
     \<and> mem_read (vh_mem (wk (ps s))) (literal D ''print_buffer'') 13 = ascii ''print_buffer'' @ [0]
     \<and> disjoint_ranges (literal D ''buffer'') 7 pb 8 \<and> disjoint_ranges (literal D ''print_buffer'') 13 pb 8
     \<and> sym_name (ph (ps s)) (hdl, ascii ''buffer'') = None \<and> sym_name (ph (ps s)) (hdl, ascii ''print_buffer'') = None
     \<and> bufptr \<noteq> 0 \<and> func2 \<noteq> 0
     \<and> (\<forall>R M. R 0 = hdl \<and> mem_read M (R 1) 7 = ascii ''buffer'' @ [0] \<longrightarrow> fst (Find R M) = bufptr)
     \<and> (\<forall>R M. R 0 = hdl \<and> mem_read M (R 1) 13 = ascii ''print_buffer'' @ [0] \<longrightarrow> fst (Find R M) = func2)"

lemma hello_names:
  "length (ascii ''buffer'') = 6" "length (ascii ''print_buffer'') = 12" "0 \<notin> set (ascii ''buffer'')"
  "0 \<notin> set (ascii ''print_buffer'')" "ascii ''buffer'' \<noteq> ascii ''print_buffer''"
  by (simp_all add: ascii_def)

text \<open>The part between the two calls, whatever is queued on the context.\<close>

lemma hello_between_calls:
  fixes D :: "'os sample_env"
  defines "E \<equiv> veos_env (penv (spawn D))" and "P \<equiv> penv (spawn D)"
  assumes "hello_library D pb hdl Find bufptr func2 (api s)" and "calls_queued E reg vmem Find h ctx A n todo (api s)"
  shows "\<exists>b t. bindP (store_long pb 0) (\<lambda>_. bindP (on_api (veo_get_sym P hdl (literal D ''buffer'')))
       (\<lambda>bufptr. bindP (hello_buffer D pb bufptr)
       (\<lambda>_. bindP (on_api (veo_get_sym P hdl (literal D ''print_buffer''))) k))) s = k func2 t
     \<and> calls_queued E reg vmem Find h ctx A n todo (api t)
     \<and> vh_out t = vh_out s @ [(''veo_read_mem() returned %d'', [0]), (''%016lx'', [b]), (''veo_write_mem() returned %d'', [0])]"
proof -
  note lib = assms(3) [unfolded hello_library_def]
  obtain a where a: "store_long pb 0 s = Some (Inr (), s\<lparr>api := a\<rparr>)"
      "calls_queued E reg vmem Find h ctx A n todo a" "ph (ps a) = ph (ps (api s))"
      "vh_mem (wk (ps a)) = mem_write (vh_mem (wk (ps (api s)))) pb (word_image (0 :: u64))"
    using store_queued [OF assms(4), of pb 0] by auto
  obtain c where c: "veo_get_sym P hdl (literal D ''buffer'') a = Some (Inr bufptr, c)"
      "calls_queued E reg vmem Find h ctx A n todo c" "vh_mem (wk (ps c)) = vh_mem (wk (ps a))"
      "sym_name (ph (ps c)) = (sym_name (ph (ps (api s))))((hdl, ascii ''buffer'') \<mapsto> bufptr)"
    using lookup_queued [of P, OF a(2) [unfolded E_def P_def [symmetric]], of "literal D ''buffer''" "ascii ''buffer''" hdl bufptr]
      a(3,4) lib by (auto simp: E_def P_def hello_names VEO_SYMNAME_LEN_MAX_def mem_read_write_disjoint)
  obtain t where t: "hello_buffer D pb bufptr (s\<lparr>api := c\<rparr>) = Some (Inr (), t)"
      "calls_queued E reg vmem Find h ctx A n todo (api t)" "ph (ps (api t)) = ph (ps c)"
      "\<forall>p k. disjoint_ranges p k pb 8 \<longrightarrow> mem_read (vh_mem (wk (ps (api t)))) p k = mem_read (vh_mem (wk (ps c))) p k"
      "vh_out t = vh_out s @ [(''veo_read_mem() returned %d'', [0]),
          (''%016lx'', [le_word (mem_read (vmem (os (wk (ps c)))) bufptr 8)]), (''veo_write_mem() returned %d'', [0])]"
    using hello_buffer_exchanges [of D reg vmem Find h ctx A n todo "s\<lparr>api := c\<rparr>" pb bufptr] c(2) by (auto simp: E_def)
  have "sym_name (ph (ps (api t))) (hdl, ascii ''print_buffer'') = None"
      "mem_read (vh_mem (wk (ps (api t)))) (literal D ''print_buffer'') 13 = ascii ''print_buffer'' @ [0]"
    using a(4) c(3,4) t(3,4) lib hello_names(5) by (auto simp: mem_read_write_disjoint)
  then obtain d where d: "veo_get_sym P hdl (literal D ''print_buffer'') (api t) = Some (Inr func2, d)"
      "calls_queued E reg vmem Find h ctx A n todo d"
    using lookup_queued [of P, OF t(2) [unfolded E_def P_def [symmetric]], of "literal D ''print_buffer''"
        "ascii ''print_buffer''" hdl func2] lib by (auto simp: E_def P_def hello_names VEO_SYMNAME_LEN_MAX_def)
  show ?thesis
    using a(1) c(1) t(1,5) d by (intro exI [of _ "le_word (mem_read (vmem (os (wk (ps c)))) bufptr 8)"]
        exI [of _ "t\<lparr>api := d\<rparr>"]) simp
qed


end
