(* ===== verification/Sample_Stack.thy ===== *)
theory Sample_Stack
  imports Sample_Fortran
begin

text \<open>
  The sample program \<^verbatim>\<open>src/examples/test_stackargs.c\<close> with its VE library \<^verbatim>\<open>libvestackargs.c\<close>: arguments of
  all types, more of them than there are registers, and buffers in both directions.
\<close>

section \<open>The VE functions\<close>

text \<open>
  What the functions print is left out.  Floating-point numbers are their bit patterns; the
  addition of the VE and its conversion to single precision are parameters.  The arguments from the
  ninth on are in the parameter area behind the stack pointer.
\<close>

definition stack_param :: "(nat \<Rightarrow> u64) \<Rightarrow> memory \<Rightarrow> nat \<Rightarrow> u64" where
  "stack_param R M n = le_word (mem_read M (R 11 + of_nat (slot_off n)) 8)"

text \<open>\<^verbatim>\<open>ftest\<close> returns no value, so that the register for one holds something, \<open>g\<close>.\<close>

definition ftest :: "((nat \<Rightarrow> u64) \<Rightarrow> memory \<Rightarrow> u64) \<Rightarrow> ve_semantics" where
  "ftest g R M = (g R M, M)"

definition test_many_args :: "(u64 \<Rightarrow> u64 \<Rightarrow> u64) \<Rightarrow> ve_semantics" where
  "test_many_args dadd R M =
     (foldl dadd (R 0) (map R [1..<8] @ [stack_param R M 8, stack_param R M 9]), M)"

definition test_32 :: ve_semantics where
  "test_32 R M = (0, M)"

text \<open>\<^verbatim>\<open>strncpy(d, src, n)\<close>: the bytes it writes at \<^verbatim>\<open>d\<close>.\<close>

definition strncpy_bytes :: "bytes \<Rightarrow> nat \<Rightarrow> bytes" where
  "strncpy_bytes src n = take n src @ replicate (n - length src) 0"

definition test_many_inout :: "(u64 \<Rightarrow> u64 \<Rightarrow> u64) \<Rightarrow> (u64 \<Rightarrow> u32) \<Rightarrow> ve_semantics" where
  "test_many_inout dadd to_float R M =
     (let i9 = (ucast (stack_param R M 9) :: u32);
          M1 = mem_write M (R 1) (word_image (ucast (le_word (mem_read M (R 1) 4)) + 1 :: u32));
          s = dadd (dadd (dadd (dadd (R 3) (R 4)) (R 5)) (R 6)) (R 7);
          M2 = mem_write M1 (R 2) (word_image (to_float s))
      in (1, mem_write M2 (stack_param R M 8)
               (strncpy_bytes (ascii ''Hello, 89abcdef'') (unat (scast (i9 - 1) :: u64)))))"

definition test_8 :: ve_semantics where
  "test_8 R M = (scast (ucast (R 0) :: u32), M)"

definition test_16 :: ve_semantics where
  "test_16 R M = (0, M)"

section \<open>The program\<close>

text \<open>
  The addresses of the variables and of the string literal that the program passes by reference;
  \<open>to_double\<close> is the conversion of a \<^verbatim>\<open>float\<close> for \<^verbatim>\<open>printf\<close>.
\<close>

record stack_vars =
  var_ad :: u64
  lit_at :: u64
  var_ai :: u64
  var_in0 :: u64
  var_inout1 :: u64
  var_out2 :: u64
  var_out8 :: u64
  to_double :: "u32 \<Rightarrow> u64"

definition store_bytes :: "u64 \<Rightarrow> bytes \<Rightarrow> ('os sample, unit) prog" where
  "store_bytes a bs = on_api (on_proc (write_vh a bs))"

definition load_u32 :: "u64 \<Rightarrow> 'os sample \<Rightarrow> u32" where
  "load_u32 a s = ucast (le_word (mem_read (vh_mem (wk (ps (api s)))) a 4))"

text \<open>
  A function is called and waited for, and its arguments are freed; the program does not look at the
  results.
\<close>

definition stack_call :: "'os sample_env \<Rightarrow> u64 \<Rightarrow> u64 \<Rightarrow> nat \<Rightarrow> ('os sample, unit) prog" where
  "stack_call D ctx func arg =
     bindP (on_api (veo_call_async ctx func arg))
       (\<lambda>req. bindP (on_api (veo_call_wait_result (veos_env (penv (spawn D))) ctx req))
       (\<lambda>_. on_api (veo_args_free arg)))"

definition call_ftest :: "'os sample_env \<Rightarrow> stack_vars \<Rightarrow> u64 \<Rightarrow> u64 \<Rightarrow> ('os sample, unit) prog" where
  "call_ftest D V func ctx =
     bindP (on_api (veo_args_alloc (args_object D) (args_storage D)))
       (\<lambda>arg. bindP (store_bytes (var_ad V) (word_image (0xbffe04189374bc6a :: u64)))
       (\<lambda>_. bindP (store_bytes (var_ai V) (word_image (19181716 :: u32)))
       (\<lambda>_. bindP (on_api (veo_args_set_stack arg VEO_INTENT_IN 0 (var_ad V) 8))
       (\<lambda>_. bindP (on_api (veo_args_set_stack arg VEO_INTENT_IN 1 (lit_at V) 13))
       (\<lambda>_. bindP (on_api (veo_args_set_stack arg VEO_INTENT_IN 2 (var_ai V) 4))
       (\<lambda>_. stack_call D ctx func arg))))))"

text \<open>The numbers 1.0 to 10.0.\<close>

definition doubles :: "u64 list" where
  "doubles = [0x3ff0000000000000, 0x4000000000000000, 0x4008000000000000, 0x4010000000000000, 0x4014000000000000,
     0x4018000000000000, 0x401c000000000000, 0x4020000000000000, 0x4022000000000000, 0x4024000000000000]"

fun set_doubles :: "nat \<Rightarrow> int \<Rightarrow> u64 list \<Rightarrow> ('os sample, unit) prog" where
  "set_doubles arg i [] = returnP ()"
| "set_doubles arg i (d # ds) =
     bindP (on_api (veo_args_set_double arg i d)) (\<lambda>_. set_doubles arg (i + 1) ds)"

definition call_many_args :: "'os sample_env \<Rightarrow> u64 \<Rightarrow> u64 \<Rightarrow> ('os sample, unit) prog" where
  "call_many_args D handle ctx =
     bindP (on_api (veo_args_alloc (args_object D) (args_storage D)))
       (\<lambda>arg. bindP (set_doubles arg 0 doubles)
       (\<lambda>_. bindP (on_api (veo_get_sym (penv (spawn D)) handle (literal D ''test_many_args'')))
       (\<lambda>func. bindP (printf ''symbol address (test_many_args) = %p'' [func])
       (\<lambda>_. stack_call D ctx func arg))))"

definition call_32 :: "'os sample_env \<Rightarrow> u64 \<Rightarrow> u64 \<Rightarrow> ('os sample, unit) prog" where
  "call_32 D handle ctx =
     bindP (on_api (veo_args_alloc (args_object D) (args_storage D)))
       (\<lambda>arg. bindP (on_api (veo_args_set_i32 arg 0 (- 2)))
       (\<lambda>_. bindP (on_api (veo_args_set_u32 arg 1 0xa0a0a0a0))
       (\<lambda>_. bindP (on_api (veo_args_set_float arg 2 0x3f800000))
       (\<lambda>_. bindP (on_api (veo_get_sym (penv (spawn D)) handle (literal D ''test_32'')))
       (\<lambda>func. bindP (printf ''symbol address (test_32) = %p'' [func])
       (\<lambda>_. stack_call D ctx func arg))))))"

text \<open>
  The call of \<^verbatim>\<open>test_many_inout\<close>.  The union through which the program prints the bits of \<^verbatim>\<open>out2\<close> has a value in
  its lower half, which is the part that \<^verbatim>\<open>%x\<close> prints; \<^verbatim>\<open>%s\<close> prints the bytes up to a NUL.
\<close>

definition print_inout :: "stack_vars \<Rightarrow> ('os sample, unit) prog" where
  "print_inout V = bindP (getP (load_u32 (var_inout1 V))) (\<lambda>v. printf ''VH: inout1 = %d'' [scast v])"

definition print_outputs :: "stack_vars \<Rightarrow> ('os sample, unit) prog" where
  "print_outputs V =
     bindP (print_inout V)
       (\<lambda>_. bindP (getP (load_u32 (var_out2 V)))
       (\<lambda>f. bindP (printf ''VH: out2 = %f (%#08x)'' [to_double V f, ucast f])
       (\<lambda>_. bindP (getP (\<lambda>s. c_string (vh_mem (wk (ps (api s)))) (var_out8 V)))
       (\<lambda>str. case str of
           None \<Rightarrow> throwP UndefinedBehaviour
         | Some bs \<Rightarrow> printf ''VH: out8 = %s'' (map ucast bs)))))"

definition set_inout :: "stack_vars \<Rightarrow> nat \<Rightarrow> ('os sample, unit) prog" where
  "set_inout V arg =
     bindP (store_bytes (var_in0 V) (ascii ''Hello, world.'' @ [0]))
       (\<lambda>_. bindP (on_api (veo_args_set_stack arg VEO_INTENT_IN 0 (var_in0 V) 14))
       (\<lambda>_. bindP (store_bytes (var_inout1 V) (word_image (42 :: u32)))
       (\<lambda>_. bindP (on_api (veo_args_set_stack arg VEO_INTENT_INOUT 1 (var_inout1 V) 4))
       (\<lambda>_. bindP (print_inout V)
       (\<lambda>_. bindP (on_api (veo_args_set_stack arg VEO_INTENT_OUT 2 (var_out2 V) 4))
       (\<lambda>_. bindP (set_doubles arg 3 (take 5 doubles))
       (\<lambda>_. bindP (on_api (veo_args_set_stack arg VEO_INTENT_OUT 8 (var_out8 V) 10))
       (\<lambda>_. bindP (on_api (veo_args_set_u32 arg 9 10)) (\<lambda>_. returnP ())))))))))"

definition call_many_inout :: "'os sample_env \<Rightarrow> stack_vars \<Rightarrow> u64 \<Rightarrow> u64 \<Rightarrow> ('os sample, unit) prog" where
  "call_many_inout D V func ctx =
     bindP (on_api (veo_args_alloc (args_object D) (args_storage D)))
       (\<lambda>arg. bindP (set_inout V arg)
       (\<lambda>_. bindP (stack_call D ctx func arg)
       (\<lambda>_. print_outputs V)))"

definition call_16 :: "'os sample_env \<Rightarrow> u64 \<Rightarrow> u64 \<Rightarrow> ('os sample, unit) prog" where
  "call_16 D handle ctx =
     bindP (on_api (veo_args_alloc (args_object D) (args_storage D)))
       (\<lambda>arg. bindP (on_api (veo_args_set_i16 arg 0 (- 2)))
       (\<lambda>_. bindP (on_api (veo_args_set_u16 arg 1 (ucast (0xa0a0a0a0 :: u32))))
       (\<lambda>_. bindP (on_api (veo_get_sym (penv (spawn D)) handle (literal D ''test_16'')))
       (\<lambda>func. bindP (printf ''symbol address (test_16) = %p'' [func])
       (\<lambda>_. stack_call D ctx func arg)))))"

definition call_8 :: "'os sample_env \<Rightarrow> u64 \<Rightarrow> u64 \<Rightarrow> ('os sample, unit) prog" where
  "call_8 D handle ctx =
     bindP (on_api (veo_args_alloc (args_object D) (args_storage D)))
       (\<lambda>arg. bindP (on_api (veo_args_set_i8 arg 0 (- 2)))
       (\<lambda>_. bindP (on_api (veo_args_set_u8 arg 1 (ucast (0xa0a0a0a0 :: u32))))
       (\<lambda>_. bindP (on_api (veo_get_sym (penv (spawn D)) handle (literal D ''test_8'')))
       (\<lambda>func. bindP (printf ''symbol address (test_8) = %p'' [func])
       (\<lambda>_. stack_call D ctx func arg)))))"

definition test_stackargs :: "'os sample_env \<Rightarrow> stack_vars \<Rightarrow> ('os sample, int) prog" where
  "test_stackargs D V =
     (let P = penv (spawn D)
      in bindP (proc_create D 0)
           (\<lambda>proc. if \<not> proc then bindP (printf ''veo_proc_create() failed!'' []) (\<lambda>_. returnP 1)
              else bindP (on_api (veo_load_library P (literal D ''./libvestackargs.so'')))
                (\<lambda>handle. bindP (printf ''handle = %p'' [handle])
                (\<lambda>_. bindP (on_api (veo_get_sym P handle (literal D ''ftest'')))
                (\<lambda>func. bindP (printf ''symbol address = %p'' [func])
                (\<lambda>_. bindP (on_api (context_open P))
                (\<lambda>ctx. bindP (printf ''VEO context = %p'' [ctx])
                (\<lambda>_. bindP (call_ftest D V func ctx)
                (\<lambda>_. bindP (call_many_args D handle ctx)
                (\<lambda>_. bindP (call_32 D handle ctx)
                (\<lambda>_. bindP (on_api (veo_get_sym P handle (literal D ''test_many_inout'')))
                (\<lambda>func2. bindP (printf ''symbol address (test_many_inout) = %p'' [func2])
                (\<lambda>_. bindP (call_many_inout D V func2 ctx)
                (\<lambda>_. bindP (call_16 D handle ctx)
                (\<lambda>_. bindP (call_8 D handle ctx)
                (\<lambda>_. bindP (on_api (veo_context_close (veos_env P) ctx))
                (\<lambda>_. returnP 0)))))))))))))))))"

section \<open>Arguments in the parameter area\<close>

lemma disjoint_shift: "disjoint_ranges (p + x) n (p + y) m = disjoint_ranges x n y m"
  by (simp add: disjoint_ranges_def add.assoc)

lemma disjoint_above:
  fixes p q :: u64
  assumes "unat q + m \<le> unat p" and "unat p + n \<le> 2 ^ 64"
  shows "disjoint_ranges p n q m"
  unfolding disjoint_ranges_def
proof (intro allI impI)
  fix i assume "i < n"
  have "unat (of_nat i :: u64) = i" using \<open>i < n\<close> assms by (intro unat_of_nat64) simp
  then have "unat (p + of_nat i) = unat p + i" using \<open>i < n\<close> assms by (simp add: unat_word_ariths)
  then show "m \<le> unat (p + of_nat i - q)" using assms by (simp add: unat_sub_if')
qed

lemma stack_param_slot:
  assumes "arguments_passed vh addr sp as R M" and "any_flag_in as 0" and "i < length as" and "8 \<le> i"
    and "slot_value (arg_at sp (data_off as i) (as ! i)) = Some v"
  shows "stack_param R M i = v"
proof -
  have M: "mem_read M sp (image_size as) = image_of vh sp as" "R 11 = sp"
    using assms(1,2) by (simp_all add: arguments_passed_def)
  have "slot_off i + 8 \<le> image_size as"
    using slot_off_le_data_off [OF assms(3), of i] data_off_le_image_size [OF assms(3)] by simp
  then have "mem_read M (sp + of_nat (slot_off i)) 8 = Veo_Prelude.slice (slot_off i) 8 (image_of vh sp as)"
    using slice_mem_read [of "slot_off i" 8 "image_size as" M sp] M by simp
  then show ?thesis
    using image_of_slot_value [OF assms(3), of sp vh] assms(4,5) M(2)
    by (simp add: stack_param_def NUM_ARGS_ON_REGISTER_def)
qed

lemma frame_buffer:
  assumes "arguments_passed vh addr sp as R M" and "any_flag_in as 0" and "i < length as"
    and "as ! i = ArgOnStack b l inn out v"
  shows "mem_read M (sp + of_nat (data_off as i)) (unat l)
     = (if inn then mem_read vh b (unat l) else replicate (unat l) 0)"
proof -
  have M: "mem_read M sp (image_size as) = image_of vh sp as"
    using assms(1,2) by (simp add: arguments_passed_def)
  have "data_off as i + unat l \<le> image_size as"
    using data_off_le_image_size [OF assms(3)] assms(4) by simp
  then show ?thesis
    using slice_mem_read [of "data_off as i" "unat l" "image_size as" M sp] M image_of_buffer [OF assms(3,4)] by simp
qed

section \<open>The call of \<^verbatim>\<open>test_many_inout\<close>\<close>

text \<open>The arguments as the program sets them up, and the offsets of their data in the frame.\<close>

definition inout_args :: "stack_vars \<Rightarrow> arg_base list" where
  "inout_args V = [ArgOnStack (var_in0 V) 14 True False None, ArgOnStack (var_inout1 V) 4 True True None,
     ArgOnStack (var_out2 V) 4 False True None] @ map ArgDouble (take 5 doubles)
     @ [ArgOnStack (var_out8 V) 10 False True None, ArgU32 10]"

lemma inout_layout:
  "data_off (inout_args V) 1 = 272" "data_off (inout_args V) 2 = 280" "data_off (inout_args V) 8 = 288"
  "image_size (inout_args V) = 304" "any_flag_in (inout_args V) 0" "length (inout_args V) = 10"
  by (simp_all add: inout_args_def doubles_def data_off_def data_size_def image_size_def slot_off_def PARAM_AREA_OFFSET_def
      NUM_ARGS_ON_REGISTER_def)

lemma inout_nth:
  "inout_args V ! 1 = ArgOnStack (var_inout1 V) 4 True True None"
  "inout_args V ! 2 = ArgOnStack (var_out2 V) 4 False True None"
  "inout_args V ! 8 = ArgOnStack (var_out8 V) 10 False True None" "inout_args V ! 9 = ArgU32 10"
  "j < 5 \<Longrightarrow> inout_args V ! (3 + j) = ArgDouble (doubles ! j)"
  by (simp_all add: inout_args_def doubles_def nth_append numeral_eq_Suc less_Suc_eq_0_disj) auto

text \<open>The sum that the function computes, in the order in which it adds.\<close>

definition sum_of_five :: "(u64 \<Rightarrow> u64 \<Rightarrow> u64) \<Rightarrow> u64" where
  "sum_of_five dadd =
     dadd (dadd (dadd (dadd (doubles ! 0) (doubles ! 1)) (doubles ! 2)) (doubles ! 3)) (doubles ! 4)"

lemma inout_registers:
  assumes "arguments_passed vh func sp (inout_args V) R M"
  shows "R 1 = sp + 272" "R 2 = sp + 280" "stack_param R M 8 = sp + 288" "stack_param R M 9 = 10"
    "dadd (dadd (dadd (dadd (R 3) (R 4)) (R 5)) (R 6)) (R 7) = sum_of_five dadd"
proof -
  have reg: "arg_getRegVal (arg_at sp (data_off (inout_args V) i) (inout_args V ! i)) = Inr (R i)" if "i < 8" for i
    using assms that by (simp add: arguments_passed_def inout_layout(6))
  show "R 1 = sp + 272" "R 2 = sp + 280"
    using reg [of 1] reg [of 2] by (simp_all add: inout_nth inout_layout del: One_nat_def)
  have d: "R (3 + j) = doubles ! j" if "j < 5" for j
    using reg [of "3 + j"] that by (simp add: inout_nth)
  show "dadd (dadd (dadd (dadd (R 3) (R 4)) (R 5)) (R 6)) (R 7) = sum_of_five dadd"
    using d [of 0] d [of 1] d [of 2] d [of 3] d [of 4] by (simp add: sum_of_five_def)
  show "stack_param R M 8 = sp + 288" "stack_param R M 9 = 10"
    by (intro stack_param_slot [OF assms inout_layout(5)]; simp add: inout_layout inout_nth)+
qed

text \<open>
  What the function leaves in the frame, and so in the variables of the program: the last byte of
  \<^verbatim>\<open>out8\<close>, which it does not write, is zero because the frame is.
\<close>

lemma many_inout_result:
  fixes V :: stack_vars
  assumes "arguments_passed vh func sp (inout_args V) R M" and "mem_read vh (var_inout1 V) 4 = word_image (v :: u32)"
    and "outputs_delivered vh vh' sp (inout_args V) (snd (test_many_inout dadd to_float R M))"
  shows "mem_read vh' (var_inout1 V) 4 = word_image (v + 1)"
    and "mem_read vh' (var_out2 V) 4 = word_image (to_float (sum_of_five dadd))"
    and "mem_read vh' (var_out8 V) 10 = ascii ''Hello, 89'' @ [0]"
proof -
  let ?M1 = "mem_write M (sp + 272) (word_image (v + 1))" and ?str = "ascii ''Hello, 89''"
  let ?M2 = "mem_write ?M1 (sp + 280) (word_image (to_float (sum_of_five dadd)))"
  let ?M3 = "mem_write ?M2 (sp + 288) ?str"
  have len: "length ?str = 9" by (simp add: ascii_def)
  have in1: "mem_read M (sp + 272) 4 = word_image v" and in8: "mem_read M (sp + 288) 10 = replicate 10 0"
    using frame_buffer [OF assms(1) inout_layout(5) _ inout_nth(1)] frame_buffer [OF assms(1) inout_layout(5) _ inout_nth(3)]
      assms(2) by (simp_all add: inout_layout del: One_nat_def)
  have copied: "strncpy_bytes (ascii ''Hello, 89abcdef'') (unat (scast (ucast (10 :: u64) - 1 :: u32) :: u64)) = ?str"
    by (simp add: strncpy_bytes_def ascii_def)
  have "(ucast (ucast v :: u64) :: u32) = v" by (rule bit_word_eqI) (simp add: bit_ucast_iff)
  then have M: "snd (test_many_inout dadd to_float R M) = ?M3"
    unfolding test_many_inout_def Let_def inout_registers [OF assms(1)] copied
    using in1 by (simp add: byte_simps)
  have each: "mem_read vh' (arg_buff (inout_args V ! i)) (unat (arg_len (inout_args V ! i)))
      = mem_read ?M3 (sp + of_nat (data_off (inout_args V) i)) (unat (arg_len (inout_args V ! i)))"
    if "i < 10" "flag_out (inout_args V ! i)" for i
    using assms(3) that unfolding outputs_delivered_def M inout_layout(6) by blast
  have out: "mem_read vh' (var_inout1 V) 4 = mem_read ?M3 (sp + 272) 4"
      "mem_read vh' (var_out2 V) 4 = mem_read ?M3 (sp + 280) 4" "mem_read vh' (var_out8 V) 10 = mem_read ?M3 (sp + 288) 10"
    using each [of 1] each [of 2] each [of 8] by (simp_all add: inout_layout inout_nth del: One_nat_def)
  have dis: "disjoint_ranges (sp + 272) 4 (sp + 280) 4" "disjoint_ranges (sp + 272) 4 (sp + 288) 9"
      "disjoint_ranges (sp + 280) 4 (sp + 288) 9" "disjoint_ranges (sp + 288) 10 (sp + 272) 4"
      "disjoint_ranges (sp + 288) 10 (sp + 280) 4"
    unfolding disjoint_shift by (rule disjoint_below disjoint_above; simp; fail)+
  show "mem_read vh' (var_inout1 V) 4 = word_image (v + 1)"
    unfolding out using dis(1,2) len by (simp add: mem_read_write_disjoint mem_read_write_same)
  show "mem_read vh' (var_out2 V) 4 = word_image (to_float (sum_of_five dadd))"
    unfolding out using dis(3) len by (simp add: mem_read_write_disjoint mem_read_write_same)
  show "mem_read vh' (var_out8 V) 10 = ?str @ [0]"
    unfolding out using dis(4,5) len in8 mem_read_write_prefix [of ?str 10 ?M2 "sp + 288"]
    by (simp add: mem_read_write_disjoint)
qed

section \<open>Setting up the arguments\<close>

definition put_args :: "nat \<Rightarrow> call_args \<Rightarrow> arg_base list \<Rightarrow> 'os astate \<Rightarrow> 'os astate" where
  "put_args ref ca as a = a\<lparr>ps := (ps a)\<lparr>wk := (wk (ps a))\<lparr>args_heap :=
     (args_heap (wk (ps a)))(ref \<mapsto> ca\<lparr>arguments := map Some as\<rparr>)\<rparr>\<rparr>\<rparr>"

definition put_bytes :: "u64 \<Rightarrow> bytes \<Rightarrow> 'os astate \<Rightarrow> 'os astate" where
  "put_bytes p bs a = a\<lparr>ps := (ps a)\<lparr>wk := (wk (ps a))\<lparr>vh_mem := mem_write (vh_mem (wk (ps a))) p bs\<rparr>\<rparr>\<rparr>"

lemma store_arg_next:
  "i = int (length as) \<Longrightarrow> i < INT_MAX \<Longrightarrow>
   store_arg (ca\<lparr>arguments := map Some as\<rparr>) i x = Inr (ca\<lparr>arguments := map Some (as @ [x])\<rparr>)"
  by (simp add: store_arg_def INT_MAX_def Let_def list_update_append)

lemma set_next:
  assumes "i = int (length as)" and "i < INT_MAX"
  shows "veo_args_set ref i x (put_args ref ca as a) = Some (Inr 0, put_args ref ca (as @ [x]) a)"
    and "veo_args_set_stack ref inout i b l (put_args ref ca as a)
      = Some (Inr 0, put_args ref ca (as @ [ArgOnStack b l (inout \<noteq> VEO_INTENT_OUT) (inout \<noteq> VEO_INTENT_IN) None]) a)"
  using store_arg_next [OF assms, of ca] assms
  by (cases inout; simp add: veo_args_set_def veo_args_set_stack_def or_code_def catchP_def on_args_def set_arg_def
      setOnStack_def put_args_def)+

lemma store_bytes_put:
  "store_bytes p bs (s\<lparr>api := put_args ref ca as a\<rparr>) = Some (Inr (), s\<lparr>api := put_args ref ca as (put_bytes p bs a)\<rparr>)"
  by (simp add: store_bytes_def on_api_def on_proc_def write_vh_def put_args_def put_bytes_def)

lemma set_doubles_next:
  assumes "i = int (length as)" and "length as + length ds < 100"
  shows "set_doubles ref i ds (s\<lparr>api := put_args ref ca as a\<rparr>)
    = Some (Inr (), s\<lparr>api := put_args ref ca (as @ map ArgDouble ds) a\<rparr>)"
  using assms
proof (induction ds arbitrary: i as)
  case (Cons d ds)
  then have "veo_args_set_double ref i d (put_args ref ca as a) = Some (Inr 0, put_args ref ca (as @ [ArgDouble d]) a)"
    by (simp add: veo_args_set_double_def set_next INT_MAX_def)
  with Cons.IH [of "i + 1" "as @ [ArgDouble d]"] Cons.prems show ?case by (simp add: on_api_def)
qed simp

text \<open>The memory of the program when the call is made.\<close>

definition inout_memory :: "stack_vars \<Rightarrow> 'os astate \<Rightarrow> 'os astate" where
  "inout_memory V a = put_bytes (var_inout1 V) (word_image (42 :: u32)) (put_bytes (var_in0 V) (ascii ''Hello, world.'' @ [0]) a)"

lemma inout_memory_sel:
  "mem_read (vh_mem (wk (ps (put_args ref ca as (inout_memory V a))))) (var_inout1 V) 4 = word_image (42 :: u32)"
  "context_ready h ctx (put_args ref ca as (inout_memory V a)) = context_ready h ctx a"
  "args_heap (wk (ps (put_args ref ca as a))) ref = Some (ca\<lparr>arguments := map Some as\<rparr>)"
  by (simp_all add: inout_memory_def put_bytes_def put_args_def context_ready_def mem_read_write_same)

lemma load_stored:
  "mem_read (vh_mem (wk (ps (api s)))) p 4 = word_image (v :: u32) \<Longrightarrow> load_u32 p s = v"
  by (simp add: load_u32_def byte_simps, rule bit_word_eqI) (simp add: bit_ucast_iff)

lemma set_inout_args:
  "set_inout V ref (s\<lparr>api := put_args ref ca [] a\<rparr>)
     = Some (Inr (), s\<lparr>api := put_args ref ca (inout_args V) (inout_memory V a),
         vh_out := vh_out s @ [(''VH: inout1 = %d'', [42])]\<rparr>)"
proof -
  let ?as = "[ArgOnStack (var_in0 V) 14 True False None, ArgOnStack (var_inout1 V) 4 True True None]"
  let ?m = "inout_memory V a"
  have print: "print_inout V (s\<lparr>api := put_args ref ca ?as ?m\<rparr>)
      = Some (Inr (), s\<lparr>api := put_args ref ca ?as ?m, vh_out := vh_out s @ [(''VH: inout1 = %d'', [42])]\<rparr>)"
    using load_stored [of "s\<lparr>api := put_args ref ca ?as ?m\<rparr>" "var_inout1 V" 42]
    by (simp add: inout_memory_sel print_inout_def printf_def)
  let ?s = "s\<lparr>vh_out := vh_out s @ [(''VH: inout1 = %d'', [42])]\<rparr>"
  have front: "veo_args_set_stack ref VEO_INTENT_IN 0 (var_in0 V) 14 (put_args ref ca [] b) = Some (Inr 0, put_args ref ca [?as ! 0] b)"
      "veo_args_set_stack ref VEO_INTENT_INOUT 1 (var_inout1 V) 4 (put_args ref ca [?as ! 0] b) = Some (Inr 0, put_args ref ca ?as b)"
      "veo_args_set_stack ref VEO_INTENT_OUT 2 (var_out2 V) 4 (put_args ref ca ?as b)
         = Some (Inr 0, put_args ref ca (?as @ [ArgOnStack (var_out2 V) 4 False True None]) b)" for b :: "'a astate"
    by (simp_all add: set_next INT_MAX_def)
  let ?bs = "?as @ ArgOnStack (var_out2 V) 4 False True None # map ArgDouble (take 5 doubles)"
  have len: "length ?bs = 8" by (simp add: doubles_def)
  have "veo_args_set_stack ref VEO_INTENT_OUT 8 (var_out8 V) 10 (put_args ref ca ?bs ?m)
         = Some (Inr 0, put_args ref ca (?bs @ [ArgOnStack (var_out8 V) 10 False True None]) ?m)"
      "veo_args_set_u32 ref 9 10 (put_args ref ca (?bs @ [ArgOnStack (var_out8 V) 10 False True None]) ?m)
         = Some (Inr 0, put_args ref ca (inout_args V) ?m)"
    using set_next(2) [of 8 ?bs ref VEO_INTENT_OUT "var_out8 V" 10 ca ?m]
      set_next(1) [of 9 "?bs @ [ArgOnStack (var_out8 V) 10 False True None]" ref "ArgU32 10" ca ?m] len
    by (simp_all add: INT_MAX_def veo_args_set_u32_def inout_args_def)
  then show ?thesis
    using front print set_doubles_next [of 3 "?as @ [ArgOnStack (var_out2 V) 4 False True None]" "take 5 doubles" ref, where s = ?s and ca = ca and a = ?m]
    unfolding set_inout_def
    by (simp add: store_bytes_put inout_memory_def doubles_def)
qed

lemma print_outputs_eq:
  assumes "mem_read (vh_mem (wk (ps (api s)))) (var_inout1 V) 4 = word_image (v :: u32)"
    and "mem_read (vh_mem (wk (ps (api s)))) (var_out2 V) 4 = word_image (f :: u32)"
    and "mem_read (vh_mem (wk (ps (api s)))) (var_out8 V) (length str + 1) = str @ [0]" and "0 \<notin> set str"
  shows "print_outputs V s = Some (Inr (), s\<lparr>vh_out := vh_out s @ [(''VH: inout1 = %d'', [scast v]),
     (''VH: out2 = %f (%#08x)'', [to_double V f, ucast f]), (''VH: out8 = %s'', map ucast str)]\<rparr>)"
proof -
  have "load_u32 (var_inout1 V) s = v" "load_u32 (var_out2 V) (s\<lparr>vh_out := X\<rparr>) = f" for X
    using assms(1,2) by (simp_all add: load_stored)
  then show ?thesis
    using c_string_stored [OF assms(4,3)] by (simp add: print_outputs_def print_inout_def printf_def)
qed


end
