(* ===== verification/Sample_Polling.thy ===== *)
theory Sample_Polling
  imports Sample_Programs
begin

text \<open>
  The sample programs \<^verbatim>\<open>src/examples/test_nonblock.c\<close> and \<^verbatim>\<open>test_nb_static.c\<close>: the result of a call is
  polled for with \<^verbatim>\<open>veo_call_peek_result\<close>, the program sleeping in between.
\<close>

section \<open>The programs\<close>

definition do_sleep :: ve_semantics where
  "do_sleep R M = (scast (ucast (R 0) :: u32), M)"

text \<open>
  While the program sleeps the pseudo thread of the context may get to run: with \<open>runs\<close> it
  executes its next command.  The end of the pseudo thread is not the end of the program.
\<close>

definition sleep_one :: "'os veos \<Rightarrow> u64 \<Rightarrow> bool \<Rightarrow> ('os sample, unit) prog" where
  "sleep_one E ctx runs s =
     (if \<not> runs then returnP () s
      else case on_api (on_context ctx (eventLoop_iter E)) s of
             None \<Rightarrow> None
           | Some (Inl e, t) \<Rightarrow> if e = ThreadExit then returnP () t else throwP e t
           | Some (Inr st, t) \<Rightarrow> returnP () t)"

text \<open>
  The loop.  \<open>turns\<close> says in which of the pauses, counted from \<open>j\<close>, the pseudo thread runs.
\<close>

partial_function (option) poll ::
  "'os veos \<Rightarrow> (nat \<Rightarrow> bool) \<Rightarrow> u64 \<Rightarrow> u64 \<Rightarrow> nat \<Rightarrow> 'os sample
     \<Rightarrow> ((int \<times> u64 option) result \<times> 'os sample) option" where
  "poll E turns ctx i j s =
     (case veo_call_peek_result ctx i (api s) of
        None \<Rightarrow> None
      | Some (Inl e, t) \<Rightarrow> Some (Inl e, s\<lparr>api := t\<rparr>)
      | Some (Inr (ret, v), t) \<Rightarrow>
          if ret \<noteq> VEO_COMMAND_UNFINISHED then Some (Inr (ret, v), s\<lparr>api := t\<rparr>)
          else Option.bind (sleep_one E ctx (turns j) (s\<lparr>api := t, vh_out := vh_out s @ [(''sleep 1...'', [])]\<rparr>))
                 (\<lambda>(r, u). case r of
                     Inl e \<Rightarrow> Some (Inl e, u)
                   | Inr _ \<Rightarrow> poll E turns ctx i (Suc j) u))"

text \<open>The part that the two programs share, from the opening of the context on.\<close>

definition poll_call :: "'os sample_env \<Rightarrow> (nat \<Rightarrow> bool) \<Rightarrow> u64 \<Rightarrow> u64 \<Rightarrow> ('os sample, int) prog" where
  "poll_call D turns func ctx =
     (let E = veos_env (penv (spawn D))
      in bindP (printf ''VEO context1 = %p'' [ctx])
           (\<lambda>_. bindP (on_api (veo_args_alloc (args_object D) (args_storage D)))
           (\<lambda>arg. bindP (on_api (veo_args_set_i64 arg 0 5))
           (\<lambda>_. bindP (on_api (veo_call_async ctx func arg))
           (\<lambda>i. bindP (printf ''VEO request ID1 = 0x%lx'' [i])
           (\<lambda>_. bindP (poll E turns ctx i 0)
           (\<lambda>_. bindP (on_api (veo_args_free arg))
           (\<lambda>_. bindP (on_api (veo_context_close E ctx))
           (\<lambda>status. bindP (printf ''close status 1 = %d'' [word_of_int status])
           (\<lambda>_. returnP 0))))))))))"

definition test_nonblock :: "'os sample_env \<Rightarrow> (nat \<Rightarrow> bool) \<Rightarrow> ('os sample, int) prog" where
  "test_nonblock D turns =
     (let P = penv (spawn D)
      in bindP (proc_create D 0)
           (\<lambda>proc. if \<not> proc then bindP (printf ''veo_proc_create() failed!'' []) (\<lambda>_. returnP 1)
              else bindP (on_api (veo_load_library P (literal D ''./libvesleep.so'')))
                (\<lambda>handle. bindP (printf ''handle = %p'' [handle])
                (\<lambda>_. bindP (on_api (veo_get_sym P handle (literal D ''do_sleep'')))
                (\<lambda>func. bindP (printf ''symbol address = %p'' [func])
                (\<lambda>_. bindP (on_api (context_open P)) (poll_call D turns func)))))))"

text \<open>The second program is linked with the VE program statically: there is no library to load.\<close>

definition test_nb_static :: "'os sample_env \<Rightarrow> (nat \<Rightarrow> bool) \<Rightarrow> ('os sample, int) prog" where
  "test_nb_static D turns =
     (let P = penv (spawn D)
      in bindP (proc_create D 0)
           (\<lambda>proc. if \<not> proc then bindP (printf ''veo_proc_create() failed!'' []) (\<lambda>_. returnP 1)
              else bindP (on_api (veo_get_sym P 0 (literal D ''do_sleep'')))
                (\<lambda>func. bindP (printf ''symbol address = %p'' [func])
                (\<lambda>_. bindP (on_api (context_open P)) (poll_call D turns func)))))"

section \<open>The call while it is polled for\<close>

definition call_pending ::
  "nat \<Rightarrow> u64 \<Rightarrow> u64 \<Rightarrow> nat \<Rightarrow> arg_base list \<Rightarrow> u64 \<Rightarrow> 'os astate \<Rightarrow> bool" where
  "call_pending h ctx func ref as i s \<longleftrightarrow>
     (\<exists>c ca. ctx_heap (wk (ps s)) ctx = Some c \<and> os_handle c = h \<and> ctx_state c = VEO_STATE_BLOCKED
        \<and> \<not> is_main_thread c
        \<and> request (comq c) = \<lparr>bq_queue = [new_Command i (CallFunction func ref)], bq_state = VEO_QUEUE_READY\<rparr>
        \<and> i \<in> rem_reqid c \<and> bq_queue (completion (comq c)) = []
        \<and> args_heap (wk (ps s)) ref = Some ca \<and> arguments ca = map Some as)"

definition call_finished :: "nat \<Rightarrow> u64 \<Rightarrow> u64 \<Rightarrow> u64 \<Rightarrow> 'os astate \<Rightarrow> bool" where
  "call_finished h ctx i v s \<longleftrightarrow>
     (\<exists>c cmd. ctx_heap (wk (ps s)) ctx = Some c \<and> os_handle c = h \<and> ctx_state c = VEO_STATE_BLOCKED
        \<and> \<not> is_main_thread c \<and> request (comq c) = \<lparr>bq_queue = [], bq_state = VEO_QUEUE_READY\<rparr>
        \<and> i \<in> rem_reqid c \<and> cmd_id cmd = i \<and> bq_queue (completion (comq c)) = [setResult cmd v VEO_COMMAND_OK])"

lemma call_submitted:
  assumes "context_ready h ctx s" and "func \<noteq> 0"
    and "args_heap (wk (ps s)) ref = Some ca" and "arguments ca = map Some as"
  shows "\<exists>i t. veo_call_async ctx func ref s = Some (Inr i, t) \<and> i \<noteq> VEO_REQUEST_ID_INVALID
     \<and> call_pending h ctx func ref as i t"
proof -
  obtain c where c: "ctx_heap (wk (ps s)) ctx = Some c" "os_handle c = h" "ctx_state c = VEO_STATE_BLOCKED"
      "\<not> is_main_thread c" "request (comq c) = \<lparr>bq_queue = [], bq_state = VEO_QUEUE_READY\<rparr>"
      "bq_queue (completion (comq c)) = []"
    using assms(1) unfolding context_ready_def by auto
  let ?x = "(wk (ps s))\<lparr>tc := c\<rparr>" and ?i = "fst (fetch_id (seq_no c))"
  let ?y = "set_pending [new_Command ?i (CallFunction func ref)] (issued ?x)"
  have "callAsync func ref ?x = Some (Inr ?i, ?y)"
    using assms(2) c(3,5) by (simp add: callAsync_def submitted_state pending_def)
  then have "veo_call_async ctx func ref s = Some (Inr ?i, s\<lparr>ps := (ps s)\<lparr>wk :=
      ?y\<lparr>tc := tc (wk (ps s)), ctx_heap := (ctx_heap ?y)(ctx \<mapsto> tc ?y)\<rparr>\<rparr>\<rparr>)"
    unfolding veo_call_async_def by (intro or_code_Some on_context_Some [OF c(1)])
  then show ?thesis
    using c assms(3,4) fetch_id_valid [of "seq_no c"]
    by (simp add: call_pending_def set_pending_def set_comq_def issued_def)
qed

lemma peek_pending:
  assumes "call_pending h ctx func ref as i s"
  shows "veo_call_peek_result ctx i s = Some (Inr (VEO_COMMAND_UNFINISHED, None), s)"
proof -
  obtain c where c: "ctx_heap (wk (ps s)) ctx = Some c" "i \<in> rem_reqid c" "bq_queue (completion (comq c)) = []"
    using assms unfolding call_pending_def by blast
  let ?x = "(wk (ps s))\<lparr>tc := c\<rparr>"
  have "callPeekResult i ?x = Some (Inr (VEO_COMMAND_UNFINISHED, None), ?x)"
    using c(2,3) by (intro callPeekResult_unfinished) (simp_all add: completed_def)
  from on_context_Some [OF c(1), of "callPeekResult i", OF this] c(1) show ?thesis
    by (simp add: veo_call_peek_result_def or_code_def catchP_def fun_upd_idem)
qed

lemma peek_finished:
  assumes "call_finished h ctx i v s"
  shows "\<exists>t. veo_call_peek_result ctx i s = Some (Inr (VEO_COMMAND_OK, Some v), t)
     \<and> context_ready h ctx t \<and> args_heap (wk (ps t)) = args_heap (wk (ps s))"
proof -
  obtain c cmd where c: "ctx_heap (wk (ps s)) ctx = Some c" "os_handle c = h" "ctx_state c = VEO_STATE_BLOCKED"
      "\<not> is_main_thread c" "request (comq c) = \<lparr>bq_queue = [], bq_state = VEO_QUEUE_READY\<rparr>"
      "i \<in> rem_reqid c" "cmd_id cmd = i" "bq_queue (completion (comq c)) = [setResult cmd v VEO_COMMAND_OK]"
    using assms unfolding call_finished_def by blast
  let ?x = "(wk (ps s))\<lparr>tc := c\<rparr>"
  let ?y = "forget i (set_completed [] ?x)"
  have "callPeekResult i ?x = Some (Inr (VEO_COMMAND_OK, Some v), ?y)"
    using callPeekResult_found [of i ?x "[]" cmd v VEO_COMMAND_OK "[]"] c(6-8) by (simp add: completed_def)
  from on_context_Some [OF c(1), of "callPeekResult i", OF this] show ?thesis
    using c by (simp add: veo_call_peek_result_def or_code_def catchP_def context_ready_def set_completed_def
        forget_def set_comq_def)
qed

lemma pending_runs:
  fixes E :: "'os veos"
  assumes "call_pending h ctx func ref as i s"
    and "ve_machine E h reg vmem" and "ve_function E h reg vmem func F"
    and "int (image_size as) \<le> INT_MAX" and "disjoint_outputs as"
    and "\<forall>a k w. \<exists>rv w'. ve_recv_data E h a k w = ((rv, mem_read (vmem w) a k), w')"
  shows "\<exists>R M sp t. on_context ctx (eventLoop_iter E) s = Some (Inr LoopContinue, t)
     \<and> call_finished h ctx i (fst (F R M)) t \<and> arguments_passed (vh_mem (wk (ps s))) func sp as R M"
proof -
  let ?cmd = "new_Command i (CallFunction func ref)"
  obtain c ca where c: "ctx_heap (wk (ps s)) ctx = Some c" "os_handle c = h" "ctx_state c = VEO_STATE_BLOCKED"
      "\<not> is_main_thread c" "request (comq c) = \<lparr>bq_queue = [?cmd], bq_state = VEO_QUEUE_READY\<rparr>"
      "i \<in> rem_reqid c" "bq_queue (completion (comq c)) = []"
    and ca: "args_heap (wk (ps s)) ref = Some ca" "arguments ca = map Some as"
    using assms(1) unfolding call_pending_def by blast
  let ?x = "(wk (ps s))\<lparr>tc := c\<rparr>"
  let ?q = "set_pending [] ?x"
  have q: "tc ?q = c\<lparr>comq := (comq c)\<lparr>request := \<lparr>bq_queue = [], bq_state = VEO_QUEUE_READY\<rparr>\<rparr>\<rparr>"
      "args_heap ?q = args_heap (wk (ps s))" "vh_mem ?q = vh_mem (wk (ps s))"
    using c(5) by (simp_all add: set_pending_def set_comq_def)
  obtain R M u where u: "run_call E func ref ?cmd ?q = Some (Inr (0, setResult ?cmd (fst (F R M)) VEO_COMMAND_OK), u)"
      "arguments_passed (vh_mem (wk (ps s))) func (ve_sp (tc ?q) - of_nat (image_size as)) as R M"
    using run_call_ve_function [of E ?q reg vmem func F ref ca as _ ?cmd, OF _ _ _ _ _ _ refl] assms(2-6) ca q c(2) by auto
  let ?w = "complete_command 0 (setResult ?cmd (fst (F R M)) VEO_COMMAND_OK) u"
  have "eventLoop_iter E ?x = Some (Inr LoopContinue, ?w)"
    using c(3,5) u(1) by (simp add: eventLoop_iter_eq pending_def state_simps)
  then have step: "on_context ctx (eventLoop_iter E) s = Some (Inr LoopContinue, s\<lparr>ps := (ps s)\<lparr>wk :=
      ?w\<lparr>tc := tc (wk (ps s)), ctx_heap := (ctx_heap ?w)(ctx \<mapsto> tc ?w)\<rparr>\<rparr>\<rparr>)" (is "_ = Some (_, ?t)")
    by (rule on_context_Some [OF c(1)])
  have same: "same_queues ?q u"
    by (rule run_command_same_queues [where f = "CallFunction func ref" and E = E]) (use u(1) in simp)
  have flag: "is_main_thread (tc u) = is_main_thread (tc ?q)"
    by (rule main_flag.run_command_returns [where f = "CallFunction func ref" and E = E]) (use u(1) in simp)
  have "ctx_state (tc u) = VEO_STATE_BLOCKED" using run_call_outcomes [OF u(1)] by simp
  then have "os_handle (tc ?w) = h" "ctx_state (tc ?w) = VEO_STATE_BLOCKED" "\<not> is_main_thread (tc ?w)"
      "request (comq (tc ?w)) = \<lparr>bq_queue = [], bq_state = VEO_QUEUE_READY\<rparr>" "i \<in> rem_reqid (tc ?w)"
      "bq_queue (completion (comq (tc ?w))) = [setResult ?cmd (fst (F R M)) VEO_COMMAND_OK]"
    using same flag q(1) c(2,4,6,7)
    by (simp_all add: same_queues_def complete_command_def set_comq_def)
  then have "call_finished h ctx i (fst (F R M)) ?t"
    unfolding call_finished_def by (intro exI [of _ "tc ?w"] exI [of _ ?cmd]) (simp add: state_simps)
  with step u(2) show ?thesis by blast
qed

text \<open>The loop ends in the first pause in which the pseudo thread runs.\<close>

lemma poll_ends:
  fixes E :: "'os veos"
  assumes "call_pending h ctx func ref as i (api s)" and "turns (j + k)" and "\<forall>m < k. \<not> turns (j + m)"
    and "ve_machine E h reg vmem" and "ve_function E h reg vmem func F"
    and "int (image_size as) \<le> INT_MAX" and "disjoint_outputs as"
    and "\<forall>a k w. \<exists>rv w'. ve_recv_data E h a k w = ((rv, mem_read (vmem w) a k), w')"
  shows "\<exists>R M sp t. poll E turns ctx i j s = Some (Inr (VEO_COMMAND_OK, Some (fst (F R M))), t)
     \<and> arguments_passed (vh_mem (wk (ps (api s)))) func sp as R M \<and> context_ready h ctx (api t)
     \<and> vh_out t = vh_out s @ replicate (Suc k) (''sleep 1...'', [])"
  using assms(1-3)
proof (induction k arbitrary: j s)
  case 0
  let ?s = "s\<lparr>vh_out := vh_out s @ [(''sleep 1...'', [])]\<rparr>"
  obtain R M sp t where t: "on_context ctx (eventLoop_iter E) (api s) = Some (Inr LoopContinue, t)"
      "call_finished h ctx i (fst (F R M)) t" "arguments_passed (vh_mem (wk (ps (api s)))) func sp as R M"
    using pending_runs [OF 0(1) assms(4-8)] by blast
  obtain u where u: "veo_call_peek_result ctx i t = Some (Inr (VEO_COMMAND_OK, Some (fst (F R M))), u)"
      "context_ready h ctx u"
    using peek_finished [OF t(2)] by blast
  have "poll E turns ctx i (Suc j) (?s\<lparr>api := t\<rparr>)
      = Some (Inr (VEO_COMMAND_OK, Some (fst (F R M))), ?s\<lparr>api := u\<rparr>)"
    using u(1) by (subst poll.simps) (simp add: command_state_defs)
  then have "poll E turns ctx i j s = Some (Inr (VEO_COMMAND_OK, Some (fst (F R M))), ?s\<lparr>api := u\<rparr>)"
    using 0(2) t(1) by (subst poll.simps) (simp add: peek_pending [OF 0(1)] sleep_one_def on_api_def)
  with t(3) u(2) show ?case by (intro exI conjI) (assumption | simp)+
next
  case (Suc k)
  let ?s = "s\<lparr>vh_out := vh_out s @ [(''sleep 1...'', [])]\<rparr>"
  have "\<not> turns j" using Suc.prems(3) by (metis add_0_right zero_less_Suc)
  then have step: "poll E turns ctx i j s = poll E turns ctx i (Suc j) ?s"
    by (subst poll.simps) (simp add: peek_pending [OF Suc.prems(1)] sleep_one_def)
  have "call_pending h ctx func ref as i (api ?s)" "turns (Suc j + k)" "\<forall>m < k. \<not> turns (Suc j + m)"
    using Suc.prems by auto
  from Suc.IH [OF this] step show ?case by (auto simp: replicate_append_same)
qed

text \<open>
  C20: polling for a result.  When the context waits for requests, the program submits its call and sleeps
  until the result is there: it ends as soon as the pseudo thread of the context has had its turn, in the
  pause number \<open>k\<close>, however long that takes, having printed its line once for each pause, and closes the
  context with status 0.
\<close>

theorem polling_ends:
  fixes D :: "'os sample_env"
  assumes "context_ready h ctx (api s)" and "func \<noteq> 0" and "turns k" and "\<forall>m < k. \<not> turns m"
    and "ve_machine (veos_env (penv (spawn D))) h reg vmem"
    and "ve_function (veos_env (penv (spawn D))) h reg vmem func do_sleep"
    and "\<forall>a k w. \<exists>rv w'. ve_recv_data (veos_env (penv (spawn D))) h a k w = ((rv, mem_read (vmem w) a k), w')"
  shows "\<exists>i t. poll_call D turns func ctx s = Some (Inr 0, t) \<and> i \<noteq> VEO_REQUEST_ID_INVALID
     \<and> ctx_heap (wk (ps (api t))) ctx = None
     \<and> vh_out t = vh_out s @ [(''VEO context1 = %p'', [ctx]), (''VEO request ID1 = 0x%lx'', [i])]
         @ replicate (Suc k) (''sleep 1...'', []) @ [(''close status 1 = %d'', [0])]"
proof -
  let ?E = "veos_env (penv (spawn D))" and ?as = "[ArgI64 5]" and ?ca = "args_object D"
  let ?s = "s\<lparr>vh_out := vh_out s @ [(''VEO context1 = %p'', [ctx])], api := with_i64 ?ca (args_storage D) 5 (api s)\<rparr>"
  have out: "disjoint_outputs ?as" "int (image_size ?as) \<le> INT_MAX"
    by (simp_all add: disjoint_outputs_def image_size_def data_size_def slot_off_def PARAM_AREA_OFFSET_def INT_MAX_def)
  have "context_ready h ctx (api ?s)" "args_heap (wk (ps (api ?s))) ?ca
      = Some ((new_CallArgs (args_storage D))\<lparr>arguments := map Some ?as\<rparr>)"
    using assms(1) by (simp_all add: with_i64_def context_ready_def)
  from call_submitted [OF this(1) assms(2) this(2), of ?as] obtain i t where
    t: "veo_call_async ctx func ?ca (api ?s) = Some (Inr i, t)" "i \<noteq> VEO_REQUEST_ID_INVALID"
      "call_pending h ctx func ?ca ?as i t" by auto
  let ?t = "?s\<lparr>api := t, vh_out := vh_out ?s @ [(''VEO request ID1 = 0x%lx'', [i])]\<rparr>"
  obtain v u where u: "poll ?E turns ctx i 0 ?t = Some (Inr (VEO_COMMAND_OK, Some v), u)"
      "context_ready h ctx (api u)" "vh_out u = vh_out ?t @ replicate (Suc k) (''sleep 1...'', [])"
    using poll_ends [of h ctx func ?ca ?as i ?t turns 0 k ?E reg vmem do_sleep, OF _ _ _ assms(5,6) out(2,1) assms(7)]
      t(3) assms(3,4) by auto
  let ?u = "(api u)\<lparr>ps := (ps (api u))\<lparr>wk := (wk (ps (api u)))\<lparr>args_heap := (args_heap (wk (ps (api u))))(?ca := None)\<rparr>\<rparr>\<rparr>"
  have "context_ready h ctx ?u" using u(2) by (simp add: context_ready_def)
  from context_close [OF this, of ?E] obtain w where w: "veo_context_close ?E ctx ?u = Some (Inr 0, w)"
      "ctx_heap (wk (ps w)) ctx = None" by blast
  have "poll_call D turns func ctx s = Some (Inr 0, u\<lparr>api := w, vh_out := vh_out u @ [(''close status 1 = %d'', [0])]\<rparr>)"
    unfolding poll_call_def Let_def
    using t(1) u(1) w(1) by (simp add: printf_def alloc_and_set veo_args_free_def)
  with t(2) u(3) w(2) show ?thesis by (intro exI [of _ i] exI conjI) (assumption | simp)+
qed

end
