(* ===== verification/Remote_Examples.thy ===== *)
theory Remote_Examples
  imports Remote_Call Process_Examples
begin

text \<open>
  A machine that runs VE functions given by their semantics, and a function, which adds its
  first two arguments and stores eight bytes where its third argument points to, called through
  the C API with an output buffer.
\<close>

section \<open>A machine with functions\<close>

text \<open>
  The functions by their addresses.  A call of any other address stops at the system call clone;
  when that is answered with the number of the new thread, both threads run to a block request.
\<close>

definition table_veos :: "(u64 \<Rightarrow> ve_semantics option) \<Rightarrow> machine veos" where
  "table_veos G = machine_veos
     \<lparr>un_block_and_retval_req := (\<lambda>h n v w.
        case G (m_reg w 12) of
          Some F \<Rightarrow> (case F ((m_reg w)(0 := v)) (m_mem w) of (r, m) \<Rightarrow>
            w\<lparr>m_mem := m, m_events := [(0, 0, 0x1000)], m_sysnum := NR_ve_sysve, m_sysargs := block_args(1 := r)\<rparr>)
        | None \<Rightarrow>
            if v = 1234
            then w\<lparr>m_events := [(0, 0, 0x1000), (0, 0, 0x1000)], m_sysnum := NR_ve_sysve, m_sysargs := block_args\<rparr>
            else w\<lparr>m_events := [(0, 0, 0x1000)], m_sysnum := 56\<rparr>),
      ve_recv_data := (\<lambda>h a n w. ((0, mem_read (m_mem w) a n), w)),
      ve__do_clone := (\<lambda>n h w. ((1234, Some 7), w))\<rparr>"

lemma table_veos_sel [simp]:
  "nr (table_veos G) = linux_nr" "EXS_MONC (table_veos G) = 0x1000" "EXS_MONT (table_veos G) = 0x2000"
  "EXS_RDBG (table_veos G) = 0x4000" "UNCORRECTABLE_ERROR (table_veos G) = 0x8000"
  "CORRECTABLE_ERROR (table_veos G) = 0x10000"
  "vedl_wait_exception (table_veos G) = vedl_wait_exception machine_veos"
  "vedl_get_syscall_num (table_veos G) = vedl_get_syscall_num machine_veos"
  "vedl_get_syscall_args (table_veos G) = vedl_get_syscall_args machine_veos"
  "block_syscall_req_ve_os (table_veos G) = block_syscall_req_ve_os machine_veos"
  "ve_set_user_reg (table_veos G) = ve_set_user_reg machine_veos"
  "ve_send_data (table_veos G) = ve_send_data machine_veos"
  "ve_recv_data (table_veos G) h a n w = ((0, mem_read (m_mem w) a n), w)"
  "ve__do_clone (table_veos G) k h w = ((1234, Some 7), w)"
  "sem_init (table_veos G) = sem_init machine_veos"
  "new_pointer (table_veos G) = new_pointer machine_veos"
  by (simp_all add: table_veos_def)

lemma table_machine: "ve_machine (table_veos G) h m_reg m_mem"
  by (simp add: ve_machine_def)

text \<open>An event of the machine that its filter takes over.\<close>

lemma table_handler:
  assumes "ctx_state (tc s) = VEO_STATE_RUNNING" and "m_events (os s) = (0, 0, 0x1000) # es"
    and "F (m_sysnum (os s)) (s\<lparr>os := (os s)\<lparr>m_events := es\<rparr>\<rparr>) = Some (Inr (True, flag), t)"
    and "flag \<noteq> 0"
  shows "exceptionHandler (table_veos G) F exc s = Some (Inr (flag, 0x1000), t)"
proof -
  have "wait_exception (table_veos G) h (os s) = Some (Inr 0x1000, (os s)\<lparr>m_events := es\<rparr>)" for h
    by (subst wait_exception.simps) (simp add: assms(2) VEO_EXCEPTION_MASK_def)
  then show ?thesis
    using assms
    by (subst exceptionHandler.simps)
      (simp add: handleSingleException_def wait_exceptionP_def handle_syscall_def is_error_exs_def)
qed

text \<open>The machine stops at its block request as soon as it is resumed.\<close>

lemma block_event:
  assumes "ctx_state (tc s) = VEO_STATE_RUNNING" and "m_events (os s) = (0, 0, 0x1000) # es"
    and "m_sysnum (os s) = NR_ve_sysve" and "m_sysargs (os s) 0 = VE_SYSVE_VEO_BLOCK"
  shows "defaultExceptionHandler (table_veos G) exc s = Some (Inr (VEO_HANDLER_STATUS_BLOCK_REQUESTED, 0x1000),
     s\<lparr>os := (os s)\<lparr>m_events := es\<rparr>, tc := (tc s)\<lparr>ctx_state := VEO_STATE_BLOCKED\<rparr>\<rparr>)"
  unfolding defaultExceptionHandler_def
  by (rule table_handler [OF assms(1,2)])
    (use assms(3,4) in \<open>simp_all add: defaultFilter_eq default_filtered_syscalls_def is_veo_block_def
       handler_status_defs NR_ve_sysve_def\<close>)

lemma table_function:
  assumes "G addr = Some F"
  shows "ve_function (table_veos G) h m_reg m_mem addr F"
  unfolding ve_function_def
proof (intro allI impI)
  fix w :: machine and sr0 and s :: "machine tstate"
  let ?r = "F ((m_reg w)(0 := sr0)) (m_mem w)"
  assume run: "ctx_state (tc s) = VEO_STATE_RUNNING" and "m_reg w 12 = addr"
    and "os s = un_block_and_retval_req (table_veos G) h NR_ve_sysve sr0 w"
  from this(2,3) assms have s: "os s = w\<lparr>m_mem := snd ?r, m_events := [(0, 0, 0x1000)], m_sysnum := NR_ve_sysve,
      m_sysargs := block_args(1 := fst ?r)\<rparr>"
    by (simp add: table_veos_def case_prod_unfold)
  show "\<exists>exs u. defaultExceptionHandler (table_veos G) 0 s = Some (Inr (VEO_HANDLER_STATUS_BLOCK_REQUESTED, exs), u)
      \<and> m_mem (os u) = snd ?r \<and> vedl_get_syscall_args (table_veos G) h (os u) 0 = VE_SYSVE_VEO_BLOCK
      \<and> vedl_get_syscall_args (table_veos G) h (os u) 1 = fst ?r"
    using block_event [OF run, where es = "[]"] by (simp add: s block_args_def)
qed

section \<open>A call with an output buffer\<close>

definition adder :: ve_semantics where
  "adder R M = (R 0 + R 1, mem_write M (R 2) [1, 2, 3, 4, 5, 6, 7, 8])"

abbreviation adder_veos :: "machine veos" where
  "adder_veos \<equiv> table_veos (\<lambda>_. Some adder)"

lemmas adder_machine = table_machine [where G = "\<lambda>_. Some adder"]

lemma adder_function: "ve_function adder_veos h m_reg m_mem addr adder"
  by (rule table_function) simp

definition adder_args :: "arg_base list" where
  "adder_args = [ArgI64 20, ArgI64 22, ArgOnStack 0x4000 8 False True None]"

lemma adder_args_layout:
  "image_size adder_args = 208" "data_off adder_args 2 = 200"
  by (simp_all add: adder_args_def image_size_defs data_off_def)


end
