(* ===== verification/Sample_Examples.thy ===== *)
theory Sample_Examples
  imports Sample_Fortran Sample_Polling Remote_Examples Creation_Examples
begin

text \<open>
  The operations on libraries and symbols, a batch of calls, and the sample programs, on a
  machine that runs the functions of veorun and of the sample libraries.
\<close>

section \<open>The machine\<close>

definition veorun_table :: "ve_semantics \<Rightarrow> u64 \<Rightarrow> ve_semantics option" where
  "veorun_table F = [0x1100 \<mapsto> (\<lambda>R M. (7, M)), 0x1400 \<mapsto> (\<lambda>R M. (0x600000, M)), 0x600000 \<mapsto> F]"

definition sample_literals :: memory where
  "sample_literals = mem_write (mem_write (\<lambda>_. 0) 0x4000 (ascii ''./libvehello.so'' @ [0])) 0x4100 (ascii ''hello'' @ [0])"

definition sample_proc_env :: "ve_semantics \<Rightarrow> machine proc_env" where
  "sample_proc_env F = ex_proc_env\<lparr>veos_env := table_veos (veorun_table F)\<rparr>"

definition sample_state :: "machine tstate" where
  "sample_state = (ex_events [])\<lparr>vh_mem := sample_literals\<rparr>"

lemma sample_sel [simp]:
  "veos_env (sample_proc_env F) = table_veos (veorun_table F)" "tid_counter (sample_proc_env F) w = 1"
  "tc sample_state = idle_ctx" "vh_mem sample_state = sample_literals"
  "load_library ex_funcs = 0x1100"
  by (simp_all add: sample_proc_env_def sample_state_def ex_proc_env_def ex_funcs_def)

lemma sample_strings:
  "c_string sample_literals 0x4000 = Some (ascii ''./libvehello.so'')"
  "c_string sample_literals 0x4100 = Some (ascii ''hello'')"
proof -
  have len: "length (ascii ''./libvehello.so'') = 15" "length (ascii ''hello'') = 5" by (simp_all add: ascii_def)
  have "mem_read sample_literals 0x4000 16 = ascii ''./libvehello.so'' @ [0]"
    unfolding sample_literals_def
    by (subst mem_read_write_disjoint, rule disjoint_below) (simp_all add: len mem_read_write_same)
  then show "c_string sample_literals 0x4000 = Some (ascii ''./libvehello.so'')"
    using len by (intro c_string_stored) (simp_all, simp add: ascii_def)
  show "c_string sample_literals 0x4100 = Some (ascii ''hello'')"
    by (intro c_string_stored) (simp_all add: ascii_def sample_literals_def mem_simps)
qed

lemma veorun_table_sel [simp]:
  "veorun_table F 0x1100 = Some (\<lambda>R M. (7, M))" "veorun_table F 0x1400 = Some (\<lambda>R M. (0x600000, M))"
  "veorun_table F 0x600000 = Some F" "veorun_table F 0x1500 = None"
  by (simp_all add: veorun_table_def)

lemma table_worker_runs:
  assumes "G func = Some F" and "ready s" and "completed s = []" and "func \<noteq> 0"
  shows "worker_runs (table_veos G) m_reg m_mem func F s"
  using assms by (simp add: worker_runs_def table_machine table_function)

lemma ex_ready: "tc t = idle_ctx \<Longrightarrow> ready t \<and> completed t = []"
  using ex_idle(1) [of t] by (simp add: idle_def completed_def new_CommQueue_def new_BlockingQueue_def)

theorem symbol_of_loaded_library_witness:
  "\<exists>t u. loadLibrary (sample_proc_env hello) 0x4000 (ex_proc sample_state) = Some (Inr 7, t)
     \<and> getSym (sample_proc_env hello) 7 0x4100 t = Some (Inr 0x600000, u)"
  using symbol_of_loaded_library [of "sample_proc_env hello" m_reg m_mem "ex_proc sample_state" "\<lambda>R M. (7, M)"
      "\<lambda>R M. (0x600000, M)" "0x4000" "ascii ''./libvehello.so''" "0x4100" "ascii ''hello''"]
  by (auto simp: table_worker_runs ex_ready sample_strings VEO_SYMNAME_LEN_MAX_def ascii_def)

definition batch_args :: call_args where
  "batch_args = raw_args\<lparr>arguments := [Some (ArgI64 7)]\<rparr>"

theorem batch_of_calls_witness:
  "\<exists>ids s1 rs t. submit_calls 3 0x5000 0x600000 0
       (ex_api ((ex_events [])\<lparr>args_heap := [0 \<mapsto> batch_args], ctx_heap := [0x5000 \<mapsto> idle_ctx]\<rparr>)) = Some (Inr ids, s1)
     \<and> distinct ids
     \<and> wait_calls (table_veos (veorun_table simplefunc)) 0x5000 ids s1 = Some (Inr rs, t)
     \<and> length rs = 3 \<and> (\<forall>r \<in> set rs. r = (VEO_COMMAND_OK, Some 7))"
proof -
  let ?t = "(ex_events [])\<lparr>args_heap := [0 \<mapsto> batch_args], ctx_heap := [0x5000 \<mapsto> idle_ctx]\<rparr>"
  let ?E = "table_veos (veorun_table simplefunc)"
  have "ready ((wk (ps (ex_api ?t)))\<lparr>tc := idle_ctx\<rparr>)" by (simp add: ex_ready)
  moreover have "bq_queue (completion (comq idle_ctx)) = []"
    using ex_ready [of "?t\<lparr>tc := idle_ctx\<rparr>"] by (simp add: completed_def)
  moreover have "ve_function ?E h m_reg m_mem 0x600000 simplefunc" for h by (rule table_function) simp
  moreover have "arguments batch_args = map Some [ArgI64 7]" "int (image_size [ArgI64 7]) \<le> INT_MAX"
    by (simp_all add: batch_args_def image_size_def data_size_def slot_off_def PARAM_AREA_OFFSET_def INT_MAX_def)
  ultimately have "\<exists>ids s1 rs t. submit_calls 3 0x5000 0x600000 0 (ex_api ?t) = Some (Inr ids, s1) \<and> length ids = 3
     \<and> distinct ids \<and> VEO_REQUEST_ID_INVALID \<notin> set ids
     \<and> wait_calls ?E 0x5000 ids s1 = Some (Inr rs, t) \<and> length rs = 3
     \<and> (\<forall>r \<in> set rs. \<exists>R M. r = (VEO_COMMAND_OK, Some (fst (simplefunc R M))) \<and> values_passed 0x600000 [ArgI64 7] R)"
    by (intro batch_of_calls [where c = idle_ctx and ca = batch_args and reg = m_reg and vmem = m_mem] table_machine)
      simp_all
  then show ?thesis by (fastforce simp: simplefunc_def values_passed_def)
qed

section \<open>A context on the machine\<close>

lemma table_unblock:
  assumes "G (m_reg w 12) = None"
  shows "un_block_and_retval_req (table_veos G) h k v w =
     (if v = 1234
      then w\<lparr>m_events := [(0, 0, 0x1000), (0, 0, 0x1000)], m_sysnum := NR_ve_sysve, m_sysargs := block_args\<rparr>
      else w\<lparr>m_events := [(0, 0, 0x1000)], m_sysnum := 56\<rparr>)"
  using assms by (simp add: table_veos_def)

lemma table_doCall_clone:
  assumes "args_heap s ref = Some ca" and "arguments ca = [Some (ArgI32 (- 1))]" and "G addr = None"
  shows "\<exists>t. doCall (table_veos G) addr ref s = Some (Inr (), t) \<and> ctx_state (tc t) = VEO_STATE_RUNNING
     \<and> os_handle (tc t) = os_handle (tc s) \<and> m_events (os t) = [(0, 0, 0x1000)] \<and> m_sysnum (os t) = 56
     \<and> m_reg (os t) 12 = addr \<and> ctx_heap t = ctx_heap s \<and> vh_mem t = vh_mem s"
proof -
  let ?as = "[ArgI32 (- 1)]"
  have as: "arguments ca = map Some ?as" "int (image_size ?as) \<le> INT_MAX"
    using assms(2) by (simp_all add: image_size_defs)
  show ?thesis
    using doCall_eq [OF assms(1) as, of "table_veos G" addr] assms(3)
    by (simp add: table_unblock copyin_def set_up_def SR12_def SR11_def)
qed
text \<open>The worker opens a context: it is left with the new thread at its first block request.\<close>

abbreviation new_thread :: "nat \<Rightarrow> ctx" where
  "new_thread h \<equiv> thread_started 7 (new_ThreadContext h False 0)"

lemma table_run_open:
  assumes "args_heap s ref = Some ca" and "arguments ca = [Some (ArgI32 (- 1))]" and "G addr = None"
  shows "\<exists>t. run_open (table_veos G) addr ref c s = Some (Inr (0, setResult c 0x5000 VEO_COMMAND_OK), t)
     \<and> ctx_heap t = (ctx_heap s)(0x5000 \<mapsto> new_thread (os_handle (tc s)))
     \<and> m_events (os t) = [(0, 0, 0x1000)] \<and> m_sysnum (os t) = NR_ve_sysve \<and> m_sysargs (os t) = block_args"
proof -
  obtain s1 where s1: "doCall (table_veos G) addr ref s = Some (Inr (), s1)" "ctx_state (tc s1) = VEO_STATE_RUNNING"
      "os_handle (tc s1) = os_handle (tc s)" "m_events (os s1) = [(0, 0, 0x1000)]" "m_sysnum (os s1) = 56"
      "m_reg (os s1) 12 = addr" "ctx_heap s1 = ctx_heap s"
    using table_doCall_clone [of s ref ca G addr] assms by auto
  let ?s2 = "s1\<lparr>os := (os s1)\<lparr>m_events := []\<rparr>\<rparr>"
  have s2: "exceptionHandler (table_veos G) (hookCloneFilter (table_veos G)) 0 s1 = Some (Inr (56, 0x1000), ?s2)"
    by (rule table_handler [where es = "[]"]) (use s1 in \<open>simp_all add: hookCloneFilter_def\<close>)
  let ?s3 = "?s2\<lparr>os := (os ?s2)\<lparr>m_events := [(0, 0, 0x1000), (0, 0, 0x1000)], m_sysnum := NR_ve_sysve, m_sysargs := block_args\<rparr>,
      tc := (tc ?s2)\<lparr>ctx_state := VEO_STATE_RUNNING\<rparr>\<rparr>"
  have s3: "unBlock (table_veos G) 1234 ?s2 = Some (Inr (), ?s3)"
    using s1(6) assms(3) by (simp add: unBlock_def os_do_def set_state_def table_unblock)
  let ?s4 = "?s3\<lparr>os := (os ?s3)\<lparr>m_events := [(0, 0, 0x1000)]\<rparr>, tc := (tc ?s3)\<lparr>ctx_state := VEO_STATE_BLOCKED\<rparr>\<rparr>"
  have s4: "defaultExceptionHandler (table_veos G) 0x1000 ?s3
      = Some (Inr (VEO_HANDLER_STATUS_BLOCK_REQUESTED, 0x1000), ?s4)"
    by (rule block_event) (simp_all add: block_args_def)
  have clone: "handleCloneRequestP (table_veos G) d ?s2 = Some (Inr (1234, thread_started 7 d), ?s2)" for d
    by (simp add: handleCloneRequestP_def handleCloneRequest_def)
  have "run_open (table_veos G) addr ref c s = Some (Inr (0, setResult c 0x5000 VEO_COMMAND_OK),
      ?s4\<lparr>ctx_heap := (ctx_heap s)(0x5000 \<mapsto> new_thread (os_handle (tc s)))\<rparr>)"
    using s1 s2 s3 s4 clone
    by (simp add: run_open_def os_call_def is_clone_request_def Let_def)
  then show ?thesis by simp
qed

lemma table_openContext:
  assumes "ready (wk s)" and "completed (wk s) = []" and "funcs (ph s) = ex_funcs"
  shows "\<exists>t. openContext (sample_proc_env F) s = Some (Inr 0x5000, t)
     \<and> ctx_heap (wk t) 0x5000 = Some (new_thread (os_handle (tc (wk s))))
     \<and> m_events (os (wk t)) = [(0, 0, 0x1000)] \<and> m_sysnum (os (wk t)) = NR_ve_sysve
     \<and> m_sysargs (os (wk t)) = block_args"
proof -
  let ?E = "table_veos (veorun_table F)" and ?f = "OpenContext 0x1500 (local_ref s)"
  let ?ca = "(new_CallArgs (raw_object s))\<lparr>arguments := [Some (ArgI32 (- 1))]\<rparr>"
  let ?s = "wk (enter_args ?ca s)"
  let ?c = "new_Command (next_id ?s) ?f"
  have id: "idle ?s" "completed ?s = []"
    using assms(1,2) by (simp_all add: idle_def ready_def completed_def pending_def)
  have args: "args_heap (requested ?s) (local_ref s) = Some ?ca" by simp
  obtain u where u: "run_command ?E ?f ?c (requested ?s) = Some (Inr (0, setResult ?c 0x5000 VEO_COMMAND_OK), u)"
      "ctx_heap u 0x5000 = Some (new_thread (os_handle (tc (wk s))))"
      "m_events (os u) = [(0, 0, 0x1000)]" "m_sysnum (os u) = NR_ve_sysve" "m_sysargs (os u) = block_args"
    using table_run_open [OF args, of "veorun_table F" "0x1500" ?c]
    by (auto simp: requested_def forget_def issued_def)
  let ?w = "set_completed [] (complete_command 0 (setResult ?c 0x5000 VEO_COMMAND_OK) u)"
  have "callOpenContext 0x1500 (local_ref s) ?s = submit ?f ?s"
    using idleD(1) [OF id(1)] by (simp add: callOpenContext_def)
  then have "bindP (callOpenContext 0x1500 (local_ref s)) (\<lambda>i. bindP (callWaitResult ?E i) request_value) ?s
      = Some (Inr 0x5000, ?w)"
    using submit_and_wait [OF id(1) u(1), of request_value] id(2)
    by (simp add: bindP_def [of "callOpenContext _ _"] bindP_def [of "submit _"]) (simp add: request_value_def)
  then have "openContext (sample_proc_env F) s = Some (Inr 0x5000, leave_args s ((enter_args ?ca s)\<lparr>wk := ?w\<rparr>))"
    using assms(3)
    by (simp add: openContext_def choose_cpu_def set_arg_def store_arg_def new_CallArgs_def INT_MAX_def
        with_args_eq on_worker_def)
  with u show ?thesis
    by (simp add: leave_args_def set_completed_def complete_command_def set_comq_def Let_def)
qed

text \<open>The thread of the new context runs to its first block request and waits for requests.\<close>

lemma table_context_starts:
  assumes "ctx_heap (wk (ps a)) ctx = Some (new_thread h)" and "m_events (os (wk (ps a))) = [(0, 0, 0x1000)]"
    and "m_sysnum (os (wk (ps a))) = NR_ve_sysve" and "m_sysargs (os (wk (ps a))) = block_args"
  shows "\<exists>b. context_starts (table_veos G) ctx a = Some (Inr (), b)
     \<and> ctx_heap (wk (ps b)) ctx = Some ((new_thread h)\<lparr>ctx_state := VEO_STATE_BLOCKED, ve_sp := 0x10000\<rparr>)"
proof -
  let ?x = "(wk (ps a))\<lparr>tc := new_thread h\<rparr>"
  let ?y = "?x\<lparr>os := (os ?x)\<lparr>m_events := []\<rparr>, tc := (tc ?x)\<lparr>ctx_state := VEO_STATE_BLOCKED\<rparr>\<rparr>"
  let ?z = "?y\<lparr>tc := (tc ?y)\<lparr>ve_sp := 0x10000\<rparr>\<rparr>"
  have "defaultExceptionHandler (table_veos G) 0 ?x = Some (Inr (VEO_HANDLER_STATUS_BLOCK_REQUESTED, 0x1000), ?y)"
    by (rule block_event) (use assms(2-4) in \<open>simp_all add: thread_started_def block_args_def\<close>)
  moreover have "collectReturnValue (table_veos G) ?y = Some (Inr 42, ?z)"
    using assms(4) by (simp add: collectReturnValue_def block_args_def)
  moreover have "eventLoop (table_veos G) ?z = Some (Inr LoopWaiting, ?z)"
    by (subst eventLoop_process [where cs = "[]"])
      (simp_all add: pending_def thread_started_def new_ThreadContext_def new_CommQueue_def new_BlockingQueue_def)
  ultimately have "startEventLoop (table_veos G) 7 ?x = Some (Inr LoopWaiting, ?z)"
    by (simp add: startEventLoop_def thread_started_def)
  then show ?thesis
    using assms(1) on_context_Some [OF assms(1), of "startEventLoop (table_veos G) 7"]
    by (auto simp: context_starts_def thread_started_def)
qed

lemma table_context_open:
  assumes "ready (wk (ps a))" and "completed (wk (ps a)) = []" and "funcs (ph (ps a)) = ex_funcs"
  shows "\<exists>b c. context_open (sample_proc_env F) a = Some (Inr 0x5000, b)
     \<and> ctx_heap (wk (ps b)) 0x5000 = Some c \<and> idle ((wk (ps b))\<lparr>tc := c\<rparr>)"
proof -
  obtain t where t: "openContext (sample_proc_env F) (ps a) = Some (Inr 0x5000, t)"
      "ctx_heap (wk t) 0x5000 = Some (new_thread (os_handle (tc (wk (ps a)))))"
      "m_events (os (wk t)) = [(0, 0, 0x1000)]" "m_sysnum (os (wk t)) = NR_ve_sysve"
      "m_sysargs (os (wk t)) = block_args"
    using table_openContext [OF assms, of F] by blast
  have "veo_context_open (sample_proc_env F) a = Some (Inr 0x5000, a\<lparr>ps := t\<rparr>)"
    using t(1) by (simp add: veo_context_open_def or_errno_def catchP_def on_proc_def context_handle_def bindP_def Let_def)
  moreover obtain b where "context_starts (table_veos (veorun_table F)) 0x5000 (a\<lparr>ps := t\<rparr>) = Some (Inr (), b)"
      "ctx_heap (wk (ps b)) 0x5000 = Some ((new_thread (os_handle (tc (wk (ps a)))))\<lparr>ctx_state := VEO_STATE_BLOCKED,
         ve_sp := 0x10000\<rparr>)"
    using table_context_starts [of "a\<lparr>ps := t\<rparr>" "0x5000" _ "veorun_table F"] t(2-5) by auto
  ultimately show ?thesis
    by (simp add: context_open_def idle_def ready_def pending_def completed_def thread_started_def
        new_ThreadContext_def new_CommQueue_def new_BlockingQueue_def)
qed

section \<open>The sample programs\<close>

definition ex_sample :: "ve_semantics \<Rightarrow> machine sample_env" where
  "ex_sample F = \<lparr>spawn = ex_spawn_env\<lparr>penv := sample_proc_env F\<rparr>, ve_device = (\<lambda>n. ''/dev/veslot'' @ print_int n),
     veos_socket_path = (\<lambda>n. ''/run/veos'' @ print_int n), veos_socket_room = 64, env_venodelist = None,
     env_venodenum = None, default_veorun = ''veorun'', env_veorun = None,
     literal = (\<lambda>str. if str = ''hello'' then 0x4100 else 0x4000), args_object = 1, args_storage = raw_args,
     pid_value = 100, main_tid = 100, child_tid = 101, proc_address = 0x3000\<rparr>"

lemma ex_sample_sel [simp]:
  "penv (spawn (ex_sample F)) = sample_proc_env F" "literal (ex_sample F) ''./libvehello.so'' = 0x4000"
  "literal (ex_sample F) ''hello'' = 0x4100"
  by (simp_all add: ex_sample_def)

lemma ex_load:
  "\<exists>a. veo_load_library (sample_proc_env F) 0x4000 (ex_api sample_state) = Some (Inr 7, a)
     \<and> worker_kept (ex_proc sample_state) (ps a) \<and> ph (ps a) = ph (ex_proc sample_state)"
proof -
  have "worker_runs (veos_env (sample_proc_env F)) m_reg m_mem (load_library (funcs (ph (ex_proc sample_state))))
      (\<lambda>R M. (7, M)) (wk (ex_proc sample_state))"
    by (simp add: table_worker_runs ex_ready)
  from loadLibrary_call [OF this, of "0x4000"] sample_strings(1)
  obtain t where "loadLibrary (sample_proc_env F) 0x4000 (ex_proc sample_state) = Some (Inr 7, t)"
      "worker_kept (ex_proc sample_state) t" "ph t = ph (ex_proc sample_state)"
    by (auto simp: VEO_SYMNAME_LEN_MAX_def ascii_def)
  then show ?thesis by (simp add: veo_load_library_def or_errno_def catchP_def on_proc_def)
qed

lemma ex_find:
  assumes "worker_kept (ex_proc sample_state) (ps a)" and "ph (ps a) = ph (ex_proc sample_state)"
  shows "\<exists>b. veo_get_sym (sample_proc_env F) 7 0x4100 a = Some (Inr 0x600000, b)
     \<and> worker_kept (ex_proc sample_state) (ps b)"
proof -
  have "worker_runs (veos_env (sample_proc_env F)) m_reg m_mem (find_sym (funcs (ph (ps a))))
      (\<lambda>R M. (0x600000, M)) (wk (ps a))"
    using assms by (simp add: table_worker_runs worker_kept_def)
  from getSym_call [OF this, of "0x4100" "ascii ''hello''" 7] sample_strings(2) assms
  obtain t where "getSym (sample_proc_env F) 7 0x4100 (ps a) = Some (Inr 0x600000, t)" "worker_kept (ps a) t"
    by (auto simp: VEO_SYMNAME_LEN_MAX_def ascii_def worker_kept_def)
  with assms(1) show ?thesis
    by (simp add: veo_get_sym_def or_errno_def catchP_def on_proc_def worker_kept_def)
qed

theorem child_test_passes_witness:
  "\<exists>i t. child_body (ex_sample hello) ''./libvehello.so'' \<lparr>boot = ex_create 0, api = ex_api sample_state, vh_out = []\<rparr>
       = Some (Inr Finished, t)
     \<and> vh_out t = [(''handle = %p'', [7]), (''symbol address = %p'', [0x600000]), (''VEO context = %p'', [0x5000]),
          (''VEO request ID = 0x%lx'', [i]), (''0x%lx: %d, %lu'', [i, 0, 43])]"
proof -
  let ?P = "sample_proc_env hello"
  obtain a1 where a1: "veo_load_library ?P 0x4000 (ex_api sample_state) = Some (Inr 7, a1)"
      "worker_kept (ex_proc sample_state) (ps a1)" "ph (ps a1) = ph (ex_proc sample_state)"
    using ex_load by blast
  obtain a2 where a2: "veo_get_sym ?P 7 0x4100 a1 = Some (Inr 0x600000, a2)" "worker_kept (ex_proc sample_state) (ps a2)"
    using ex_find [OF a1(2,3)] by blast
  obtain a3 c where a3: "context_open ?P a2 = Some (Inr 0x5000, a3)" "ctx_heap (wk (ps a3)) 0x5000 = Some c"
      "idle ((wk (ps a3))\<lparr>tc := c\<rparr>)"
    using table_context_open [of a2 hello] a2(2) by (auto simp: worker_kept_def)
  have "ve_function (table_veos (veorun_table hello)) h m_reg m_mem 0x600000 hello" for h
    by (rule table_function) simp
  with child_test_passes [of "ex_sample hello" "''./libvehello.so''"
      "\<lparr>boot = ex_create 0, api = ex_api sample_state, vh_out = []\<rparr>" 7 a1 "0x600000" a2 "0x5000" a3 c hello m_reg m_mem]
    a1(1) a2(1) a3 table_machine
  show ?thesis by auto
qed

section \<open>Fortran functions\<close>

definition fortran_memory :: memory where
  "fortran_memory = mem_write (mem_write (\<lambda>_. 0) 0x4000 (ascii ''sub1_'' @ [0])) 0x4100 (ascii ''func1_'' @ [0])"

definition ex_find_sym :: ve_semantics where
  "ex_find_sym R M = (if mem_read M (R 1) 6 = ascii ''sub1_'' @ [0] then 0x600000 else 0x700000, M)"

definition fortran_table :: "u64 \<Rightarrow> ve_semantics option" where
  "fortran_table = [0x1400 \<mapsto> ex_find_sym, 0x600000 \<mapsto> sub1 (\<lambda>R M. 5), 0x700000 \<mapsto> func1]"

definition ex_fortran :: "machine sample_env" where
  "ex_fortran = (ex_sample hello)\<lparr>spawn := ex_spawn_env\<lparr>penv := ex_proc_env\<lparr>veos_env := table_veos fortran_table\<rparr>\<rparr>,
     literal := (\<lambda>str. if str = ''sub1_'' then 0x4000 else 0x4100)\<rparr>"

definition ex_fortran_state :: "machine astate" where
  "ex_fortran_state = ex_api ((ex_events [])\<lparr>vh_mem := fortran_memory, ctx_heap := [0x5000 \<mapsto> idle_ctx]\<rparr>)"

lemma ex_fortran_sel [simp]:
  "veos_env (penv (spawn ex_fortran)) = table_veos fortran_table"
  "literal ex_fortran ''sub1_'' = 0x4000" "literal ex_fortran ''func1_'' = 0x4100"
  by (simp_all add: ex_fortran_def)

lemma ex_fortran_library:
  "fortran_library ex_fortran 0x4200 0x4300 7 ex_find_sym 0x600000 0x700000 ex_fortran_state"
proof -
  have "mem_read fortran_memory 0x4000 6 = ascii ''sub1_'' @ [0]"
    unfolding fortran_memory_def
    by (subst mem_read_write_disjoint, rule disjoint_below) (simp_all add: ascii_names mem_read_write_same)
  moreover have "mem_read fortran_memory 0x4100 7 = ascii ''func1_'' @ [0]"
    by (simp add: fortran_memory_def ascii_names mem_read_write_same)
  moreover have "mem_read M p 6 \<noteq> ascii ''sub1_'' @ [0]" if "mem_read M p 7 = ascii ''func1_'' @ [0]" for M p
  proof -
    have "mem_read M p 6 = ascii ''func1_''" using take_mem_read [of 6 7 M p] that by (simp add: ascii_names)
    then show ?thesis by (simp add: ascii_def)
  qed
  moreover have "disjoint_ranges 0x4000 6 0x4200 8" "disjoint_ranges 0x4100 7 0x4200 8" "disjoint_ranges 0x4100 7 0x4300 8"
    by (rule disjoint_below; simp)+
  ultimately show ?thesis
    by (simp add: fortran_library_def ex_fortran_state_def ex_find_sym_def)
qed


section \<open>Polling\<close>

definition ex_poll :: "machine sample_env" where
  "ex_poll = (ex_sample hello)\<lparr>spawn := ex_spawn_env\<lparr>penv := ex_proc_env\<lparr>veos_env := table_veos [0x600000 \<mapsto> do_sleep]\<rparr>\<rparr>\<rparr>"

lemma ex_poll_sel [simp]: "veos_env (penv (spawn ex_poll)) = table_veos [0x600000 \<mapsto> do_sleep]"
  by (simp add: ex_poll_def)

theorem polling_ends_witness:
  "\<exists>i t. poll_call ex_poll (\<lambda>m. m = 2) 0x600000 0x5000 \<lparr>boot = ex_create 0, api = ex_fortran_state, vh_out = []\<rparr>
       = Some (Inr 0, t) \<and> i \<noteq> VEO_REQUEST_ID_INVALID
     \<and> ctx_heap (wk (ps (api t))) 0x5000 = None
     \<and> vh_out t = [(''VEO context1 = %p'', [0x5000]), (''VEO request ID1 = 0x%lx'', [i])]
         @ replicate 3 (''sleep 1...'', []) @ [(''close status 1 = %d'', [0])]"
proof -
  let ?s = "\<lparr>boot = ex_create 0, api = ex_fortran_state, vh_out = []\<rparr>" and ?E = "table_veos [0x600000 \<mapsto> do_sleep]"
  have "context_ready 3 0x5000 (api ?s)"
    by (simp add: context_ready_def ex_fortran_state_def idle_ctx_def new_ThreadContext_def new_CommQueue_def
        new_BlockingQueue_def)
  moreover have "ve_function ?E 3 m_reg m_mem 0x600000 do_sleep"
    by (rule table_function) simp
  moreover have "\<forall>a k w. \<exists>rv w'. ve_recv_data ?E 3 a k w = ((rv, mem_read (m_mem w) a k), w')"
    by simp
  ultimately show ?thesis
    using polling_ends [of 3 "0x5000" ?s "0x600000" "\<lambda>m. m = 2" 2 ex_poll m_reg m_mem] table_machine
    by (simp add: numeral_3_eq_3)
qed

end
