(* ===== verification/Memory_Examples.thy ===== *)
theory Memory_Examples
  imports Sample_Hello Sample_Stack Sample_Examples
begin

text \<open>
  Memory transfers on the machine with functions, mixed with calls: the properties of
  \<open>Memory_Requests\<close>, \<open>Process_Memory\<close>, \<open>Sample_Memory\<close>, \<open>Sample_Hello\<close> and \<open>Sample_Stack\<close> applied to concrete states.
\<close>

section \<open>Transfers and calls\<close>

lemma table_functions: "ve_functions (table_veos G) h m_reg m_mem G"
  by (simp add: ve_functions_def table_machine table_function ve_memory_def)

definition ex_memory_state :: "machine astate" where
  "ex_memory_state = ex_api ((ex_events [])\<lparr>vh_mem := mem_write (\<lambda>_. 0) 0x4000 (word_image (43 :: u64)),
     args_heap := [0 \<mapsto> raw_args], ctx_heap := [0x5000 \<mapsto> idle_ctx]\<rparr>)"

lemma ex_memory_ready: "context_ready 3 0x5000 ex_memory_state"
  by (simp add: context_ready_def ex_memory_state_def idle_ctx_def new_ThreadContext_def new_CommQueue_def
      new_BlockingQueue_def)

lemma ex_memory_args: "args_heap (wk (ps ex_memory_state)) 0 = Some raw_args" "arguments raw_args = []"
  using raw_args_facts by (simp_all add: ex_memory_state_def)


definition ex_async :: "machine sample_env" where
  "ex_async = (ex_sample hello)\<lparr>spawn := ex_spawn_env\<lparr>penv := ex_proc_env\<lparr>veos_env :=
     table_veos [0x600000 \<mapsto> buffer_function 0x9000 (\<lambda>_. 1)]\<rparr>\<rparr>\<rparr>"

theorem async_memory_test_passes_witness:
  "\<exists>req i req' j t. async_transfers ex_async 0x4000 0x9000 0x600000 0x5000 0
       \<lparr>boot = ex_create 0, api = ex_memory_state, vh_out = []\<rparr> = Some (Inr 0, t)
     \<and> vh_out t = [(''veo_async_read_mem() returned %ld'', [req]),
          (''%016lx'', [le_word (mem_read (m_mem (os (wk (ps ex_memory_state)))) 0x9000 8)]),
          (''veo_call_async() returned %ld'', [i]), (''0x%lx: %d, %lu'', [i, 0, 1]),
          (''veo_async_write_mem() returned %ld'', [req']), (''veo_call_async() returned %ld'', [j]),
          (''0x%lx: %d, %lu'', [j, 0, 1]), (''0x%lx: %d, %lu'', [req', 0, 0]), (''close status = %d'', [0])]"
  using async_memory_test_passes [of 3 "0x5000" "\<lparr>boot = ex_create 0, api = ex_memory_state, vh_out = []\<rparr>"
      "0x600000" 0 raw_args ex_async m_reg m_mem "0x9000" "\<lambda>_. 1" "0x4000"]
    ex_memory_ready ex_memory_args table_functions
  by (auto simp: ex_async_def)

section \<open>Transfers through the process handle\<close>

lemma table_worker_transfers:
  "tc s = idle_ctx \<Longrightarrow> worker_transfers (table_veos G) m_reg m_mem s"
  using table_functions [of G] ex_ready [of s] by (simp add: worker_transfers_def ve_functions_def)

theorem process_memory_roundtrip_witness:
  "\<exists>s1 t. veo_write_mem (ex_proc_env\<lparr>veos_env := table_veos Map.empty\<rparr>) 0x9000 0x4000 8 ex_memory_state = Some (Inr 0, s1)
     \<and> veo_read_mem (ex_proc_env\<lparr>veos_env := table_veos Map.empty\<rparr>) 0x4100 0x9000 8 s1 = Some (Inr 0, t)
     \<and> mem_read (vh_mem (wk (ps t))) 0x4100 8 = word_image (43 :: u64)"
proof -
  have "worker_transfers (table_veos Map.empty) m_reg m_mem (wk (ps ex_memory_state))"
    by (rule table_worker_transfers) (simp add: ex_memory_state_def)
  moreover have "mem_read (vh_mem (wk (ps ex_memory_state))) 0x4000 8 = word_image (43 :: u64)"
    by (simp add: ex_memory_state_def mem_simps)
  ultimately show ?thesis
    using process_memory_roundtrip [of "ex_proc_env\<lparr>veos_env := table_veos Map.empty\<rparr>" m_reg m_mem ex_memory_state
        "0x9000" "0x4000" 8 "0x4100"] by auto
qed

section \<open>\<^verbatim>\<open>hello.c\<close>\<close>

definition hello_memory :: memory where
  "hello_memory = mem_write (mem_write (\<lambda>_. 0) 0x4000 (ascii ''buffer'' @ [0])) 0x4100 (ascii ''print_buffer'' @ [0])"

definition ex_find_buffer :: ve_semantics where
  "ex_find_buffer R M = (if mem_read M (R 1) 7 = ascii ''buffer'' @ [0] then 0x9000 else 0x700000, M)"

definition hello_table :: "u64 \<Rightarrow> ve_semantics option" where
  "hello_table = [0x1400 \<mapsto> ex_find_buffer, 0x600000 \<mapsto> hello, 0x700000 \<mapsto> print_buffer]"

definition ex_hello :: "machine sample_env" where
  "ex_hello = (ex_sample hello)\<lparr>spawn := ex_spawn_env\<lparr>penv := ex_proc_env\<lparr>veos_env := table_veos hello_table\<rparr>\<rparr>,
     literal := (\<lambda>str. if str = ''buffer'' then 0x4000 else 0x4100)\<rparr>"

definition ex_hello_state :: "machine astate" where
  "ex_hello_state = ex_api ((ex_events [])\<lparr>vh_mem := hello_memory, ctx_heap := [0x5000 \<mapsto> idle_ctx]\<rparr>)"

lemma ex_hello_sel [simp]:
  "veos_env (penv (spawn ex_hello)) = table_veos hello_table"
  "literal ex_hello ''buffer'' = 0x4000" "literal ex_hello ''print_buffer'' = 0x4100"
  by (simp_all add: ex_hello_def)

lemma ex_hello_library:
  "hello_library ex_hello 0x4200 7 ex_find_buffer 0x9000 0x700000 ex_hello_state"
proof -
  have "mem_read hello_memory 0x4000 7 = ascii ''buffer'' @ [0]"
    unfolding hello_memory_def
    by (subst mem_read_write_disjoint, rule disjoint_below) (simp_all add: hello_names mem_read_write_same)
  moreover have "mem_read hello_memory 0x4100 13 = ascii ''print_buffer'' @ [0]"
    by (simp add: hello_memory_def hello_names mem_read_write_same)
  moreover have "mem_read M p 7 \<noteq> ascii ''buffer'' @ [0]" if "mem_read M p 13 = ascii ''print_buffer'' @ [0]" for M p
  proof -
    have "mem_read M p 7 = take 7 (ascii ''print_buffer'' @ [0])" using take_mem_read [of 7 13 M p] that by simp
    then show ?thesis by (simp add: ascii_def)
  qed
  moreover have "disjoint_ranges 0x4000 7 0x4200 8" "disjoint_ranges 0x4100 13 0x4200 8"
    by (rule disjoint_below; simp)+
  ultimately show ?thesis
    by (simp add: hello_library_def ex_hello_state_def ex_find_buffer_def)
qed


section \<open>\<^verbatim>\<open>test_stackargs.c\<close>\<close>

definition ex_vars :: stack_vars where
  "ex_vars = \<lparr>var_ad = 0x4500, lit_at = 0x4600, var_ai = 0x4700, var_in0 = 0x4000, var_inout1 = 0x4100,
     var_out2 = 0x4200, var_out8 = 0x4300, to_double = ucast\<rparr>"

lemma ex_vars_disjoint: "disjoint_outputs (inout_args ex_vars)"
proof -
  let ?as = "inout_args ex_vars"
  have outs: "i \<in> {1, 2, 8}" if "i < 10" "flag_out (?as ! i)" for i
  proof -
    have "\<forall>i < 10. flag_out (?as ! i) \<longrightarrow> i = 1 \<or> i = 2 \<or> i = 8"
      by (simp add: inout_args_def doubles_def numeral_eq_Suc All_less_Suc)
    with that show ?thesis by blast
  qed
  have "disjoint_ranges 0x4100 4 0x4200 4" "disjoint_ranges 0x4100 4 0x4300 10" "disjoint_ranges 0x4200 4 0x4300 10"
      "disjoint_ranges 0x4200 4 0x4100 4" "disjoint_ranges 0x4300 10 0x4100 4" "disjoint_ranges 0x4300 10 0x4200 4"
    by (rule disjoint_below disjoint_above; simp; fail)+
  then have pairs: "\<forall>i \<in> {1, 2, 8}. \<forall>j \<in> {1, 2, 8}. i \<noteq> j \<longrightarrow>
      disjoint_ranges (arg_buff (?as ! i)) (unat (arg_len (?as ! i))) (arg_buff (?as ! j)) (unat (arg_len (?as ! j)))"
    by (simp add: inout_nth ex_vars_def del: One_nat_def)
  then show ?thesis
    unfolding disjoint_outputs_def inout_layout(6) using outs by blast
qed

definition ex_stack :: "machine sample_env" where
  "ex_stack = (ex_sample hello)\<lparr>spawn := ex_spawn_env\<lparr>penv := ex_proc_env\<lparr>veos_env :=
     table_veos [0x600000 \<mapsto> test_many_inout (+) ucast]\<rparr>\<rparr>\<rparr>"


end
