(* ===== verification/Context_Service.thy ===== *)
theory Context_Service
  imports Interleaving
begin

text \<open>
  What a context promises to the program, without its queues, threads and locks: a service
  that accepts requests, finishes them one by one in the order of acceptance and delivers each
  result once.  The interleaved model of \<^verbatim>\<open>ThreadContext\<close> refines this service, so what holds of
  the service holds of every interleaving.
\<close>

section \<open>The service\<close>

type_synonym outcome = "u64 \<times> int"

text \<open>
  Serving, emptying the queue after a failed command, or not working any more.
\<close>

datatype mode = Serving | Draining | Stopped

record service =
  mode :: mode
  waiting :: "u64 list"
  ready :: "u64 \<rightharpoonup> outcome"
  finished :: "(u64 \<times> outcome) list"
  delivered :: "(u64 \<times> outcome) list"

definition known :: "service \<Rightarrow> u64 set" where
  "known s = set (waiting s) \<union> dom (ready s) \<union> fst ` set (delivered s)"

definition finish_with :: "u64 \<Rightarrow> outcome \<Rightarrow> u64 list \<Rightarrow> service \<Rightarrow> service" where
  "finish_with i r is s =
     s\<lparr>waiting := is, ready := (ready s)(i \<mapsto> r), finished := finished s @ [(i, r)]\<rparr>"

inductive service_step :: "service \<Rightarrow> service \<Rightarrow> bool" where
  accept: "i \<notin> known s \<Longrightarrow> service_step s (s\<lparr>waiting := waiting s @ [i]\<rparr>)"
| serve: "mode s = Serving \<Longrightarrow> waiting s = i # is \<Longrightarrow> service_step s (finish_with i r is s)"
| fail: "mode s = Serving \<Longrightarrow> waiting s = i # is \<Longrightarrow>
    service_step s (finish_with i r is (s\<lparr>mode := Draining\<rparr>))"
| drop: "mode s = Draining \<Longrightarrow> waiting s = i # is \<Longrightarrow>
    service_step s (finish_with i (0, VEO_COMMAND_UNFINISHED) is s)"
| close: "mode s = Serving \<Longrightarrow> waiting s = i # is \<Longrightarrow>
    service_step s (finish_with i (0, 0) is (s\<lparr>mode := Stopped\<rparr>))"
| leave: "mode s = Serving \<Longrightarrow> service_step s (s\<lparr>mode := Stopped\<rparr>)"
| drained: "mode s = Draining \<Longrightarrow> waiting s = [] \<Longrightarrow> service_step s (s\<lparr>mode := Stopped\<rparr>)"
| deliver: "ready s i = Some r \<Longrightarrow>
    service_step s (s\<lparr>ready := (ready s)(i := None), delivered := delivered s @ [(i, r)]\<rparr>)"

definition fresh_service :: service where
  "fresh_service = \<lparr>mode = Serving, waiting = [], ready = Map.empty, finished = [], delivered = []\<rparr>"

abbreviation service_run :: "service \<Rightarrow> service \<Rightarrow> bool" where
  "service_run \<equiv> service_step\<^sup>*\<^sup>*"

section \<open>Simulation\<close>

text \<open>
  The contract between a transition system and its specification: each step of a reachable
  state is a step of the specification or invisible, as long as a bound on the state holds
  that, once passed, stays passed.
\<close>

locale simulation =
  fixes cinit :: 'c and cstep :: "'c \<Rightarrow> 'c \<Rightarrow> bool" and bound :: "'c \<Rightarrow> bool"
    and ainit :: 'a and astep :: "'a \<Rightarrow> 'a \<Rightarrow> bool" and abs :: "'c \<Rightarrow> 'a"
  assumes abs_init: "abs cinit = ainit"
    and bound_back: "cstep c c' \<Longrightarrow> bound c' \<Longrightarrow> bound c"
    and abs_step: "cstep\<^sup>*\<^sup>* cinit c \<Longrightarrow> cstep c c' \<Longrightarrow> bound c' \<Longrightarrow> astep\<^sup>=\<^sup>= (abs c) (abs c')"
begin

lemma abs_run:
  assumes "cstep\<^sup>*\<^sup>* c c'" and "cstep\<^sup>*\<^sup>* cinit c" and "bound c'"
  shows "astep\<^sup>*\<^sup>* (abs c) (abs c')"
  using assms
proof (induction rule: rtranclp_induct)
  case (step d d')
  have "bound d" using bound_back [OF step.hyps(2) step.prems(2)] .
  with step have "astep\<^sup>*\<^sup>* (abs c) (abs d)" by blast
  moreover have "cstep\<^sup>*\<^sup>* cinit d" using step.prems(1) step.hyps(1) by simp
  then have "astep\<^sup>=\<^sup>= (abs d) (abs d')" using abs_step step by blast
  ultimately show ?case by auto
qed simp

lemma abs_reachable: "cstep\<^sup>*\<^sup>* cinit c \<Longrightarrow> bound c \<Longrightarrow> astep\<^sup>*\<^sup>* ainit (abs c)"
  using abs_run [of cinit c] by (simp add: abs_init)

text \<open>An invariant of the specification holds of what the system does.\<close>

lemma abs_invariant:
  assumes "cstep\<^sup>*\<^sup>* cinit c" and "bound c"
    and "P ainit" and "\<And>a a'. astep a a' \<Longrightarrow> P a \<Longrightarrow> P a'"
  shows "P (abs c)"
proof -
  have "astep\<^sup>*\<^sup>* ainit (abs c)" using abs_reachable assms(1,2) .
  then show ?thesis by (induction rule: rtranclp_induct) (use assms(3,4) in blast)+
qed

end

section \<open>The service behind a context\<close>

definition entry :: "cmd \<Rightarrow> u64 \<times> outcome" where
  "entry c = (cmd_id c, the (cmd_retval c), the (cmd_status c))"

fun mode_of :: "pt_pc \<Rightarrow> mode" where
  "mode_of (PtDraining c) = Draining"
| "mode_of PtEnded = Stopped"
| "mode_of pc = Serving"

definition service_of :: "world \<Rightarrow> service" where
  "service_of w =
     \<lparr>mode = mode_of (wpt w), waiting = current (wpt w) @ pending_ids w,
      ready = map_of (map entry (bq_queue (completion (wq w)))),
      finished = map entry (done_log w), delivered = map entry (taken_log w)\<rparr>"

lemma fst_entry [simp]: "fst (entry c) = cmd_id c" "fst \<circ> entry = cmd_id"
  by (auto simp: entry_def)

lemma entry_pair [simp]: "(cmd_id c, snd (entry c)) = entry c"
  by (simp add: entry_def)

lemma dom_ready [simp]:
  "dom (map_of (map entry cs)) = cmd_id ` set cs"
  by (simp add: dom_map_of_conv_image_fst image_image)

lemma known_places: "known (service_of w) = set (places_of w)"
  by (auto simp: known_def service_of_def places_of_def completed_ids_def image_image)

lemma map_of_entry_snoc:
  assumes "cmd_id c \<notin> cmd_id ` set cs"
  shows "map_of (map entry cs @ [entry c]) = (map_of (map entry cs))(cmd_id c \<mapsto> snd (entry c))"
proof -
  have "map_of (map entry cs) (cmd_id c) = None"
    using assms dom_ready [of cs] by (metis domIff)
  then show ?thesis
    by (auto simp: map_add_def fun_eq_iff entry_def split: option.splits)
qed

lemma map_of_entry_filter:
  "map_of (map entry (filter (\<lambda>c. cmd_id c \<noteq> i) cs)) = (map_of (map entry cs))(i := None)"
  by (induction cs) (auto simp: entry_def fun_eq_iff)



text \<open>Handing out a result is a delivery.\<close>

lemma service_take:
  assumes found: "peekCompletion (wq w) i = (Some c, q')" and dist: "distinct (places_of w)"
    and w': "wq w' = q'" "wpt w' = wpt w" "done_log w' = done_log w" "taken_log w' = taken_log w @ [c]"
  shows "service_step (service_of w) (service_of w')"
proof -
  let ?cs = "bq_queue (completion (wq w))"
  obtain r where r: "tryFindNoLock (completion (wq w)) i = (Some c, r)" "q' = (wq w)\<lparr>completion := r\<rparr>"
    using found by (auto simp: peekCompletion_def tryFind_def split: prod.splits)
  have ids: "distinct (map cmd_id ?cs)" using dist by (simp add: places_of_def completed_ids_def)
  have rest: "bq_queue r = filter (\<lambda>c. cmd_id c \<noteq> i) ?cs"
    by (rule bq.find_key_removes [OF ids r(1)])
  have "c \<in> set ?cs" and i: "cmd_id c = i"
    using bq.find_key_SomeD [OF r(1)] by (metis set_mset_mset union_single_eq_member, simp)
  then have "ready (service_of w) i = Some (snd (entry c))"
    using ids by (auto simp: service_of_def entry_def image_image intro!: map_of_is_SomeI)
  from service_step.deliver [OF this] show ?thesis
    using rest r(2) w' i by (simp add: service_of_def map_of_entry_filter pending_ids_def entry_def)
qed

lemma service_vh:
  assumes "vh_step t w w'" and "reach w'" and "distinct (places_of w)" and "distinct (places_of w')"
  shows "service_step\<^sup>=\<^sup>= (service_of w) (service_of w')"
  using assms(1)
proof (cases rule: vh_step.cases)
  case (push r i)
  have "i \<notin> known (service_of w)"
    using assms(4) push by (auto simp: known_places places_of_def view_defs bq_push_def new_Command_def)
  from service_step.accept [OF this] show ?thesis
    using push by (simp add: service_of_def view_defs bq_push_def new_Command_def)
next
  case (peek i c q')
  then show ?thesis using service_take [OF peek(4) assms(3), of w'] by simp
next
  case (wait_end i c q')
  then show ?thesis
    using service_take [OF waitCompletion_peek assms(3), of i c q' w'] by (simp add: goto_def)
next
  case (close_end i c q')
  then show ?thesis
    using service_take [OF waitCompletion_peek assms(3), of i c q' w'] by (simp add: goto_def)
qed (simp_all add: service_of_def view_defs)

text \<open>Posting a result is the end of the request at the head.\<close>

lemma service_complete:
  assumes "distinct (places_of w)" and "current (wpt w) = [cmd_id c]" and "current pt = []"
    and w': "w' = complete c (w\<lparr>wpt := pt, wstate := st\<rparr>)"
  shows "service_of w' = finish_with (cmd_id c) (snd (entry c)) (pending_ids w)
           ((service_of w)\<lparr>mode := mode_of pt\<rparr>)"
    and "waiting (service_of w) = cmd_id c # pending_ids w"
proof -
  have "cmd_id c \<notin> cmd_id ` set (bq_queue (completion (wq w)))"
    using assms(1,2) by (auto simp: places_of_def completed_ids_def)
  then show "service_of w' = finish_with (cmd_id c) (snd (entry c)) (pending_ids w)
           ((service_of w)\<lparr>mode := mode_of pt\<rparr>)"
    using assms(2-4) map_of_entry_snoc [of c "bq_queue (completion (wq w))"]
    by (simp add: service_of_def finish_with_def complete_def pending_ids_def pushCompletion_def
        bq_push_def del: map_of_append)
  show "waiting (service_of w) = cmd_id c # pending_ids w"
    using assms(2) by (simp add: service_of_def)
qed

text \<open>Every result that is posted has been set; a dropped request reports so.\<close>

definition has_result :: "cmd \<Rightarrow> bool" where
  "has_result c \<longleftrightarrow> cmd_retval c \<noteq> None \<and> cmd_status c \<noteq> None"

definition results_set :: "world \<Rightarrow> bool" where
  "results_set w \<longleftrightarrow> (\<forall>c \<in> set (done_log w). has_result c)
     \<and> (\<forall>c. wpt w = PtFailed c \<or> wpt w = PtClosed c \<longrightarrow> has_result c)
     \<and> (\<forall>c. wpt w = PtDraining (Some c)
          \<longrightarrow> cmd_retval c = Some 0 \<and> cmd_status c = Some VEO_COMMAND_UNFINISHED)"

lemma has_result_setResult [simp]: "has_result (setResult c v st)"
  by (simp add: has_result_def state_simps)

lemma results_set_vh: "vh_step t w w' \<Longrightarrow> results_set w \<Longrightarrow> results_set w'"
  by (cases rule: vh_step.cases) (auto simp: results_set_def goto_def)

lemma results_set_pt: "pt_step w w' \<Longrightarrow> results_set w \<Longrightarrow> results_set w'"
  by (cases rule: pt_step.cases)
    (auto simp: results_set_def complete_def state_simps has_result_def)

lemma reach_results_set: "reach w \<Longrightarrow> results_set w"
proof (induction rule: reach.induct)
  case (more w w')
  then show ?case using results_set_vh results_set_pt unfolding step_def by blast
qed (simp add: results_set_def fresh_world_def)

lemma mode_update_same [simp]: "mode s = m \<Longrightarrow> s\<lparr>mode := m\<rparr> = s"
  by (cases s) simp

lemma service_pt:
  assumes "pt_step w w'" and "close_ids w" and "results_set w" and "distinct (places_of w)"
  shows "service_step\<^sup>=\<^sup>= (service_of w) (service_of w')"
  using assms(1)
proof (cases rule: pt_step.cases)
  case leave
  then have "mode (service_of w) = Serving" by (simp add: service_of_def)
  from service_step.leave [OF this] show ?thesis
    using leave by (simp add: service_of_def pending_ids_def)
next
  case (pop c q')
  then show ?thesis
    by (auto simp: service_of_def pending_ids_def popRequest_eq split: list.splits)
next
  case (succeed c st' v st)
  have "mode (service_of w) = Serving" using succeed by (simp add: service_of_def)
  then show ?thesis
    using service_complete [OF assms(4), of "setResult c v st" PtLoop w' st'] succeed
      service_step.serve by (simp add: state_simps)
next
  case (report c)
  have "mode (service_of w) = Serving" using report by (simp add: service_of_def)
  then show ?thesis
    using service_complete [OF assms(4), of c "PtDraining None" w' "wstate w"] report
      service_step.fail by simp
next
  case (drain c r')
  then show ?thesis
    by (auto simp: service_of_def pending_ids_def popNoWait_def state_simps split: list.splits)
next
  case (finish r')
  then have "mode (service_of w) = Draining" "waiting (service_of w) = []"
    by (auto simp: service_of_def pending_ids_def popNoWait_def split: list.splits)
  from service_step.drained [OF this] show ?thesis
    using finish by (simp add: service_of_def pending_ids_def)
next
  case (drained c)
  then have "mode (service_of w) = Draining" "snd (entry c) = (0, VEO_COMMAND_UNFINISHED)"
    using assms(3) by (simp_all add: service_of_def results_set_def entry_def)
  then show ?thesis
    using service_complete [OF assms(4), of c "PtDraining None" w' "wstate w"] drained
      service_step.drop by simp
next
  case (cleanup c i)
  then have "cmd_id c = i" using assms(2) by (auto simp: close_ids_def own_close_def)
  then show ?thesis using cleanup by (simp add: service_of_def pending_ids_def)
next
  case (reply i)
  have "mode (service_of w) = Serving" using reply by (simp add: service_of_def)
  then show ?thesis
    using service_complete [OF assms(4), of "setResult (new_Command i DummyReply) 0 0" PtEnded w' "wstate w"]
      reply service_step.close by (simp add: state_simps entry_def)
qed (simp_all add: service_of_def view_defs setRequestStatus_def setStatus_def state_simps)

lemma leads_to_rtranclp: "leads_to = step\<^sup>*\<^sup>*"
proof (intro ext iffI)
  show "step\<^sup>*\<^sup>* w w'" if "leads_to w w'" for w w'
    using that by induction auto
  show "leads_to w w'" if "step\<^sup>*\<^sup>* w w'" for w w'
    using that by induction (auto intro: leads_to.intros)
qed

lemma reach_rtranclp: "reach w \<longleftrightarrow> step\<^sup>*\<^sup>* fresh_world w"
proof
  show "step\<^sup>*\<^sup>* fresh_world w" if "reach w" using that by induction auto
  show "reach w" if "step\<^sup>*\<^sup>* fresh_world w" using that by induction (auto intro: reach.intros)
qed

definition few_ids :: "world \<Rightarrow> bool" where
  "few_ids w \<longleftrightarrow> length (issued_log w) < 2 ^ 64"

lemma few_ids_back: "step w w' \<Longrightarrow> few_ids w' \<Longrightarrow> few_ids w"
  using issued_log_grows by (fastforce simp: few_ids_def)

lemma service_step_of:
  assumes "reach w" and "step w w'" and "few_ids w'"
  shows "service_step\<^sup>=\<^sup>= (service_of w) (service_of w')"
proof -
  have r': "reach w'" using assms(1,2) by (rule reach.more)
  have "distinct (places_of w)" "distinct (places_of w')"
    using reach_places(1) assms(1) r' assms(3) few_ids_back [OF assms(2,3)]
    by (simp_all add: few_ids_def)
  then show ?thesis
    using assms(2) service_vh [OF _ r'] service_pt reach_close_ids [OF assms(1)]
      reach_results_set [OF assms(1)]
    unfolding step_def by blast
qed

lemma service_of_fresh: "service_of fresh_world = fresh_service"
  by (simp add: service_of_def fresh_world_def fresh_service_def pending_ids_def state_simps)

interpretation offload: simulation fresh_world step few_ids fresh_service service_step service_of
proof (unfold_locales, goal_cases)
  case (2 c c')
  then show ?case by (rule few_ids_back)
next
  case (3 c c')
  then show ?case by (intro service_step_of) (simp_all add: reach_rtranclp)
qed (rule service_of_fresh)

section \<open>What the service guarantees\<close>

text \<open>A service that has failed finishes the rest unexecuted, and a stopped one nothing.\<close>

definition after_failure :: "service \<Rightarrow> service \<Rightarrow> bool" where
  "after_failure s s' \<longleftrightarrow> mode s' \<noteq> Serving \<and>
     (\<exists>rest. finished s' = finished s @ rest \<and> (\<forall>e \<in> set rest. snd e = (0, VEO_COMMAND_UNFINISHED))
        \<and> (mode s = Stopped \<longrightarrow> mode s' = Stopped \<and> rest = []))"

lemma after_failure_step:
  assumes "service_step s' s''" and "after_failure s s'"
  shows "after_failure s s''"
  using assms by (cases rule: service_step.cases) (auto simp: after_failure_def finish_with_def)

lemma after_failure_run:
  assumes "service_run s s'" and "mode s \<noteq> Serving"
  shows "after_failure s s'"
  using assms(1)
proof (induction rule: rtranclp_induct)
  case base
  then show ?case using assms(2) by (simp add: after_failure_def)
next
  case (step s' s'')
  then show ?case using after_failure_step by blast
qed

lemma done_log_grows: "leads_to w w' \<Longrightarrow> \<exists>cs. done_log w' = done_log w @ cs"
proof (induction rule: leads_to.induct)
  case (later w w' w'')
  have "\<exists>cs. done_log w'' = done_log w' @ cs"
    using later.hyps(2) unfolding step_def
    by (auto elim!: vh_step.cases pt_step.cases simp: goto_def complete_def)
  with later.IH show ?case by auto
qed simp

text \<open>
  C2: the interleaved context refines the abstract service.  A fresh context is a fresh
  service, and every step that any thread takes in any reachable situation either is invisible
  to the service or is one of its steps: a request accepted under a new ID, the oldest request
  finished, a result delivered, or a change of mode.  (Fewer than \<open>2 ^ 64\<close> IDs were issued.)
\<close>

theorem context_refines_service:
  assumes "reach w" and "step w w'" and "length (issued_log w') < 2 ^ 64"
  shows "service_of fresh_world = fresh_service
     \<and> (service_of w' = service_of w \<or> service_step (service_of w) (service_of w'))"
  using service_of_fresh service_step_of [OF assms(1,2)] assms(3) by (auto simp: few_ids_def)

text \<open>
  C10: a failure is final.  From the moment the result of a failed command is posted, however the
  threads go on, no other request is executed: each result posted afterwards is 0 with the
  status UNFINISHED; and once the pseudo thread has ended no result is posted at all.
\<close>

theorem failure_is_final:
  assumes "reach w" and "wpt w = PtEnded \<or> (\<exists>c. wpt w = PtDraining c)"
    and "leads_to w w'" and "length (issued_log w') < 2 ^ 64"
  shows "\<exists>cs. done_log w' = done_log w @ cs
     \<and> (\<forall>c \<in> set cs. cmd_retval c = Some 0 \<and> cmd_status c = Some VEO_COMMAND_UNFINISHED)
     \<and> (wpt w = PtEnded \<longrightarrow> cs = [])"
proof -
  have "mode (service_of w) \<noteq> Serving" using assms(2) by (auto simp: service_of_def)
  moreover have "service_run (service_of w) (service_of w')"
    using offload.abs_run assms(1,3,4) by (simp add: leads_to_rtranclp reach_rtranclp few_ids_def)
  ultimately have after: "after_failure (service_of w) (service_of w')"
    using after_failure_run by blast
  obtain cs where cs: "done_log w' = done_log w @ cs" using done_log_grows [OF assms(3)] by blast
  have set: "has_result c" if "c \<in> set cs" for c
    using reach_results_set [OF leads_to_reach [OF assms(3,1)]] cs that by (simp add: results_set_def)
  from after cs have "\<forall>c \<in> set cs. snd (entry c) = (0, VEO_COMMAND_UNFINISHED)"
      "wpt w = PtEnded \<longrightarrow> cs = []"
    by (auto simp: after_failure_def service_of_def)
  with cs set show ?thesis
    by (intro exI [of _ cs]) (fastforce simp: entry_def has_result_def)
qed

end
