(* ===== verification/Progress.thy ===== *)
theory Progress
  imports Context_Service
begin

text \<open>
  Progress of a context: in every run in which the pseudo thread is scheduled fairly, accepted
  requests are completed, unless the thread ends; after a failure all of them are; and a thread
  that waits for its result gets it.
\<close>

section \<open>Fair runs\<close>

text \<open>An infinite run; a step may also be one of a thread outside of the library.\<close>

definition run_of :: "(nat \<Rightarrow> world) \<Rightarrow> bool" where
  "run_of \<sigma> \<longleftrightarrow> \<sigma> 0 = fresh_world \<and> (\<forall>n. step\<^sup>=\<^sup>= (\<sigma> n) (\<sigma> (Suc n)))"

text \<open>Weak fairness: a thread that can go on from some time on does so.\<close>

definition fair :: "(world \<Rightarrow> world \<Rightarrow> bool) \<Rightarrow> (nat \<Rightarrow> world) \<Rightarrow> bool" where
  "fair moves \<sigma> \<longleftrightarrow>
     (\<forall>n. (\<forall>m \<ge> n. Ex (moves (\<sigma> m))) \<longrightarrow> (\<exists>m \<ge> n. moves (\<sigma> m) (\<sigma> (Suc m))))"

lemma run_reach: "run_of \<sigma> \<Longrightarrow> reach (\<sigma> n)"
proof (induction n)
  case (Suc n)
  then have "reach (\<sigma> n)" "\<sigma> (Suc n) = \<sigma> n \<or> step (\<sigma> n) (\<sigma> (Suc n))"
    by (auto simp: run_of_def)
  then show ?case by (metis reach.more)
qed (simp add: run_of_def reach.init)

lemma run_leads:
  assumes "run_of \<sigma>" and "n \<le> m" shows "leads_to (\<sigma> n) (\<sigma> m)"
  using assms(2)
proof (induction m rule: dec_induct)
  case (step m)
  have "\<sigma> (Suc m) = \<sigma> m \<or> Interleaving.step (\<sigma> m) (\<sigma> (Suc m))"
    using assms(1) by (auto simp: run_of_def)
  with step.IH show ?case by (metis leads_to.later)
qed (rule leads_to.now)

text \<open>
  The rule behind the progress properties.  A situation \<open>P\<close> lasts until the goal \<open>Q\<close> is
  reached; in it the thread can always move, and each move brings the goal nearer, which no
  other step undoes.
\<close>

lemma fair_leads:
  fixes rank :: "world \<Rightarrow> nat"
  assumes run: "run_of \<sigma>" and fair: "fair moves \<sigma>" and start: "P (\<sigma> n)"
    and enabled: "\<And>w. reach w \<Longrightarrow> P w \<Longrightarrow> \<not> Q w \<Longrightarrow> Ex (moves w)"
    and keeps: "\<And>k. n \<le> k \<Longrightarrow> P (\<sigma> k) \<Longrightarrow> \<not> Q (\<sigma> k) \<Longrightarrow> step (\<sigma> k) (\<sigma> (Suc k)) \<Longrightarrow>
        Q (\<sigma> (Suc k)) \<or> P (\<sigma> (Suc k)) \<and> rank (\<sigma> (Suc k)) \<le> rank (\<sigma> k)"
    and nearer: "\<And>k. n \<le> k \<Longrightarrow> P (\<sigma> k) \<Longrightarrow> \<not> Q (\<sigma> k) \<Longrightarrow> moves (\<sigma> k) (\<sigma> (Suc k)) \<Longrightarrow>
        Q (\<sigma> (Suc k)) \<or> rank (\<sigma> (Suc k)) < rank (\<sigma> k)"
  shows "\<exists>m \<ge> n. Q (\<sigma> m)"
proof (rule ccontr)
  assume never: "\<not> (\<exists>m \<ge> n. Q (\<sigma> m))"
  have one: "P (\<sigma> (Suc k)) \<and> rank (\<sigma> (Suc k)) \<le> rank (\<sigma> k)" if "n \<le> k" "P (\<sigma> k)" for k
  proof (cases "\<sigma> (Suc k) = \<sigma> k")
    case False
    then have "step (\<sigma> k) (\<sigma> (Suc k))" using run by (auto simp: run_of_def)
    moreover have "\<not> Q (\<sigma> k)" "\<not> Q (\<sigma> (Suc k))" using never that(1) by auto
    ultimately show ?thesis using keeps that by blast
  qed (use that in simp)
  have lasts: "P (\<sigma> m)" if "n \<le> m" for m
    using that by (induction m rule: dec_induct) (use start one in blast)+
  have falls: "rank (\<sigma> m') \<le> rank (\<sigma> m)" if "n \<le> m" "m \<le> m'" for m m'
    using that(2) by (induction m' rule: dec_induct) (use one lasts that(1) le_trans in blast)+
  have "\<exists>m \<ge> k. rank (\<sigma> (Suc m)) < rank (\<sigma> m)" if "n \<le> k" for k
  proof -
    have "\<forall>m \<ge> k. Ex (moves (\<sigma> m))"
      using enabled run_reach [OF run] lasts never that by (meson le_trans)
    then obtain m where "m \<ge> k" "moves (\<sigma> m) (\<sigma> (Suc m))" using fair by (auto simp: fair_def)
    then show ?thesis using nearer [of m] lasts never that by (meson le_SucI le_trans)
  qed
  then have "\<exists>m \<ge> n. rank (\<sigma> m) + j \<le> rank (\<sigma> n)" for j
  proof (induction j)
    case (Suc j)
    then obtain k where k: "k \<ge> n" "rank (\<sigma> k) + j \<le> rank (\<sigma> n)" by blast
    with Suc.prems obtain m where "m \<ge> k" "rank (\<sigma> (Suc m)) < rank (\<sigma> m)" by blast
    with k falls [OF k(1), of m] show ?case by (intro exI [of _ "Suc m"]) auto
  qed auto
  from this [of "Suc (rank (\<sigma> n))"] show False by auto
qed

section \<open>The pseudo thread\<close>

lemma pt_enabled:
  assumes "wpt w \<noteq> PtEnded" and "current (wpt w) @ pending_ids w \<noteq> []"
  shows "Ex (pt_step w)"
proof (cases "wpt w")
  case PtLoop
  then obtain c cs where "bq_queue (request (wq w)) = c # cs"
    using assms(2) by (auto simp: pending_ids_def neq_Nil_conv)
  then have "popRequest (wq w) = Some (c, (wq w)\<lparr>request := (request (wq w))\<lparr>bq_queue := cs\<rparr>\<rparr>)"
    by (simp add: popRequest_eq)
  with PtLoop show ?thesis by (cases "wstate w = VEO_STATE_BLOCKED") (blast intro: pt_step.pop pt_step.leave)+
next
  case (PtRunning c)
  then show ?thesis
    by (cases "\<exists>j. cmd_handler c = CloseContext j") (blast intro: pt_step.cleanup pt_step.fail)+
next
  case (PtDraining d)
  show ?thesis
  proof (cases d)
    case None
    with PtDraining assms(2) obtain c cs where "bq_queue (request (wq w)) = c # cs"
      by (auto simp: pending_ids_def neq_Nil_conv)
    then have "popNoWait (request (wq w)) = (Some c, (request (wq w))\<lparr>bq_queue := cs\<rparr>)"
      by (simp add: popNoWait_def)
    with PtDraining None show ?thesis by (blast intro: pt_step.drain)
  next
    case (Some c)
    with PtDraining show ?thesis by (blast intro: pt_step.drained)
  qed
qed (use assms(1) in \<open>blast intro: pt_step.shut pt_step.report pt_step.reply\<close>)+

text \<open>How many steps of the pseudo thread a request is away from its completion, at most.\<close>

fun phase :: "pt_pc \<Rightarrow> nat" where
  "phase (PtRunning c) = 3"
| "phase (PtFailed c) = 2"
| "phase (PtClosed c) = 1"
| "phase (PtDraining (Some c)) = 1"
| "phase (PtClosing i) = 1"
| "phase pt = 0"

definition ahead :: "u64 \<Rightarrow> world \<Rightarrow> nat" where
  "ahead i w = (if i \<in> set (current (wpt w)) then 0
                else Suc (length (takeWhile (\<lambda>j. j \<noteq> i) (pending_ids w))))"

definition distance :: "u64 \<Rightarrow> world \<Rightarrow> nat" where
  "distance i w = 4 * ahead i w + phase (wpt w)"

definition open_request :: "u64 \<Rightarrow> world \<Rightarrow> bool" where
  "open_request i w \<longleftrightarrow> i \<in> set (current (wpt w) @ pending_ids w)"

definition answered :: "u64 \<Rightarrow> world \<Rightarrow> bool" where
  "answered i w \<longleftrightarrow> i \<in> cmd_id ` set (done_log w)"

lemma vh_pending:
  assumes "vh_step t w w'"
  shows "wpt w' = wpt w \<and> done_log w' = done_log w \<and> (\<exists>ids. pending_ids w' = pending_ids w @ ids)"
  using assms
  by (cases rule: vh_step.cases) (auto simp: view_defs take_views bq_push_def)

lemma open_request_vh:
  assumes "vh_step t w w'" and "open_request i w"
  shows "open_request i w' \<and> distance i w' = distance i w"
proof -
  obtain ids where "pending_ids w' = pending_ids w @ ids" and "wpt w' = wpt w"
    using vh_pending [OF assms(1)] by blast
  then show ?thesis
    using assms(2) by (auto simp: open_request_def distance_def ahead_def takeWhile_append1)
qed

text \<open>The kinds of steps of the pseudo thread.\<close>

lemma pt_step_kinds:
  assumes "pt_step w w'" and "close_ids w"
  obtains (taken) j where "pending_ids w = j # pending_ids w'" "current (wpt w) = []"
      "current (wpt w') = [j]" "phase (wpt w') \<le> 3"
    | (working) "current (wpt w') = current (wpt w)" "pending_ids w' = pending_ids w"
      "phase (wpt w') < phase (wpt w)" "wpt w' \<noteq> PtEnded"
    | (finished) j where "current (wpt w) = [j]" "answered j w'" "current (wpt w') = []"
      "pending_ids w' = pending_ids w" "phase (wpt w') < phase (wpt w)"
    | (ended) "wpt w' = PtEnded"
  using assms(1)
proof (cases rule: pt_step.cases)
  case (pop c q')
  then show thesis
    by (intro taken [of "cmd_id c"]) (auto simp: view_defs popRequest_eq split: list.splits)
next
  case (drain c r')
  then show thesis
    by (intro taken [of "cmd_id c"]) (auto simp: view_defs popNoWait_def state_simps split: list.splits)
next
  case (succeed c st' v st)
  then show thesis
    by (intro finished [of "cmd_id c"]) (auto simp: answered_def view_defs state_simps)
next
  case (report c)
  then show thesis by (intro finished [of "cmd_id c"]) (auto simp: answered_def view_defs state_simps)
next
  case (drained c)
  then show thesis by (intro finished [of "cmd_id c"]) (auto simp: answered_def view_defs state_simps)
next
  case (fail c v st)
  then show thesis by (intro working) (simp_all add: view_defs state_simps)
next
  case (shut c)
  then show thesis by (intro working) (simp_all add: view_defs state_simps setRequestStatus_def setStatus_def)
next
  case (cleanup c i)
  moreover have "cmd_id c = i" using cleanup assms(2) by (auto simp: close_ids_def own_close_def)
  ultimately show thesis by (intro working) (simp_all add: view_defs)
qed (simp_all add: ended complete_def)

lemma open_request_pt:
  assumes "pt_step w w'" and "close_ids w" and "open_request i w"
  shows "answered i w' \<or> wpt w' = PtEnded \<or> open_request i w' \<and> distance i w' < distance i w"
  using pt_step_kinds [OF assms(1,2)]
  by cases (use assms(3) in \<open>auto simp: open_request_def distance_def ahead_def\<close>)

lemma open_request_enabled: "open_request i w \<Longrightarrow> wpt w \<noteq> PtEnded \<Longrightarrow> Ex (pt_step w)"
  by (rule pt_enabled) (auto simp: open_request_def)

lemma pushed_open_or_completed:
  assumes "reach w" and "i \<in> set (pushed_log w)"
  shows "answered i w \<or> open_request i w"
  using reach_fifo [OF assms(1)] assms(2)
  by (auto simp: fifo_def answered_def open_request_def)

lemma open_request_step:
  assumes "reach w" and "step w w'" and "open_request i w"
  shows "answered i w' \<or> wpt w' = PtEnded \<or> open_request i w' \<and> distance i w' \<le> distance i w"
  using assms(2) open_request_vh [OF _ assms(3)] open_request_pt [OF _ reach_close_ids [OF assms(1)] assms(3)]
  unfolding step_def by (metis less_imp_le order_refl)

lemma fair_answered:
  assumes "run_of \<sigma>" and "fair pt_step \<sigma>" and "i \<in> set (pushed_log (\<sigma> n))"
  shows "\<exists>m \<ge> n. answered i (\<sigma> m) \<or> wpt (\<sigma> m) = PtEnded"
proof (cases "open_request i (\<sigma> n)")
  case True
  show ?thesis
  proof (rule fair_leads [OF assms(1,2), where P = "open_request i" and rank = "distance i"], goal_cases)
    case (2 w)
    then show ?case using open_request_enabled by blast
  next
    case (3 k)
    then show ?case using open_request_step run_reach [OF assms(1)] by blast
  next
    case (4 k)
    then show ?case using open_request_pt reach_close_ids [OF run_reach [OF assms(1)]] by blast
  qed (rule True)
next
  case False
  then have "answered i (\<sigma> n)"
    using pushed_open_or_completed [OF run_reach [OF assms(1)] assms(3)] by simp
  then show ?thesis by auto
qed


section \<open>After a failure\<close>

fun failing :: "pt_pc \<Rightarrow> bool" where
  "failing (PtFailed c) = True"
| "failing (PtClosed c) = True"
| "failing (PtDraining d) = True"
| "failing pt = False"

lemma failing_pt:
  assumes "pt_step w w'" and "failing (wpt w)" and "open_request i w"
  shows "failing (wpt w')"
  using assms
  by (cases rule: pt_step.cases)
    (auto simp: complete_def open_request_def pending_ids_def popNoWait_def split: list.splits)

text \<open>
  C11: a failure leaves no queued request behind.  When a command has failed and the pseudo
  thread is scheduled fairly, every request that has entered the queue by then is completed.
\<close>

theorem failure_completes_queued_requests:
  assumes "run_of \<sigma>" and "fair pt_step \<sigma>"
    and "(\<exists>c. wpt (\<sigma> n) = PtFailed c \<or> wpt (\<sigma> n) = PtClosed c) \<or> (\<exists>d. wpt (\<sigma> n) = PtDraining d)"
    and "i \<in> set (pushed_log (\<sigma> n))"
  shows "\<exists>m \<ge> n. i \<in> cmd_id ` set (done_log (\<sigma> m))"
proof (cases "open_request i (\<sigma> n)")
  case True
  let ?P = "\<lambda>w. open_request i w \<and> failing (wpt w)"
  have "\<exists>m \<ge> n. answered i (\<sigma> m)"
  proof (rule fair_leads [OF assms(1,2), where P = ?P and rank = "distance i"], goal_cases)
    case 1
    show ?case using True assms(3) by auto
  next
    case (2 w)
    then show ?case using open_request_enabled by (metis failing.simps(7))
  next
    case (3 k)
    then have "failing (wpt (\<sigma> (Suc k)))"
      using failing_pt vh_pending unfolding step_def by metis
    with 3 show ?case using open_request_step run_reach [OF assms(1)] by (metis failing.simps(7))
  next
    case (4 k)
    then have "failing (wpt (\<sigma> (Suc k)))" using failing_pt by blast
    with 4 show ?case
      using open_request_pt reach_close_ids [OF run_reach [OF assms(1)]] by (metis failing.simps(7))
  qed
  then show ?thesis by (simp add: answered_def)
next
  case False
  then have "answered i (\<sigma> n)"
    using pushed_open_or_completed [OF run_reach [OF assms(1)] assms(4)] by simp
  then show ?thesis by (auto simp: answered_def)
qed

section \<open>Waiting threads\<close>

text \<open>
  An ID is handed out at most once, to the thread that took it out of \<^verbatim>\<open>rem_reqid\<close>.  An ID
  that \<^verbatim>\<open>close()\<close> or \<^verbatim>\<open>exitProc()\<close> waits for stays in \<^verbatim>\<open>rem_reqid\<close> and is not covered.
\<close>

definition taken_ids :: "world \<Rightarrow> u64 set" where
  "taken_ids w = cmd_id ` set (taken_log w)"

definition unclaimed :: "u64 \<Rightarrow> world \<Rightarrow> bool" where
  "unclaimed i w \<longleftrightarrow> i \<notin> taken_ids w \<and> (\<forall>t. wvh w t \<noteq> VhWaiting i)"

definition unrecorded :: "u64 \<Rightarrow> world \<Rightarrow> bool" where
  "unrecorded i w \<longleftrightarrow> i \<notin> set (issued_log w) \<or> (\<exists>t r. wvh w t = VhFetched r i)"

definition one_claim :: "u64 \<Rightarrow> world \<Rightarrow> bool" where
  "one_claim i w \<longleftrightarrow> (i \<in> wrem w \<longrightarrow> unclaimed i w)
     \<and> (unrecorded i w \<longrightarrow> i \<notin> wrem w \<and> unclaimed i w)
     \<and> (\<forall>t. wvh w t = VhWaiting i \<longrightarrow> i \<notin> taken_ids w \<and> (\<forall>t'. wvh w t' = VhWaiting i \<longrightarrow> t' = t))"

lemmas claim_defs = one_claim_def unclaimed_def unrecorded_def taken_ids_def

lemma claims_pt:
  assumes "pt_step w w'"
  shows "wrem w' = wrem w" "taken_log w' = taken_log w"
  using assms by (cases rule: pt_step.cases; simp add: complete_def)+

lemma one_claim_pt: "pt_step w w' \<Longrightarrow> one_claim i w \<Longrightarrow> one_claim i w'"
  by (simp add: claim_defs claims_pt logs_pt)

text \<open>A step that takes no claim and records no ID keeps the claims.\<close>

lemma one_claim_frame:
  assumes "one_claim i w" and "i \<in> wrem w' \<Longrightarrow> i \<in> wrem w" and "i \<in> taken_ids w' \<Longrightarrow> i \<in> taken_ids w"
    and "\<And>t. wvh w' t = VhWaiting i \<Longrightarrow> wvh w t = VhWaiting i" and "unrecorded i w' \<Longrightarrow> unrecorded i w"
  shows "one_claim i w'"
  using assms unfolding one_claim_def unclaimed_def by metis

lemma one_claim_record:
  assumes "one_claim i w" and "owned w" and t: "wvh w t = VhFetched r i"
    and w': "wvh w' = (wvh w)(t := VhIssued r i)" "issued_log w' = issued_log w" "taken_log w' = taken_log w"
  shows "one_claim i w'"
proof -
  have mine: "in_flight (wvh w t) = Some (r, i)" using t by simp
  then have "i \<in> set (issued_log w)" using assms(2) unfolding owned_def by blast
  moreover have "t' = t" if "wvh w t' = VhFetched r' i" for t' r'
    using assms(2) mine that unfolding owned_def by (metis in_flight.simps(1))
  ultimately have "\<not> unrecorded i w'" using w' by (auto simp: unrecorded_def split: if_splits)
  moreover have "unrecorded i w" using t by (auto simp: unrecorded_def)
  then have "unclaimed i w" using assms(1) by (simp add: one_claim_def)
  then have "unclaimed i w'" using w' by (auto simp: unclaimed_def taken_ids_def split: if_splits)
  ultimately show ?thesis by (auto simp: one_claim_def unclaimed_def)
qed

lemma one_claim_vh:
  assumes "vh_step t w w'" and "one_claim i w" and "owned w" and "distinct (issued_log w')"
    and "\<And>t. wvh w t \<noteq> VhClosing i"
  shows "one_claim i w'"
  using assms(1)
proof (cases rule: vh_step.cases)
  case (record_id r j)
  show ?thesis
  proof (cases "j = i")
    case True
    then show ?thesis using one_claim_record [OF assms(2,3), of t r w'] record_id by (simp add: goto_def)
  next
    case False
    show ?thesis
      by (rule one_claim_frame [OF assms(2)])
        (use False record_id in \<open>auto simp: goto_def taken_ids_def unrecorded_def split: if_splits\<close>)
  qed
next
  case (peek j c q')
  show ?thesis
  proof (cases "j = i")
    case True
    then have "unclaimed i w" "\<not> unrecorded i w" using assms(2) peek by (auto simp: one_claim_def)
    then show ?thesis using True peek by (auto simp: one_claim_def unclaimed_def unrecorded_def)
  next
    case False
    show ?thesis
      by (rule one_claim_frame [OF assms(2)])
        (use False peek take_views(2) [OF peek(4)] in \<open>auto simp: taken_ids_def unrecorded_def\<close>)
  qed
next
  case (wait_begin j)
  show ?thesis
  proof (cases "j = i")
    case True
    then have "unclaimed i w" "\<not> unrecorded i w" using assms(2) wait_begin by (auto simp: one_claim_def)
    then show ?thesis using True wait_begin
      by (auto simp: one_claim_def unclaimed_def unrecorded_def goto_def taken_ids_def split: if_splits)
  next
    case False
    show ?thesis
      by (rule one_claim_frame [OF assms(2)])
        (use False wait_begin in \<open>auto simp: goto_def taken_ids_def unrecorded_def split: if_splits\<close>)
  qed
next
  case (wait_end j c q')
  show ?thesis
  proof (cases "j = i")
    case True
    have "wvh w' t' \<noteq> VhWaiting i" for t'
      using assms(2) True wait_end by (cases "t' = t") (auto simp: one_claim_def goto_def)
    moreover have "\<not> unrecorded i w" "i \<notin> wrem w"
      using assms(2) True wait_end by (auto simp: one_claim_def unclaimed_def)
    then have "\<not> unrecorded i w'" "i \<notin> wrem w'"
      using wait_end by (auto simp: unrecorded_def goto_def split: if_splits)
    ultimately show ?thesis by (simp add: one_claim_def)
  next
    case False
    show ?thesis
      by (rule one_claim_frame [OF assms(2)])
        (use False wait_end take_views(5) [OF wait_end(3)] in
          \<open>auto simp: goto_def taken_ids_def unrecorded_def split: if_splits\<close>)
  qed
next
  case (close_end j c q')
  then have "j \<noteq> i" using assms(5) by auto
  show ?thesis
    by (rule one_claim_frame [OF assms(2)])
      (use \<open>j \<noteq> i\<close> close_end take_views(5) [OF close_end(3)] in
        \<open>auto simp: goto_def taken_ids_def unrecorded_def split: if_splits\<close>)
next
  case (found_closed r j)
  show ?thesis
    by (rule one_claim_frame [OF assms(2)])
      (use found_closed refused_cases [of r j] in
        \<open>auto simp: goto_def taken_ids_def unrecorded_def split: if_splits\<close>)
next
  case (push r j)
  show ?thesis
    by (rule one_claim_frame [OF assms(2)])
      (use push accepted_cases [of r j] in
        \<open>auto simp: goto_def taken_ids_def unrecorded_def split: if_splits\<close>)
qed (rule one_claim_frame [OF assms(2)];
     use assms(4) in \<open>auto simp: goto_def taken_ids_def unrecorded_def split: if_splits\<close>)+

lemma run_one_claim:
  assumes "run_of \<sigma>" and "\<And>m. few_ids (\<sigma> m)" and "\<And>m t. wvh (\<sigma> m) t \<noteq> VhClosing i"
  shows "one_claim i (\<sigma> n)"
proof (induction n)
  case 0
  show ?case using assms(1) by (simp add: run_of_def fresh_world_def claim_defs)
next
  case (Suc n)
  have r: "reach (\<sigma> n)" "reach (\<sigma> (Suc n))" using run_reach [OF assms(1)] by auto
  have ids: "distinct (issued_log (\<sigma> m))" for m
    using reach_issued(1) [OF run_reach [OF assms(1)]] assms(2) by (simp add: few_ids_def)
  have "\<sigma> (Suc n) = \<sigma> n \<or> step (\<sigma> n) (\<sigma> (Suc n))" using assms(1) by (auto simp: run_of_def)
  then show ?case
    using Suc.IH one_claim_pt one_claim_vh [OF _ Suc.IH reach_owned [OF r(1) ids] ids assms(3)]
    unfolding step_def by metis
qed

text \<open>A waiting thread goes on only with the result, and no other thread takes it.\<close>

lemma waiting_step:
  assumes "step w w'" and "wvh w t = VhWaiting i"
  shows "wvh w' t = VhWaiting i \<or> wvh w' t = VhIdle \<and> i \<in> taken_ids w'"
proof (cases "pt_step w w'")
  case False
  then obtain t' where "vh_step t' w w'" using assms(1) by (auto simp: step_def)
  then show ?thesis
    using assms(2)
    by (cases rule: vh_step.cases; cases "t' = t") (auto simp: goto_def taken_ids_def take_views)
qed (simp add: logs_pt assms(2))

lemma done_taken_or_ready:
  assumes "reach w" and "answered i w" and "i \<notin> taken_ids w"
  shows "i \<in> set (completed_ids w)"
proof -
  obtain c where "c \<in> set (done_log w)" "cmd_id c = i" using assms(2) by (auto simp: answered_def)
  moreover have "set (done_log w) = set (bq_queue (completion (wq w))) \<union> set (taken_log w)"
    using reach_accounted [OF assms(1)] by (metis accounted_def mset_append set_append set_mset_mset)
  ultimately show ?thesis using assms(3) by (auto simp: completed_ids_def taken_ids_def)
qed

lemma wait_enabled:
  assumes "wvh w t = VhWaiting i" and "i \<in> set (completed_ids w)"
  shows "Ex (vh_step t w)"
proof -
  have "fst (tryFindNoLock (completion (wq w)) i) \<noteq> None"
    using assms(2) bq.find_key_None_iff [of "completion (wq w)" i] by (simp add: completed_ids_def)
  then obtain c q' where "waitCompletion (wq w) i = Some (c, q')"
    by (cases "tryFindNoLock (completion (wq w)) i") (auto simp: waitCompletion_def bq_wait_def)
  with assms(1) show ?thesis by (blast intro: vh_step.wait_end)
qed

text \<open>The steps of a thread inside \<^verbatim>\<open>waitCompletion\<close>.\<close>

definition wait_step :: "nat \<Rightarrow> u64 \<Rightarrow> world \<Rightarrow> world \<Rightarrow> bool" where
  "wait_step t i w w' \<longleftrightarrow> wvh w t = VhWaiting i \<and> vh_step t w w'"


section \<open>Finite runs\<close>

text \<open>A finite run is the beginning of an infinite one, which then rests.\<close>

definition rests :: "(nat \<Rightarrow> world) \<Rightarrow> nat \<Rightarrow> world \<Rightarrow> bool" where
  "rests \<sigma> k w \<longleftrightarrow> run_of \<sigma> \<and> (\<forall>m \<ge> k. \<sigma> m = w)"

definition moves_within :: "(world \<Rightarrow> bool) \<Rightarrow> world \<Rightarrow> world \<Rightarrow> bool" where
  "moves_within I w w' \<longleftrightarrow> step w w' \<and> I w'"

lemma rests_extend:
  assumes "rests \<sigma> k w" and "step w w'"
  shows "rests (\<lambda>m. if m \<le> k then \<sigma> m else w') (Suc k) w'"
  using assms by (auto simp: rests_def run_of_def le_Suc_eq)

lemma rests_path:
  assumes "rests \<sigma> k w" and "\<And>m. I (\<sigma> m)" and "(moves_within I)\<^sup>*\<^sup>* w w'"
  shows "\<exists>\<sigma>' k'. rests \<sigma>' k' w' \<and> (\<forall>m. I (\<sigma>' m)) \<and> k \<le> k' \<and> \<sigma>' k = w"
  using assms(3)
proof (induction rule: rtranclp_induct)
  case base
  then show ?case using assms(1,2) by (auto simp: rests_def)
next
  case (step v v')
  then obtain \<sigma>' k' where s: "rests \<sigma>' k' v" "\<forall>m. I (\<sigma>' m)" "k \<le> k'" "\<sigma>' k = w" by blast
  have "rests (\<lambda>m. if m \<le> k' then \<sigma>' m else v') (Suc k') v'"
    using rests_extend [OF s(1)] step.hyps(2) by (simp add: moves_within_def)
  then show ?case
    using s step.hyps(2)
    by (intro exI [of _ "\<lambda>m. if m \<le> k' then \<sigma>' m else v'"] exI [of _ "Suc k'"])
      (simp add: moves_within_def)
qed

lemma run_exists:
  assumes "I fresh_world" and "(moves_within I)\<^sup>*\<^sup>* fresh_world w" and "(moves_within I)\<^sup>*\<^sup>* w w'"
  shows "\<exists>\<sigma> n k. run_of \<sigma> \<and> \<sigma> n = w \<and> n \<le> k \<and> (\<forall>m \<ge> k. \<sigma> m = w') \<and> (\<forall>m. I (\<sigma> m))"
proof -
  have "rests (\<lambda>_. fresh_world) 0 fresh_world" by (simp add: rests_def run_of_def)
  from rests_path [OF this, of I, OF assms(1,2)] obtain \<sigma> n
    where "rests \<sigma> n w" "\<And>m. I (\<sigma> m)" by blast
  from rests_path [OF this assms(3)] show ?thesis unfolding rests_def by metis
qed

lemma fair_rest: "(\<forall>m \<ge> k. \<sigma> m = w) \<Longrightarrow> \<not> Ex (moves w) \<Longrightarrow> fair moves \<sigma>"
  by (auto simp: fair_def) (metis nle_le)

lemma pt_disabled:
  "wpt w = PtEnded \<Longrightarrow> \<not> Ex (pt_step w)"
  "wpt w = PtLoop \<Longrightarrow> wstate w = VEO_STATE_BLOCKED \<Longrightarrow> bq_queue (request (wq w)) = [] \<Longrightarrow> \<not> Ex (pt_step w)"
  by (auto elim!: pt_step.cases simp: popRequest_eq)

lemma moves_within_vh:
  "(moves_within I)\<^sup>*\<^sup>* w v \<Longrightarrow> vh_step t v v' \<Longrightarrow> I v' \<Longrightarrow> (moves_within I)\<^sup>*\<^sup>* w v'"
  by (erule rtranclp.rtrancl_into_rtrancl) (auto simp: moves_within_def step_def)

lemma moves_within_pt:
  "(moves_within I)\<^sup>*\<^sup>* w v \<Longrightarrow> pt_step v v' \<Longrightarrow> I v' \<Longrightarrow> (moves_within I)\<^sup>*\<^sup>* w v'"
  by (erule rtranclp.rtrancl_into_rtrancl) (auto simp: moves_within_def step_def)

end
