(* ===== verification/Progress_Examples.thy ===== *)
theory Progress_Examples
  imports Progress
begin

text \<open>
  A complete run of one context: thread 0 requests a transfer, waits for it and gets the
  result, or the transfer fails.  It instantiates the theorems on refinement and progress.
\<close>

section \<open>The run\<close>

abbreviation ex_req :: req where
  "ex_req \<equiv> Plain (ReadMem 0 0 8)"

abbreviation ex_cmd :: cmd where
  "ex_cmd \<equiv> new_Command 0 (ReadMem 0 0 8)"

definition ex_calm :: "world \<Rightarrow> bool" where
  "ex_calm w \<longleftrightarrow> (\<forall>t. wvh w t \<noteq> VhClosing 0) \<and> wpt w \<noteq> PtEnded \<and> length (issued_log w) < 2"

definition ex_world :: "vh_pc \<Rightarrow> pt_pc \<Rightarrow> cmd list \<Rightarrow> u64 list \<Rightarrow> u64 set \<Rightarrow> world" where
  "ex_world vh pt cs pushed rems =
     \<lparr>wq = new_CommQueue\<lparr>request := \<lparr>bq_queue = cs, bq_state = VEO_QUEUE_READY\<rparr>\<rparr>,
      wstate = VEO_STATE_BLOCKED, wseq = 1, wrem = rems, wvh = (\<lambda>_. VhIdle)(0 := vh), wpt = pt,
      issued_log = [0], pushed_log = pushed, done_log = [], taken_log = []\<rparr>"

definition ex_waiting :: world where
  "ex_waiting = ex_world (VhWaiting 0) PtLoop [ex_cmd] [0] {}"

definition ex_running :: world where
  "ex_running = ex_world (VhWaiting 0) (PtRunning ex_cmd) [] [0] {}"

definition ex_failed :: world where
  "ex_failed = ex_running\<lparr>wpt := PtFailed (setResult ex_cmd 1 VEO_COMMAND_ERROR), wstate := VEO_STATE_EXIT\<rparr>"

definition ex_finished :: world where
  "ex_finished = complete (setResult ex_cmd 0 VEO_COMMAND_OK) (ex_running\<lparr>wpt := PtLoop, wstate := VEO_STATE_BLOCKED\<rparr>)"

definition ex_returned :: world where
  "ex_returned = goto 0 VhIdle (ex_finished\<lparr>wq := new_CommQueue,
     taken_log := taken_log ex_finished @ [setResult ex_cmd 0 VEO_COMMAND_OK]\<rparr>)"

lemmas ex_worlds = ex_world_def ex_waiting_def ex_running_def ex_finished_def ex_failed_def
  ex_returned_def ex_calm_def goto_def complete_def state_simps

lemma ex_to_issued: "(moves_within ex_calm)\<^sup>*\<^sup>* fresh_world (ex_world (VhIssued ex_req 0) PtLoop [] [] {0})"
proof -
  let ?w1 = "goto 0 (VhChecked ex_req) fresh_world"
  let ?w2 = "ex_world (VhFetched ex_req 0) PtLoop [] [] {}"
  let ?w3 = "ex_world (VhIssued ex_req 0) PtLoop [] [] {0}"
  have "(moves_within ex_calm)\<^sup>*\<^sup>* fresh_world ?w1"
    by (rule moves_within_vh [OF rtranclp.rtrancl_refl vh_step.check])
      (auto simp: fresh_world_def ex_worlds)
  moreover have "?w2 = goto 0 (VhFetched ex_req (wseq ?w1))
      (?w1\<lparr>wseq := wseq ?w1 + 1, issued_log := issued_log ?w1 @ [wseq ?w1]\<rparr>)"
    by (simp add: fresh_world_def ex_worlds new_CommQueue_def new_BlockingQueue_def)
  then have "vh_step 0 ?w1 ?w2"
    using vh_step.fetch [of ?w1 0 ex_req]
    by (simp add: goto_def fresh_world_def VEO_REQUEST_ID_INVALID_def)
  ultimately have "(moves_within ex_calm)\<^sup>*\<^sup>* fresh_world ?w2"
    by (rule moves_within_vh) (simp add: ex_worlds)
  moreover have "vh_step 0 ?w2 ?w3"
    using vh_step.record_id [of ?w2 0 ex_req 0] by (simp add: ex_worlds)
  ultimately show ?thesis
    by (rule moves_within_vh) (simp add: ex_worlds)
qed

lemma ex_to_waiting: "(moves_within ex_calm)\<^sup>*\<^sup>* fresh_world ex_waiting"
proof -
  let ?w3 = "ex_world (VhIssued ex_req 0) PtLoop [] [] {0}"
  let ?w4 = "ex_world (VhPushing ex_req 0) PtLoop [] [] {0}"
  let ?w5 = "ex_world (VhReturned 0) PtLoop [ex_cmd] [0] {0}"
  let ?w6 = "ex_world VhIdle PtLoop [ex_cmd] [0] {0}"
  note ex_to_issued
  moreover have "vh_step 0 ?w3 ?w4"
    using vh_step.found_open [of ?w3 0 ex_req 0] by (simp add: ex_worlds)
  ultimately have "(moves_within ex_calm)\<^sup>*\<^sup>* fresh_world ?w4"
    by (rule moves_within_vh) (simp add: ex_worlds)
  moreover have "vh_step 0 ?w4 ?w5"
    using vh_step.push [of ?w4 0 ex_req 0] by (simp add: ex_worlds bq_push_def)
  ultimately have "(moves_within ex_calm)\<^sup>*\<^sup>* fresh_world ?w5"
    by (rule moves_within_vh) (simp add: ex_worlds)
  moreover have "vh_step 0 ?w5 ?w6"
    using vh_step.resume [of ?w5 0 0] by (simp add: ex_worlds)
  ultimately have "(moves_within ex_calm)\<^sup>*\<^sup>* fresh_world ?w6"
    by (rule moves_within_vh) (simp add: ex_worlds)
  moreover have "vh_step 0 ?w6 ex_waiting"
    using vh_step.wait_begin [of ?w6 0 0] by (simp add: ex_worlds)
  ultimately show ?thesis
    by (rule moves_within_vh) (simp add: ex_worlds)
qed

lemma ex_to_running: "(moves_within ex_calm)\<^sup>*\<^sup>* ex_waiting ex_running"
proof -
  have "pt_step ex_waiting ex_running"
    using pt_step.pop [of ex_waiting ex_cmd "wq ex_running"] by (simp add: ex_worlds popRequest_eq)
  then show ?thesis
    by (rule moves_within_pt [OF rtranclp.rtrancl_refl]) (simp add: ex_worlds)
qed

lemma ex_to_returned: "(moves_within ex_calm)\<^sup>*\<^sup>* ex_waiting ex_returned"
proof -
  have "pt_step ex_running ex_finished"
    using pt_step.succeed [of ex_running ex_cmd VEO_STATE_BLOCKED 0 VEO_COMMAND_OK]
    by (simp add: ex_worlds)
  with ex_to_running have "(moves_within ex_calm)\<^sup>*\<^sup>* ex_waiting ex_finished"
    by (rule moves_within_pt) (simp add: ex_worlds)
  moreover have "vh_step 0 ex_finished ex_returned"
    unfolding ex_returned_def
    by (rule vh_step.wait_end)
      (simp_all add: ex_worlds pushCompletion_def bq_push_def waitCompletion_def bq_wait_def tryFindNoLock_def new_CommQueue_def new_BlockingQueue_def)
  ultimately show ?thesis
    by (rule moves_within_vh) (simp add: ex_worlds)
qed

definition ex_draining :: world where
  "ex_draining = complete (setResult ex_cmd 1 VEO_COMMAND_ERROR)
     (ex_failed\<lparr>wq := setRequestStatus (wq ex_failed) VEO_QUEUE_CLOSED, wpt := PtDraining None\<rparr>)"

lemma ex_waiting_to_failed: "(moves_within ex_calm)\<^sup>*\<^sup>* ex_waiting ex_failed"
proof -
  have "pt_step ex_running ex_failed"
    unfolding ex_failed_def by (rule pt_step.fail) (simp_all add: ex_worlds)
  with ex_to_running show ?thesis
    by (rule moves_within_pt) (simp add: ex_worlds)
qed

lemma ex_failed_to_draining: "(moves_within ex_calm)\<^sup>*\<^sup>* ex_failed ex_draining"
proof -
  let ?c = "setResult ex_cmd 1 VEO_COMMAND_ERROR"
  let ?w = "ex_failed\<lparr>wpt := PtClosed ?c, wq := setRequestStatus (wq ex_failed) VEO_QUEUE_CLOSED\<rparr>"
  have "pt_step ex_failed ?w"
    by (rule pt_step.shut) (simp add: ex_worlds)
  then have "(moves_within ex_calm)\<^sup>*\<^sup>* ex_failed ?w"
    by (rule moves_within_pt [OF rtranclp.rtrancl_refl]) (simp add: ex_worlds)
  moreover have "pt_step ?w ex_draining"
    using pt_step.report [of ?w ?c] by (simp add: ex_draining_def)
  ultimately show ?thesis
    by (rule moves_within_pt) (simp add: ex_worlds ex_draining_def)
qed

lemma moves_within_any: "(moves_within I)\<^sup>*\<^sup>* w w' \<Longrightarrow> (moves_within (\<lambda>_. True))\<^sup>*\<^sup>* w w'"
  by (erule rtranclp_mono [THEN predicate2D, rotated]) (auto simp: moves_within_def)

lemma ex_failed_to_ended:
  "(moves_within (\<lambda>_. True))\<^sup>*\<^sup>* ex_failed (ex_draining\<lparr>wpt := PtEnded\<rparr>)"
proof -
  have "pt_step ex_draining (ex_draining\<lparr>wpt := PtEnded\<rparr>)"
    by (rule pt_step.finish)
      (simp_all add: ex_draining_def ex_worlds setRequestStatus_def setStatus_def popNoWait_def)
  with moves_within_any [OF ex_failed_to_draining] show ?thesis
    by (rule moves_within_pt) simp
qed

lemma moves_within_leads: "(moves_within I)\<^sup>*\<^sup>* w w' \<Longrightarrow> leads_to w w'"
  unfolding leads_to_rtranclp
  by (erule rtranclp_mono [THEN predicate2D, rotated]) (auto simp: moves_within_def)

lemma moves_within_reach: "(moves_within I)\<^sup>*\<^sup>* fresh_world w \<Longrightarrow> reach w"
  using leads_to_reach [OF moves_within_leads reach.init] .

lemma ex_calm_fresh: "ex_calm fresh_world"
  by (simp add: ex_calm_def fresh_world_def)

section \<open>Instances\<close>

theorem context_refines_service_witness:
  "service_step (service_of ex_running) (service_of ex_finished)"
proof -
  have "pt_step ex_running ex_finished"
    using pt_step.succeed [of ex_running ex_cmd VEO_STATE_BLOCKED 0 VEO_COMMAND_OK]
    by (simp add: ex_worlds)
  then have "step ex_running ex_finished" by (simp add: step_def)
  moreover have "reach ex_running"
    using moves_within_reach [OF rtranclp_trans [OF ex_to_waiting ex_to_running]] .
  moreover have "service_of ex_finished \<noteq> service_of ex_running"
    by (simp add: service_of_def ex_worlds)
  ultimately show ?thesis
    using context_refines_service [of ex_running ex_finished] by (simp add: ex_worlds)
qed

theorem failure_is_final_witness:
  "done_log (ex_draining\<lparr>wpt := PtEnded\<rparr>) = done_log ex_draining @ []"
proof -
  have "reach (ex_draining\<lparr>wpt := PtEnded\<rparr>)"
    using moves_within_reach rtranclp_trans [OF moves_within_any
        [OF rtranclp_trans [OF ex_to_waiting ex_waiting_to_failed]] ex_failed_to_ended] by blast
  from failure_is_final [OF this _ leads_to.now] show ?thesis
    by (simp add: ex_draining_def ex_worlds)
qed


theorem failure_completes_queued_requests_witness:
  "\<exists>\<sigma> n m. run_of \<sigma> \<and> \<sigma> n = ex_failed \<and> n \<le> m \<and> 0 \<in> cmd_id ` set (done_log (\<sigma> m))"
proof -
  obtain \<sigma> n k where \<sigma>: "run_of \<sigma>" "\<sigma> n = ex_failed" "\<forall>m \<ge> k. \<sigma> m = ex_draining\<lparr>wpt := PtEnded\<rparr>"
    using run_exists [OF _ moves_within_any [OF rtranclp_trans [OF ex_to_waiting ex_waiting_to_failed]]
        ex_failed_to_ended] by blast
  have "fair pt_step \<sigma>"
    by (rule fair_rest [OF \<sigma>(3) pt_disabled(1)]) simp
  moreover have "0 \<in> set (pushed_log (\<sigma> n))" "\<exists>c. wpt (\<sigma> n) = PtFailed c"
    using \<sigma>(2) by (simp_all add: ex_worlds)
  ultimately have "\<exists>m \<ge> n. 0 \<in> cmd_id ` set (done_log (\<sigma> m))"
    by (intro failure_completes_queued_requests [OF \<sigma>(1)]) auto
  then show ?thesis using \<sigma>(1,2) by blast
qed


end
