(* ===== verification/Symbol_Threads.thy ===== *)
theory Symbol_Threads
  imports Process
begin

text \<open>
  Several VH threads in \<^verbatim>\<open>ProcHandle::getSym\<close> at once.  The function is cut at the operations
  of \<^verbatim>\<open>sym_mtx\<close>: it searches the table under the mutex, asks the VE without it, and stores the
  answer under the mutex again.  When the search succeeds, the mutex is released before the
  address is read through the iterator.  What the VE answers is left open; a log keeps it.
\<close>

section \<open>Threads\<close>

type_synonym sym_key = "u64 \<times> bytes"

datatype sym_pc =
    SymIdle
  | SymBegin sym_key
  | SymSearch sym_key
  | SymHit sym_key
  | SymAsk sym_key
  | SymGot sym_key u64
  | SymStore sym_key u64
  | SymStored sym_key u64
  | SymDone sym_key u64

record sym_world =
  sw_lock :: "nat option"
  sw_table :: "sym_key \<rightharpoonup> u64"
  sw_pc :: "nat \<Rightarrow> sym_pc"
  sw_answers :: "(sym_key \<times> u64) list"

definition sym_goto :: "nat \<Rightarrow> sym_pc \<Rightarrow> sym_world \<Rightarrow> sym_world" where
  "sym_goto t pc w = w\<lparr>sw_pc := (sw_pc w)(t := pc)\<rparr>"

inductive sym_step :: "nat \<Rightarrow> sym_world \<Rightarrow> sym_world \<Rightarrow> bool" for t where
  begin_call: "sw_pc w t = SymIdle \<Longrightarrow> length (snd k) \<le> VEO_SYMNAME_LEN_MAX \<Longrightarrow>
    sym_step t w (sym_goto t (SymBegin k) w)"
| lock_search: "sw_pc w t = SymBegin k \<Longrightarrow> sw_lock w = None \<Longrightarrow>
    sym_step t w (sym_goto t (SymSearch k) (w\<lparr>sw_lock := Some t\<rparr>))"
| hit: "sw_pc w t = SymSearch k \<Longrightarrow> sw_table w k \<noteq> None \<Longrightarrow>
    sym_step t w (sym_goto t (SymHit k) (w\<lparr>sw_lock := None\<rparr>))"
| read_hit: "sw_pc w t = SymHit k \<Longrightarrow> sw_table w k = Some v \<Longrightarrow>
    sym_step t w (sym_goto t (SymDone k v) w)"
| miss: "sw_pc w t = SymSearch k \<Longrightarrow> sw_table w k = None \<Longrightarrow>
    sym_step t w (sym_goto t (SymAsk k) (w\<lparr>sw_lock := None\<rparr>))"
| answer: "sw_pc w t = SymAsk k \<Longrightarrow>
    sym_step t w (sym_goto t (if v = 0 then SymDone k v else SymGot k v)
      (w\<lparr>sw_answers := sw_answers w @ [(k, v)]\<rparr>))"
| throws: "sw_pc w t = SymAsk k \<Longrightarrow> sym_step t w (sym_goto t SymIdle w)"
| lock_store: "sw_pc w t = SymGot k v \<Longrightarrow> sw_lock w = None \<Longrightarrow>
    sym_step t w (sym_goto t (SymStore k v) (w\<lparr>sw_lock := Some t\<rparr>))"
| store: "sw_pc w t = SymStore k v \<Longrightarrow>
    sym_step t w (sym_goto t (SymStored k v) (w\<lparr>sw_table := (sw_table w)(k \<mapsto> v)\<rparr>))"
| unlock: "sw_pc w t = SymStored k v \<Longrightarrow>
    sym_step t w (sym_goto t (SymDone k v) (w\<lparr>sw_lock := None\<rparr>))"
| return_call: "sw_pc w t = SymDone k v \<Longrightarrow> sym_step t w (sym_goto t SymIdle w)"

definition sym_fresh :: sym_world where
  "sym_fresh = \<lparr>sw_lock = None, sw_table = Map.empty, sw_pc = (\<lambda>_. SymIdle), sw_answers = []\<rparr>"

inductive sym_reach :: "sym_world \<Rightarrow> bool" where
  init: "sym_reach sym_fresh"
| more: "sym_reach w \<Longrightarrow> sym_step t w w' \<Longrightarrow> sym_reach w'"

section \<open>Invariants\<close>

fun holds_lock :: "sym_pc \<Rightarrow> bool" where
  "holds_lock (SymSearch k) = True"
| "holds_lock (SymStore k v) = True"
| "holds_lock (SymStored k v) = True"
| "holds_lock pc = False"

definition sym_exclusive :: "sym_world \<Rightarrow> bool" where
  "sym_exclusive w \<longleftrightarrow> (\<forall>t. holds_lock (sw_pc w t) \<longleftrightarrow> sw_lock w = Some t)"

text \<open>What a thread knows at each point.\<close>

fun sym_pc_ok :: "sym_world \<Rightarrow> sym_pc \<Rightarrow> bool" where
  "sym_pc_ok w (SymHit k) \<longleftrightarrow> sw_table w k \<noteq> None"
| "sym_pc_ok w (SymGot k v) \<longleftrightarrow> v \<noteq> 0 \<and> (k, v) \<in> set (sw_answers w)"
| "sym_pc_ok w (SymStore k v) \<longleftrightarrow> v \<noteq> 0 \<and> (k, v) \<in> set (sw_answers w)"
| "sym_pc_ok w (SymStored k v) \<longleftrightarrow> v \<noteq> 0 \<and> (k, v) \<in> set (sw_answers w)"
| "sym_pc_ok w (SymDone k v) \<longleftrightarrow> (k, v) \<in> set (sw_answers w)"
| "sym_pc_ok w pc \<longleftrightarrow> True"

definition sym_sound :: "sym_world \<Rightarrow> bool" where
  "sym_sound w \<longleftrightarrow> (\<forall>k v. sw_table w k = Some v \<longrightarrow> v \<noteq> 0 \<and> (k, v) \<in> set (sw_answers w))
     \<and> (\<forall>t. sym_pc_ok w (sw_pc w t))"

text \<open>What a thread knows stays true: the table and the log only grow.\<close>

lemma sym_pc_ok_mono:
  assumes "sym_pc_ok w pc" and "dom (sw_table w) \<subseteq> dom (sw_table w')"
    and "set (sw_answers w) \<subseteq> set (sw_answers w')"
  shows "sym_pc_ok w' pc"
  using assms by (cases pc) auto

lemma sym_exclusive_step:
  assumes "sym_step t w w'" and "sym_exclusive w" shows "sym_exclusive w'"
proof -
  have ex: "holds_lock (sw_pc w t') \<longleftrightarrow> sw_lock w = Some t'" for t'
    using assms(2) by (simp add: sym_exclusive_def)
  have "holds_lock (sw_pc w' t') \<longleftrightarrow> sw_lock w' = Some t'" for t'
    using assms(1) ex [of t] ex [of t']
    by (cases rule: sym_step.cases; cases "t' = t") (auto simp: sym_goto_def)
  then show ?thesis by (simp add: sym_exclusive_def)
qed

lemma sym_sound_step:
  assumes "sym_step t w w'" and "sym_sound w" shows "sym_sound w'"
proof -
  have pc: "sym_pc_ok w (sw_pc w t')" for t' using assms(2) by (simp add: sym_sound_def)
  have grow: "dom (sw_table w) \<subseteq> dom (sw_table w')" "set (sw_answers w) \<subseteq> set (sw_answers w')"
    and others: "\<And>t'. t' \<noteq> t \<Longrightarrow> sw_pc w' t' = sw_pc w t'"
    using assms(1) by (cases rule: sym_step.cases; auto simp: sym_goto_def)+
  have table: "\<forall>k v. sw_table w' k = Some v \<longrightarrow> v \<noteq> 0 \<and> (k, v) \<in> set (sw_answers w')"
    using assms pc [of t]
    by (cases rule: sym_step.cases) (auto simp: sym_sound_def sym_goto_def split: if_splits)
  have "sym_pc_ok w' (sw_pc w' t)"
    using assms pc [of t]
    by (cases rule: sym_step.cases) (auto simp: sym_sound_def sym_goto_def)
  moreover have "sym_pc_ok w' (sw_pc w' t')" if "t' \<noteq> t" for t'
    using sym_pc_ok_mono [OF pc grow] others [OF that] by simp
  ultimately have "\<forall>t'. sym_pc_ok w' (sw_pc w' t')" by metis
  with table show ?thesis unfolding sym_sound_def by blast
qed

lemma sym_reach_exclusive: "sym_reach w \<Longrightarrow> sym_exclusive w"
  by (induction rule: sym_reach.induct)
    (simp add: sym_exclusive_def sym_fresh_def, blast intro: sym_exclusive_step)

lemma sym_reach_sound: "sym_reach w \<Longrightarrow> sym_sound w"
  by (induction rule: sym_reach.induct)
    (simp add: sym_sound_def sym_fresh_def, blast intro: sym_sound_step)


section \<open>No deadlock\<close>

lemma sym_holder_moves:
  assumes "holds_lock (sw_pc w t)" shows "Ex (sym_step t w)"
proof (cases "sw_pc w t")
  case (SymSearch k)
  then show ?thesis by (cases "sw_table w k") (blast intro: sym_step.hit sym_step.miss)+
qed (use assms in \<open>auto intro: sym_step.store sym_step.unlock\<close>)

lemma sym_free_moves:
  assumes "sw_lock w = None" and "sym_pc_ok w (sw_pc w t)" and "\<not> holds_lock (sw_pc w t)"
    and "sw_pc w t \<noteq> SymIdle"
  shows "Ex (sym_step t w)"
  using assms
  by (cases "sw_pc w t")
    (auto intro: sym_step.lock_search sym_step.read_hit sym_step.answer sym_step.lock_store
      sym_step.return_call)

text \<open>
  No deadlock on \<^verbatim>\<open>sym_mtx\<close>.  Whenever a thread is inside \<^verbatim>\<open>getSym\<close>, that thread or the one that
  holds the mutex can go on.
\<close>

theorem symbol_search_not_stuck:
  assumes "sym_reach w" and "sw_pc w t \<noteq> SymIdle"
  shows "\<exists>t'. (t' = t \<or> holds_lock (sw_pc w t')) \<and> sw_pc w t' \<noteq> SymIdle \<and> (\<exists>w'. sym_step t' w w')"
proof (cases "sw_lock w")
  case None
  then have "\<not> holds_lock (sw_pc w t)" "sym_pc_ok w (sw_pc w t)"
    using sym_reach_exclusive [OF assms(1)] sym_reach_sound [OF assms(1)]
    by (simp_all add: sym_exclusive_def sym_sound_def)
  with None assms(2) show ?thesis using sym_free_moves by blast
next
  case (Some t')
  then have "holds_lock (sw_pc w t')"
    using sym_reach_exclusive [OF assms(1)] by (simp add: sym_exclusive_def)
  then show ?thesis using sym_holder_moves by (metis holds_lock.simps(4))
qed

section \<open>The sequential function as a run\<close>

inductive sym_leads :: "sym_world \<Rightarrow> sym_world \<Rightarrow> bool" where
  now: "sym_leads w w"
| later: "sym_leads w w' \<Longrightarrow> sym_step t w' w'' \<Longrightarrow> sym_leads w w''"

lemma sym_leads_search:
  assumes "sw_pc w t = SymIdle" and "sw_lock w = None" and "length (snd k) \<le> VEO_SYMNAME_LEN_MAX"
  shows "sym_leads w (sym_goto t (SymSearch k) (w\<lparr>sw_lock := Some t\<rparr>))"
proof -
  let ?w1 = "sym_goto t (SymBegin k) w"
  have "sym_leads w ?w1"
    using sym_leads.later [OF sym_leads.now sym_step.begin_call] assms(1,3) by blast
  moreover have "sym_step t ?w1 (sym_goto t (SymSearch k) (?w1\<lparr>sw_lock := Some t\<rparr>))"
    by (rule sym_step.lock_search) (use assms(2) in \<open>simp_all add: sym_goto_def\<close>)
  ultimately show ?thesis
    using sym_leads.later by (fastforce simp: sym_goto_def)
qed

lemma sym_leads_hit:
  assumes "sw_pc w t = SymIdle" and "sw_lock w = None" and "length (snd k) \<le> VEO_SYMNAME_LEN_MAX"
    and "sw_table w k = Some v"
  shows "sym_leads w (sym_goto t (SymDone k v) w)"
proof -
  let ?w1 = "sym_goto t (SymSearch k) (w\<lparr>sw_lock := Some t\<rparr>)"
  let ?w2 = "sym_goto t (SymHit k) (?w1\<lparr>sw_lock := None\<rparr>)"
  have "sym_step t ?w1 ?w2"
    by (rule sym_step.hit) (use assms in \<open>simp_all add: sym_goto_def\<close>)
  from sym_leads.later [OF sym_leads_search [OF assms(1-3)] this] have "sym_leads w ?w2" .
  moreover have "sym_step t ?w2 (sym_goto t (SymDone k v) ?w2)"
    by (rule sym_step.read_hit) (use assms in \<open>simp_all add: sym_goto_def\<close>)
  ultimately have "sym_leads w (sym_goto t (SymDone k v) ?w2)" by (rule sym_leads.later)
  moreover have "sym_goto t (SymDone k v) ?w2 = sym_goto t (SymDone k v) w"
    using assms(2) by (cases w) (simp add: sym_goto_def)
  ultimately show ?thesis by simp
qed

lemma sym_leads_answer:
  assumes "sw_pc w t = SymIdle" and "sw_lock w = None" and "length (snd k) \<le> VEO_SYMNAME_LEN_MAX"
    and "sw_table w k = None"
  shows "sym_leads w (sym_goto t (if v = 0 then SymDone k v else SymGot k v)
     (w\<lparr>sw_answers := sw_answers w @ [(k, v)]\<rparr>))"
proof -
  let ?w1 = "sym_goto t (SymSearch k) (w\<lparr>sw_lock := Some t\<rparr>)"
  let ?w2 = "sym_goto t (SymAsk k) (?w1\<lparr>sw_lock := None\<rparr>)"
  let ?w3 = "sym_goto t (if v = 0 then SymDone k v else SymGot k v) (?w2\<lparr>sw_answers := sw_answers ?w2 @ [(k, v)]\<rparr>)"
  have "sym_step t ?w1 ?w2"
    by (rule sym_step.miss) (use assms in \<open>simp_all add: sym_goto_def\<close>)
  from sym_leads.later [OF sym_leads_search [OF assms(1-3)] this] have "sym_leads w ?w2" .
  moreover have "sym_step t ?w2 ?w3" by (rule sym_step.answer) (simp add: sym_goto_def)
  ultimately have "sym_leads w ?w3" by (rule sym_leads.later)
  moreover have "?w3 = sym_goto t (if v = 0 then SymDone k v else SymGot k v)
     (w\<lparr>sw_answers := sw_answers w @ [(k, v)]\<rparr>)"
    using assms(2) by (cases w) (simp add: sym_goto_def)
  ultimately show ?thesis by simp
qed

lemma sym_leads_stored:
  assumes "sym_leads w0 w" and "sw_pc w t = SymGot k v" and "sw_lock w = None"
  shows "sym_leads w0 (sym_goto t (SymDone k v) (w\<lparr>sw_table := (sw_table w)(k \<mapsto> v)\<rparr>))"
proof -
  let ?w1 = "sym_goto t (SymStore k v) (w\<lparr>sw_lock := Some t\<rparr>)"
  let ?w2 = "sym_goto t (SymStored k v) (?w1\<lparr>sw_table := (sw_table ?w1)(k \<mapsto> v)\<rparr>)"
  let ?w3 = "sym_goto t (SymDone k v) (?w2\<lparr>sw_lock := None\<rparr>)"
  have "sym_leads w0 ?w1"
    using sym_leads.later [OF assms(1) sym_step.lock_store] assms(2,3) by blast
  moreover have "sym_step t ?w1 ?w2" by (rule sym_step.store) (simp add: sym_goto_def)
  ultimately have "sym_leads w0 ?w2" by (rule sym_leads.later)
  moreover have "sym_step t ?w2 ?w3" by (rule sym_step.unlock) (simp add: sym_goto_def)
  ultimately have "sym_leads w0 ?w3" by (rule sym_leads.later)
  moreover have "?w3 = sym_goto t (SymDone k v) (w\<lparr>sw_table := (sw_table w)(k \<mapsto> v)\<rparr>)"
    using assms(3) by (cases w) (simp add: sym_goto_def)
  ultimately show ?thesis by simp
qed

text \<open>
  The sequential model of \<^verbatim>\<open>getSym\<close> is one of its interleavings: when it gives an address, a
  thread that runs \<^verbatim>\<open>getSym\<close> without interruption from a state with the same table returns that
  address, leaves the same table and releases the mutex.
\<close>

theorem getSym_is_a_run:
  assumes "c_string (vh_mem (wk s)) p = Some name" and "length name \<le> VEO_SYMNAME_LEN_MAX"
    and "getSym P libhdl p s = Some (Inr a, s')"
    and "sw_table w = sym_name (ph s)" and "sw_lock w = None" and "sw_pc w t = SymIdle"
  shows "\<exists>w'. sym_leads w w' \<and> sw_table w' = sym_name (ph s') \<and> sw_lock w' = None
     \<and> sw_pc w' = (sw_pc w)(t := SymDone (libhdl, name) a)"
proof (cases "sw_table w (libhdl, name)")
  case (Some v)
  then have "a = v" "s' = s"
    using assms(3,4) by (simp_all add: getSym_eq [OF assms(1,2)] sym_lookup_def)
  moreover have "sym_leads w (sym_goto t (SymDone (libhdl, name) v) w)"
    using sym_leads_hit [OF assms(6,5)] assms(2) Some by simp
  ultimately show ?thesis
    using assms(4,5) by (intro exI [of _ "sym_goto t (SymDone (libhdl, name) v) w"]) (simp add: sym_goto_def)
next
  case None
  let ?k = "(libhdl, name)"
  let ?w1 = "sym_goto t (if a = 0 then SymDone ?k a else SymGot ?k a) (w\<lparr>sw_answers := sw_answers w @ [(?k, a)]\<rparr>)"
  have w1: "sym_leads w ?w1"
    using sym_leads_answer [OF assms(6,5)] assms(2) None by simp
  have "sym_name (ph s') = (if a = 0 then sym_name (ph s) else (sym_name (ph s))(?k \<mapsto> a))"
    using assms(3,4) None
    by (auto simp: getSym_eq [OF assms(1,2)] sym_lookup_def sym_store_def
        dest!: on_worker_ph split: option.splits sum.splits if_splits)
  moreover have "sym_leads w (sym_goto t (SymDone ?k a) (?w1\<lparr>sw_table := (sw_table ?w1)(?k \<mapsto> a)\<rparr>))"
    if "a \<noteq> 0"
    by (rule sym_leads_stored [OF w1]) (use that assms(5) in \<open>simp_all add: sym_goto_def\<close>)
  ultimately show ?thesis
    using w1 assms(4,5)
    by (intro exI [of _ "if a = 0 then ?w1
        else sym_goto t (SymDone ?k a) (?w1\<lparr>sw_table := (sw_table ?w1)(?k \<mapsto> a)\<rparr>)"])
      (auto simp: sym_goto_def)
qed

section \<open>A race\<close>

lemma sym_leads_reach: "sym_leads w w' \<Longrightarrow> sym_reach w \<Longrightarrow> sym_reach w'"
  by (induction rule: sym_leads.induct) (auto intro: sym_reach.more)

text \<open>
  C40: the address is read without the mutex.  There is a run in which one thread has found a
  symbol, has released the mutex and is about to read the address through its iterator, while
  another thread, which had not found the symbol before, holds the mutex and is about to
  overwrite the same entry: a data race.
\<close>

theorem symbol_read_races_with_store:
  "\<exists>w k v. sym_reach w \<and> sw_pc w 0 = SymHit k \<and> sw_table w k \<noteq> None
     \<and> sw_pc w 1 = SymStore k v \<and> sw_lock w = Some 1"
proof -
  let ?k = "(7 :: u64, [102] :: bytes)"
  let ?v = "42 :: u64"
  let ?w1 = "sym_goto 1 (SymGot ?k ?v) (sym_fresh\<lparr>sw_answers := [(?k, ?v)]\<rparr>)"
  let ?w2 = "sym_goto 2 (SymGot ?k ?v) (?w1\<lparr>sw_answers := [(?k, ?v), (?k, ?v)]\<rparr>)"
  let ?w3 = "sym_goto 2 (SymDone ?k ?v) (?w2\<lparr>sw_table := [?k \<mapsto> ?v]\<rparr>)"
  let ?w4 = "sym_goto 0 (SymSearch ?k) (?w3\<lparr>sw_lock := Some 0\<rparr>)"
  let ?w5 = "sym_goto 0 (SymHit ?k) (?w4\<lparr>sw_lock := None\<rparr>)"
  let ?w6 = "sym_goto 1 (SymStore ?k ?v) (?w5\<lparr>sw_lock := Some 1\<rparr>)"
  note init = sym_leads_reach [OF _ sym_reach.init]
  have "sym_leads sym_fresh ?w1"
    using sym_leads_answer [of sym_fresh 1 ?k ?v] by (simp add: sym_fresh_def VEO_SYMNAME_LEN_MAX_def)
  from init [OF this] have "sym_reach ?w1" .
  moreover have "sym_leads ?w1 ?w2"
    using sym_leads_answer [of ?w1 2 ?k ?v]
    by (simp add: sym_fresh_def sym_goto_def VEO_SYMNAME_LEN_MAX_def)
  then have "sym_leads ?w1 ?w3"
    using sym_leads_stored [of ?w1 ?w2 2 ?k ?v] by (simp add: sym_goto_def sym_fresh_def)
  ultimately have w3: "sym_reach ?w3" using sym_leads_reach by blast
  have "sym_leads ?w3 ?w4"
    by (rule sym_leads_search) (simp_all add: sym_goto_def sym_fresh_def VEO_SYMNAME_LEN_MAX_def)
  then have "sym_reach ?w4" using w3 sym_leads_reach by blast
  then have "sym_reach ?w5"
    by (rule sym_reach.more [OF _ sym_step.hit]) (simp_all add: sym_goto_def)
  then have "sym_reach ?w6"
    by (rule sym_reach.more [OF _ sym_step.lock_store]) (simp_all add: sym_goto_def)
  then show ?thesis
    by (intro exI [of _ ?w6] exI [of _ ?k] exI [of _ ?v]) (simp add: sym_goto_def)
qed

end
