(* ===== verification/Symbol_Examples.thy ===== *)
theory Symbol_Examples
  imports Symbol_Threads Process_Examples
begin

text \<open>The properties of concurrent symbol searches on concrete inputs.\<close>

definition ex_symbol_table :: sym_world where
  "ex_symbol_table = sym_goto 0 (SymDone (7, [102]) 42)
     (sym_fresh\<lparr>sw_answers := [((7, [102]), 42)], sw_table := [(7, [102]) \<mapsto> 42]\<rparr>)"

lemma ex_symbol_reach: "sym_reach ex_symbol_table"
proof -
  let ?w = "sym_goto 0 (SymGot (7, [102]) 42) (sym_fresh\<lparr>sw_answers := [((7, [102]), 42)]\<rparr>)"
  have "sym_leads sym_fresh ?w"
    using sym_leads_answer [of sym_fresh 0 "(7, [102])" 42] by (simp add: sym_fresh_def VEO_SYMNAME_LEN_MAX_def)
  from sym_leads_stored [OF this, of 0 "(7, [102])" 42] have "sym_leads sym_fresh ex_symbol_table"
    by (simp add: sym_goto_def sym_fresh_def ex_symbol_table_def)
  then show ?thesis using sym_leads_reach sym_reach.init by blast
qed


theorem symbol_search_not_stuck_witness:
  "\<exists>t w'. sym_step t ex_symbol_table w'"
  using symbol_search_not_stuck [OF ex_symbol_reach, of 0]
  by (auto simp: ex_symbol_table_def sym_goto_def)

theorem getSym_is_a_run_witness:
  "\<exists>w'. sym_leads sym_fresh w' \<and> sw_pc w' 0 = SymDone (7, mem_read (ex_name 0x4000 3) 0x4000 3) 42"
proof -
  obtain t where "getSym ex_proc_env 7 0x4000 ex_sym_proc = Some (Inr 42, t)" using ex_getSym by blast
  from getSym_is_a_run [OF ex_sym_name(1,2) this, of sym_fresh 0] show ?thesis
    by (auto simp: sym_fresh_def)
qed

end
