(* ===== verification/Logging.thy ===== *)
theory Logging
  imports C_Strings
begin

text \<open>
  The log functions (\<^verbatim>\<open>src/libveo/log.cpp\<close>, \<^verbatim>\<open>src/libveo/log.hpp\<close>).  log4c itself is a parameter:
  how it finds a category and what it does with a message.  Pointers are addresses; a log
  message of a context begins with the address of the context.
\<close>

section \<open>Formatted pointers\<close>

text \<open>The conversion \<^verbatim>\<open>%p\<close> of a pointer that is not null, and the size limit of \<^verbatim>\<open>snprintf\<close>.\<close>

definition hex_digit :: "nat \<Rightarrow> char" where
  "hex_digit d = (if d < 10 then char_of (48 + d) else char_of (87 + d))"

fun print_hex :: "nat \<Rightarrow> string" where
  "print_hex n = (if n < 16 then [hex_digit n] else print_hex (n div 16) @ [hex_digit (n mod 16)])"

declare print_hex.simps [simp del]

definition print_pointer :: "u64 \<Rightarrow> string" where
  "print_pointer p = ''0x'' @ print_hex (unat p)"

definition snprintf_result :: "nat \<Rightarrow> string \<Rightarrow> string" where
  "snprintf_result size_limit text = take (size_limit - 1) text"

section \<open>Messages\<close>

record ('loc, 'args, 'os) log4c_env =
  log4c_category_get :: "string \<Rightarrow> 'os \<Rightarrow> u64 \<times> 'os"
  log4c_category_vlog :: "u64 \<Rightarrow> 'loc \<Rightarrow> int \<Rightarrow> string \<Rightarrow> 'args \<Rightarrow> 'os \<Rightarrow> 'os"
  LOG4C_PRIORITY_ERROR :: int
  LOG4C_PRIORITY_DEBUG :: int
  LOG4C_PRIORITY_TRACE :: int
  print_stderr :: "string \<Rightarrow> 'args \<Rightarrow> 'os \<Rightarrow> 'os"

text \<open>The global variables \<^verbatim>\<open>log_category_\<close> and \<^verbatim>\<open>cat_pseudo_core\<close>.\<close>

record log_globals =
  log_category :: u64
  cat_pseudo_core :: u64

definition VEO_LOG_CATEGORY :: string where
  "VEO_LOG_CATEGORY = ''veos.veo.veo''"

definition veo_log_init ::
  "('loc, 'args, 'os) log4c_env \<Rightarrow> 'os \<Rightarrow> log_globals \<times> 'os" where
  "veo_log_init L w =
     (let (c, w1) = log4c_category_get L VEO_LOG_CATEGORY w;
          (p, w2) = log4c_category_get L ''veos.veo.pseudo'' w1
      in (\<lparr>log_category = c, cat_pseudo_core = p\<rparr>, w2))"

text \<open>The \<^verbatim>\<open>header\<close> buffer has 32 bytes.\<close>

definition log_header :: "u64 \<Rightarrow> string" where
  "log_header ctx = snprintf_result 32 (''[context '' @ print_pointer ctx @ ''] '')"

definition log_format :: "u64 \<Rightarrow> string \<Rightarrow> string" where
  "log_format ctx fmt = (if ctx \<noteq> 0 then log_header ctx @ fmt else fmt)"

definition veo__vlog ::
  "('loc, 'args, 'os) log4c_env \<Rightarrow> log_globals \<Rightarrow> u64 \<Rightarrow> 'loc \<Rightarrow> int \<Rightarrow> string \<Rightarrow> 'args \<Rightarrow> 'os \<Rightarrow> 'os" where
  "veo__vlog L g ctx loc prio fmt args w =
     log4c_category_vlog L (log_category g) loc prio (log_format ctx fmt) args w"

definition veo__log ::
  "('loc, 'args, 'os) log4c_env \<Rightarrow> log_globals \<Rightarrow> u64 \<Rightarrow> 'loc \<Rightarrow> int \<Rightarrow> string \<Rightarrow> 'args \<Rightarrow> 'os \<Rightarrow> 'os" where
  "veo__log L g ctx loc prio fmt args w = veo__vlog L g ctx loc prio fmt args w"

text \<open>The macros, for messages of the location \<open>loc\<close>.\<close>

definition VEO_ERROR ::
  "('loc, 'args, 'os) log4c_env \<Rightarrow> log_globals \<Rightarrow> 'loc \<Rightarrow> u64 \<Rightarrow> string \<Rightarrow> 'args \<Rightarrow> 'os \<Rightarrow> 'os" where
  "VEO_ERROR L g loc ctx fmt args w = veo__log L g ctx loc (LOG4C_PRIORITY_ERROR L) fmt args w"

definition VEO_DEBUG ::
  "('loc, 'args, 'os) log4c_env \<Rightarrow> log_globals \<Rightarrow> 'loc \<Rightarrow> u64 \<Rightarrow> string \<Rightarrow> 'args \<Rightarrow> 'os \<Rightarrow> 'os" where
  "VEO_DEBUG L g loc ctx fmt args w = veo__log L g ctx loc (LOG4C_PRIORITY_DEBUG L) fmt args w"

definition VEO_TRACE ::
  "('loc, 'args, 'os) log4c_env \<Rightarrow> log_globals \<Rightarrow> 'loc \<Rightarrow> u64 \<Rightarrow> string \<Rightarrow> 'args \<Rightarrow> 'os \<Rightarrow> 'os" where
  "VEO_TRACE L g loc ctx fmt args w = veo__log L g ctx loc (LOG4C_PRIORITY_TRACE L) fmt args w"

definition VEO_ASSERT ::
  "('loc, 'args, 'os) log4c_env \<Rightarrow> log_globals \<Rightarrow> 'loc \<Rightarrow> bool \<Rightarrow> 'args \<Rightarrow> 'os \<Rightarrow> unit result \<times> 'os" where
  "VEO_ASSERT L g loc cond args w =
     (if cond then (Inr (), w)
      else let w1 = print_stderr L (''%s %d: Assertion failure: %s'' @ [CHR 0x0A]) args w;
               w2 = VEO_ERROR L g loc 0 ''%s %d: Assertion failure: %s'' args w1
           in (Inl Abort, w2))"

section \<open>Headers\<close>

definition hex_value :: "string \<Rightarrow> nat" where
  "hex_value ds = foldl (\<lambda>n c. 16 * n + (if of_char c < (87 :: nat) then of_char c - 48 else of_char c - 87)) 0 ds"

lemma hex_value_snoc:
  "hex_value (ds @ [hex_digit d]) = 16 * hex_value ds + d" if "d < 16"
  using that by (simp add: hex_value_def hex_digit_def)

lemma hex_value_print: "hex_value (print_hex n) = n"
proof (induction n rule: print_hex.induct)
  case (1 n)
  show ?case
  proof (cases "n < 16")
    case True
    then show ?thesis using hex_value_snoc [of n "[]"] by (subst print_hex.simps) (simp add: hex_value_def)
  next
    case False
    then have "print_hex n = print_hex (n div 16) @ [hex_digit (n mod 16)]"
      by (subst print_hex.simps) simp
    then show ?thesis using 1 [OF False] by (simp add: hex_value_snoc)
  qed
qed

lemma print_hex_inject: "print_hex m = print_hex n \<longleftrightarrow> m = n"
  by (metis hex_value_print)

lemma hex_digit_not_percent: "d < 16 \<Longrightarrow> hex_digit d \<noteq> CHR ''%''"
proof
  assume d: "d < 16" and "hex_digit d = CHR ''%''"
  then have "(of_char (hex_digit d) :: nat) = of_char CHR ''%''" by simp
  with d show False by (auto simp: hex_digit_def split: if_splits)
qed

lemma print_hex_no_percent: "CHR ''%'' \<notin> set (print_hex n)"
proof (induction n rule: print_hex.induct)
  case (1 n)
  then show ?case
    using hex_digit_not_percent [of n] hex_digit_not_percent [of "n mod 16"]
    by (subst print_hex.simps) auto
qed

lemma length_print_hex: "n < 16 ^ Suc k \<Longrightarrow> length (print_hex n) \<le> Suc k"
proof (induction k arbitrary: n)
  case 0
  then show ?case by (subst print_hex.simps) simp
next
  case (Suc k)
  have "n div 16 < 16 ^ Suc k" using Suc.prems by (simp add: less_mult_imp_div_less mult.commute)
  from Suc.IH [OF this] show ?case by (subst print_hex.simps) simp
qed

lemma length_print_pointer: "length (print_pointer p) \<le> 18"
proof -
  have "unat p < 16 ^ Suc 15" using unsigned_less [of p] by simp
  from length_print_hex [OF this] show ?thesis by (simp add: print_pointer_def)
qed

lemma log_header_eq: "log_header ctx = ''[context '' @ print_pointer ctx @ ''] ''"
  using length_print_pointer [of ctx] by (simp add: log_header_def snprintf_result_def)

text \<open>
  The header of a log message.  The address of a context always fits in the 32-byte buffer
  of the header, so that nothing is cut off; the header adds no conversion to the format
  string; and the headers of different contexts are different.
\<close>

theorem log_header_identifies_context:
  "log_header ctx = ''[context 0x'' @ print_hex (unat ctx) @ ''] ''
     \<and> length (log_header ctx) + 1 \<le> 32 \<and> CHR ''%'' \<notin> set (log_header ctx)
     \<and> (log_header ctx = log_header ctx' \<longleftrightarrow> ctx = ctx')"
proof (intro conjI)
  show "log_header ctx = ''[context 0x'' @ print_hex (unat ctx) @ ''] ''"
    by (simp add: log_header_eq print_pointer_def)
  show "length (log_header ctx) + 1 \<le> 32"
    using length_print_pointer [of ctx] by (simp add: log_header_eq)
  show "CHR ''%'' \<notin> set (log_header ctx)"
    by (simp add: log_header_eq print_pointer_def print_hex_no_percent)
  show "log_header ctx = log_header ctx' \<longleftrightarrow> ctx = ctx'"
    by (simp add: log_header_eq print_pointer_def print_hex_inject word_unat_eq_iff)
qed

end
