(* ===== verification/Spec2Isabelle.thy ===== *)
theory Spec2Isabelle
  imports Creation_Examples Queue_Examples Memory_Examples Progress_Examples Symbol_Examples Logging
begin

text \<open>
  A verification of libveo, the VE offloading library (\<^verbatim>\<open>src/src/libveo\<close>): a program on the
  vector host (VH) creates a process on a vector engine (VE), loads code there, opens thread
  contexts, and submits calls and memory transfers that are executed asynchronously.

  \<^bold>\<open>The program.\<close>  A process handle (\<^verbatim>\<open>ProcHandle\<close>) owns two VE threads: the main thread, which
  starts veorun and stays blocked, and the worker, to which every operation on the process is
  sent.  A thread context (\<^verbatim>\<open>ThreadContext\<close>) is a VE thread together with a pseudo thread of the VH
  process.  VH threads push commands on the request queue of a context (\<^verbatim>\<open>CommQueue\<close>); the pseudo
  thread pops them in its event loop, runs them and pushes them on the completion queue, from
  which a VH thread takes the result by its request ID.  A call of a VE function puts its
  arguments (\<^verbatim>\<open>CallArgs\<close>) in registers and in a stack image, unblocks the VE thread, and handles
  its exceptions and system calls until it asks to be blocked again.  The C functions of
  \<^verbatim>\<open>api.cpp\<close> wrap all this and turn exceptions into return codes.

  \<^bold>\<open>How it is modelled.\<close>  A computation (type \<open>prog\<close>) maps a state to \<open>None\<close> if it does not
  return, and otherwise to its result and the state it leaves; the result is a value or a
  \<open>fault\<close>: an exception, an abort, the end of the thread, or undefined behaviour.  Loops that
  may run for ever are \<^theory_text>\<open>partial_function (option)\<close>, so no fuel is needed: that an operation
  returns is the statement that it is not \<open>None\<close>, and that it hangs is the statement that it is.
  Machine integers are words of their width.  The libraries below the program (libved,
  libvepseudo, the VE OS, the C library, the headers of veorun) are records of functions on a
  state of their own (\<open>veos\<close>, \<open>proc_env\<close>, \<open>spawn_env\<close>); nothing is assumed of them unless a
  theorem says so.

  \<^bold>\<open>The theories and the sources.\<close>
    \<^item> \<open>Veo_Prelude\<close>: computations, byte strings, little-endian images, flat memories.
    \<^item> \<open>C_Strings\<close>: the functions of the C and C++ libraries on strings (\<^verbatim>\<open>strlen\<close>, \<^verbatim>\<open>getline\<close>,
      \<^verbatim>\<open>stoi\<close>, \<^verbatim>\<open>%d\<close>, \<^verbatim>\<open>basename\<close>, \<^verbatim>\<open>dirname\<close>), with their round trips.
    \<^item> \<open>Ve_Offload\<close>: constants and enumerations of \<^verbatim>\<open>ve_offload.h\<close> and \<^verbatim>\<open>veo_private_defs.h\<close>.
    \<^item> \<open>CallArgs\<close> (\<^verbatim>\<open>CallArgs.hpp\<close>, \<^verbatim>\<open>CallArgs.cpp\<close>): the argument classes, the stack image, copying
      in and out.  \<open>CallArgs_Layout\<close>: the image is described slot by slot and buffer by buffer,
      setting up succeeds exactly when the image fits an \<^verbatim>\<open>int\<close>, copying in and out is a round
      trip; an output buffer beyond the eighth argument is not made known to the VE.
    \<^item> \<open>Command\<close> (\<^verbatim>\<open>Command.hpp\<close>, \<^verbatim>\<open>Command.cpp\<close>, \<^verbatim>\<open>CommandImpl.hpp\<close>): commands and queues, and that
      requests are handed over in order, once each.  \<open>Queue_Threads\<close>: the same queue with its mutex
      and its condition variable, for any number of threads: linearizable, and no wake-up is
      lost, which is why the other theories take an operation of a queue as one step.
    \<^item> \<open>ThreadContext\<close> (\<^verbatim>\<open>ThreadContext.hpp\<close>, \<^verbatim>\<open>ThreadContext.cpp\<close>): system call filters, the
      exception handler, calls of VE functions, the handlers of the commands.  \<open>VeExecution\<close>: what
      the handlers can return and change, that they return, and the calling convention.
    \<^item> \<open>EventLoop\<close> (\<^verbatim>\<open>ThreadContext.cpp\<close>, \<^verbatim>\<open>AsyncTransfer.cpp\<close>): the event loop, the asynchronous
      requests, peeking and waiting, closing, attributes.  \<open>Requests\<close>: the event loop is the
      sequential execution of the pending commands; waiting for a request delivers its own
      result, once; a failed command drains the queue; closing, and what it strands.
    \<^item> \<open>Interleaving\<close>: the same operations in atomic steps, for any number of VH threads and the
      pseudo thread of one context, as a step relation.  Invariants of every reachable state
      (each request is in one place, completion in the order of submission), races, and
      simulations of the sequential operations.
    \<^item> \<open>Context_Service\<close>: an abstract service that accepts requests, finishes them in order and
      delivers each result once; the interleaved context refines it, so that properties of the
      service, such as what happens after a failure, hold of every interleaving.
    \<^item> \<open>Progress\<close>: infinite runs under weak fairness.  Queued requests are completed, a failure
      leaves none behind, and a thread that waits returns; the rule \<open>fair_leads\<close> with a distance
      that each step of the pseudo thread shortens carries these proofs.
    \<^item> \<open>ProcHandle\<close> (\<^verbatim>\<open>ProcHandle.hpp\<close>, \<^verbatim>\<open>ProcHandle.cpp\<close>): symbols, libraries, memory, contexts and
      the end of a process.  \<open>Process\<close>: the symbol cache, the operations on an idle worker and on
      one that has failed.  \<open>Symbol_Threads\<close>: any number of threads in \<^verbatim>\<open>getSym\<close>, cut at the operations
      of its mutex: exclusion, soundness of the table, no deadlock, a data race, and that the
      sequential function is one of the runs.
    \<^item> \<open>Spawn\<close>, \<open>Creation\<close> (\<^verbatim>\<open>ProcHandle.cpp\<close>, \<^verbatim>\<open>veo_proc__create\<close> of \<^verbatim>\<open>api.cpp\<close>): \<^verbatim>\<open>spawn_helper\<close> and
      its helpers, and the constructor.  \<open>Creation_Properties\<close>: the array of environment variables
      and auxiliary vectors, the names of a node, the count of processes, what failures leave
      behind, and that a created process is in the state from which \<open>Process\<close> starts.
    \<^item> \<open>Api\<close> (\<^verbatim>\<open>api.cpp\<close>): the C functions, and the choice of the VE node.  \<open>Api_Properties\<close>: the
      choice of the node, failures seen by the caller, argument values, and a call through context
      handles from its submission to its result.  \<open>Remote_Call\<close>: all parts together, a VE function
      given by its semantics and called through the C API.
    \<^item> \<open>Worker_Calls\<close>: VE functions called by the operations of a process with a string argument:
      a library is loaded and a symbol found in it, and calls by name.
    \<^item> \<open>Memory_Requests\<close>: a context with any list of transfers and calls queued is a sequential machine on
      the memories of the VH and the VE (\<open>mem_exec\<close>, \<open>mem_run\<close>): the values and the memories are those of
      executing the list step by step.  \<open>Process_Memory\<close>: the transfers through the process handle,
      and their round trip.
    \<^item> \<open>Sample_Batch\<close>, \<open>Sample_Programs\<close>, \<open>Sample_Fortran\<close>, \<open>Sample_Polling\<close>, \<open>Sample_Memory\<close>, \<open>Sample_Hello\<close>,
      \<open>Sample_Stack\<close> (\<^verbatim>\<open>src/examples\<close>): the sample programs as clients of the C API, with the VE functions they
      call: \<^verbatim>\<open>simplefunccall.c\<close> submits a batch of calls, \<^verbatim>\<open>test_child1.c\<close> and \<^verbatim>\<open>test_child2.c\<close> check the result
      of one call, \<^verbatim>\<open>fortrantest.c\<close> passes arguments by reference, \<^verbatim>\<open>test_nonblock.c\<close> and \<^verbatim>\<open>test_nb_static.c\<close>
      poll for a result, \<^verbatim>\<open>test_async_mem.c\<close> and \<^verbatim>\<open>hello.c\<close> mix calls with transfers on the context and on the
      worker, \<^verbatim>\<open>test_stackargs.c\<close> passes more arguments than there are registers and buffers in both
      directions.  What they print is derived from the theorems on the parts; that a call reaches
      its function with its arguments is proved of the library, not assumed.
    \<^item> \<open>Logging\<close> (\<^verbatim>\<open>log.hpp\<close>, \<^verbatim>\<open>log.cpp\<close>): the log functions and macros, with log4c as a parameter; the
      header of a message fits its buffer and identifies the context.
    \<^item> \<open>Example_Machine\<close>, \<open>Examples\<close>, \<open>Request_Examples\<close>, \<open>Process_Examples\<close>, \<open>Creation_Examples\<close>,
      \<open>Remote_Examples\<close>, \<open>Progress_Examples\<close>, \<open>Queue_Examples\<close>, \<open>Symbol_Examples\<close>,
      \<open>Sample_Examples\<close>, \<open>Memory_Examples\<close>: a concrete environment whose hardware events are a script, or follow from the
      semantics of the functions it holds, concrete runs, and every property that has
      hypotheses applied to them.

  \<^bold>\<open>Interfaces.\<close>  What one part relies on in another is a locale, interpreted on the model's own
  definitions: \<open>image_writer\<close> (\<open>CallArgs_Layout\<close>), a routine that writes one argument into the
  image; \<open>keyed_queue\<close> (\<open>Command\<close>), a FIFO queue from which elements are also taken by their ID;
  \<open>syscall_filter\<close> (\<open>VeExecution\<close>), what the exception handler relies on in a filter, for the three
  filters; \<open>program_frame\<close>, \<open>call_frame\<close> and \<open>frame_relation\<close> (\<open>Requests\<close>), the relations that a
  computation, a call and any command keep, the last also for the flag of a main thread
  (\<open>Worker_Calls\<close>); \<open>simulation\<close> (\<open>Context_Service\<close>), between the
  interleaved context and the abstract service; \<open>cache\<close> (\<open>Process\<close>), for the table of symbols; and
  \<open>creation_frame\<close> (\<open>Creation_Properties\<close>), which extends \<open>program_frame\<close>, for the count of processes.

  \<^bold>\<open>Sequential and concurrent views.\<close>  In \<open>EventLoop\<close> one VH thread and the pseudo thread take turns:
  a thread that waits lets the pseudo thread run until the result is there.  The mutexes of
  \<^verbatim>\<open>ProcHandle\<close> never block in this view and are left out.  \<open>Interleaving\<close> drops the restriction for
  the queues and requests of one context; the execution of a command is one step there.
  \<open>Symbol_Threads\<close> drops it for the table of symbols.  In the sample programs a new pseudo
  thread runs to its first wait before the program goes on, and in the pauses of a polling program
  it runs or not, as any given schedule says.  The theorems on distinct IDs in the
  concurrent view hold while fewer than \<open>2 ^ 64\<close> IDs have been issued, when the counter repeats.

  \<^bold>\<open>Not modelled.\<close>  The log messages of the other components are left out: they change no state
  of the program.  \<^verbatim>\<open>vars.c\<close> defines variables for libvepseudo.  The signal masks that the exception handler sets
  around the waiting calls are left out, as is \<^verbatim>\<open>veo_version_string\<close>, which returns a constant of
  the build.  Reading members of a table of helper functions older than version 4 gives what
  the storage happens to hold.  \<^verbatim>\<open>setnumChildThreads\<close> lacks a return statement; it is modelled as
  the assignment it makes.  Of the sample programs, what the VE functions print and messages on
  the standard error stream are left out; floating-point numbers are bit patterns, and the addition
  and conversion of the VE are parameters of the functions that use them.  The other calls of
  \<^verbatim>\<open>test_stackargs.c\<close> are definitions without a theorem of their own: they are instances of the
  remote procedure call.
\<close>

end
